(* ===== verification/Prelude.thy ===== *)
theory Prelude
  imports Main "HOL-Library.Word" "HOL-Library.Multiset"
begin

text \<open>
  The prelude: the development's fact collections, the generic list and map lemmas the
  components share, and the types every component speaks in. The Go error values of the
  program are here, because every package raises and inspects them: a sentinel error
  (a package level \<open>errors.New\<close>), an opaque error with a text, or an error that wraps others
  (\<open>fmt.Errorf\<close> with \<open>%w\<close>). \<open>ErrUpdateNotFound\<close> belongs to the composeapp library; the program only
  compares with it, so its text here is a placeholder that nothing prints. \<open>errors_is\<close> is Go's \<open>errors.Is\<close>: it walks the tree of wrapped
  errors.
\<close>

named_theorems go_defs \<open>unfolding of the modelled Go functions\<close>
named_theorems host_frame \<open>what an operation leaves alone in the host\<close>
named_theorems ctx_frame \<open>what an operation leaves alone in the update context\<close>

section \<open>Error values\<close>

datatype sentinel =
    ErrCheckNoUpdate | ErrNewerVersionIsAvailable | ErrInvalidOngoingUpdate
  | ErrTargetNotFound | ErrNoMatchingTarget | ErrNoUpdateInProgress | ErrMetaUpdateFailed
  | ErrInvalidActionForState | ErrInitFailed | ErrFetchFailed | ErrFetchNoSpace
  | ErrStopAppsFailed | ErrInstallFailed | ErrStartFailed
  | ErrUpdateNotFound
  | ErrNotExist | ErrExist | ErrPermission

fun sentinel_text :: "sentinel \<Rightarrow> string" where
  "sentinel_text ErrCheckNoUpdate = ''selected target is already running''"
| "sentinel_text ErrNewerVersionIsAvailable =
     ''can't resume current update, there is a newer version available''"
| "sentinel_text ErrInvalidOngoingUpdate = ''invalid ongoing update''"
| "sentinel_text ErrTargetNotFound = ''target not found''"
| "sentinel_text ErrNoMatchingTarget = ''no matching target available''"
| "sentinel_text ErrNoUpdateInProgress = ''there is no update in progress''"
| "sentinel_text ErrMetaUpdateFailed = ''failed to load or update targets metadata''"
| "sentinel_text ErrInvalidActionForState = ''invalid action for update state''"
| "sentinel_text ErrInitFailed = ''update initialization failed''"
| "sentinel_text ErrFetchFailed = ''download failed''"
| "sentinel_text ErrFetchNoSpace = ''download failed, not enough storage space''"
| "sentinel_text ErrStopAppsFailed = ''stopping apps failed''"
| "sentinel_text ErrInstallFailed = ''installation failed''"
| "sentinel_text ErrStartFailed = ''start failed''"
| "sentinel_text ErrUpdateNotFound = ''update not found''"
| "sentinel_text ErrNotExist = ''file does not exist''"
| "sentinel_text ErrExist = ''file already exists''"
| "sentinel_text ErrPermission = ''permission denied''"

datatype goerr =
    Sentinel sentinel
  | ErrorString string
  | Wrapped string "goerr list"

fun err_text :: "goerr \<Rightarrow> string" where
  "err_text (Sentinel s) = sentinel_text s"
| "err_text (ErrorString t) = t"
| "err_text (Wrapped t es) = t"

fun errors_is :: "goerr \<Rightarrow> sentinel \<Rightarrow> bool" where
  "errors_is (Sentinel s) x = (s = x)"
| "errors_is (ErrorString t) x = False"
| "errors_is (Wrapped t es) x = (\<exists>e \<in> set es. errors_is e x)"

text \<open>\<open>fmt.Errorf("prefix: %w", e)\<close>, \<open>fmt.Errorf("%w: text", s)\<close> and \<open>fmt.Errorf("%w: %w", s, e)\<close>.\<close>

definition errorf :: "string \<Rightarrow> goerr \<Rightarrow> goerr" where
  "errorf msg e = Wrapped (msg @ '': '' @ err_text e) [e]"

definition errorf_msg :: "sentinel \<Rightarrow> string \<Rightarrow> goerr" where
  "errorf_msg s msg = Wrapped (sentinel_text s @ '': '' @ msg) [Sentinel s]"

definition errorf2 :: "sentinel \<Rightarrow> goerr \<Rightarrow> goerr" where
  "errorf2 s e = Wrapped (sentinel_text s @ '': '' @ err_text e) [Sentinel s, e]"

lemma errors_is_errorf [simp]: "errors_is (errorf m e) x = errors_is e x"
  by (simp add: errorf_def)

lemma errors_is_errorf_msg [simp]: "errors_is (errorf_msg s m) x = (s = x)"
  by (simp add: errorf_msg_def)

lemma errors_is_errorf2 [simp]: "errors_is (errorf2 s e) x = (s = x \<or> errors_is e x)"
  by (simp add: errorf2_def)

section \<open>Nil-able pointers and results\<close>

text \<open>
  Go's \<open>(value, error)\<close> results are sums: \<open>Inl\<close> the error, \<open>Inr\<close> the value. A bare \<open>error\<close>
  result is an option. \<open>or_wrap\<close> is the idiom \<open>if err != nil { return fmt.Errorf(...) }\<close>.
\<close>

type_synonym 'a result = "goerr + 'a"

text \<open>A call that may end in a run-time panic (a nil dereference, a failed type assertion).\<close>

datatype 'a outcome = Ret 'a | Panicked

fun or_wrap :: "string \<Rightarrow> goerr option \<Rightarrow> goerr option" where
  "or_wrap m None = None"
| "or_wrap m (Some e) = Some (errorf m e)"

lemma or_wrap_None [simp]: "or_wrap m x = None \<longleftrightarrow> x = None"
  by (cases x) simp_all

section \<open>Lists\<close>

lemma mset_filter_partition:
  "mset (filter P xs) + mset (filter (\<lambda>x. \<not> P x) xs) = mset xs"
  by (induction xs) auto

lemma distinct_map_filter_key: "distinct (map f xs) \<Longrightarrow> distinct (map f (filter P xs))"
  by (rule distinct_map_filter)

lemma find_Some_set: "find P xs = Some x \<Longrightarrow> x \<in> set xs \<and> P x"
  by (auto simp: find_Some_iff)

lemma find_None_all: "find P xs = None \<longleftrightarrow> (\<forall>x \<in> set xs. \<not> P x)"
  by (auto simp: find_None_iff)

lemma find_distinct_key:
  assumes "distinct (map f xs)" and "x \<in> set xs"
  shows "find (\<lambda>y. f y = f x) xs = Some x"
  using assms by (induction xs) (auto simp: image_iff)

lemma map_of_distinct_key:
  assumes "distinct (map f xs)" and "x \<in> set xs"
  shows "map_of (map (\<lambda>y. (f y, g y)) xs) (f x) = Some (g x)"
  using assms by (induction xs) (auto simp: image_iff)

lemma strict_sorted_append:
  "sorted_wrt (<) (xs @ ys) \<longleftrightarrow>
     sorted_wrt (<) xs \<and> sorted_wrt (<) ys \<and> (\<forall>x \<in> set xs. \<forall>y \<in> set ys. x < (y::'a::order))"
  by (induction xs) auto

end
