(* ===== verification/GoStd.thy ===== *)
theory GoStd
  imports Prelude
begin

text \<open>
  What the program uses of Go's standard library: 64-bit \<open>int\<close> arithmetic, \<open>strconv.Atoi\<close> and
  \<open>strconv.Itoa\<close>, \<open>strings.Split\<close>, \<open>strings.Join\<close>, \<open>strings.TrimSpace\<close>, \<open>slices.SortFunc\<close>
  (its insertion sort) and JSON values with the printer behind \<open>json.MarshalIndent\<close>. Strings
  are byte strings.
\<close>

section \<open>64-bit integers\<close>

definition int_min :: int where "int_min = - (2 ^ 63)"
definition int_max :: int where "int_max = 2 ^ 63 - 1"

definition wrap64 :: "int \<Rightarrow> int" where
  "wrap64 x = (x + 2 ^ 63) mod 2 ^ 64 - 2 ^ 63"

lemma wrap64_id: "int_min \<le> x \<Longrightarrow> x \<le> int_max \<Longrightarrow> wrap64 x = x"
  by (simp add: wrap64_def int_min_def int_max_def)

section \<open>strconv\<close>

definition digit_char :: "nat \<Rightarrow> char" where
  "digit_char d = ''0123456789'' ! d"

definition digit_of :: "char \<Rightarrow> nat option" where
  "digit_of c = (let n = of_char c in if 48 \<le> n \<and> n \<le> 57 then Some (n - 48) else None)"

fun nat_digits :: "nat \<Rightarrow> string" where
  "nat_digits n = (if n < 10 then [digit_char n] else nat_digits (n div 10) @ [digit_char (n mod 10)])"

declare nat_digits.simps [simp del]

fun parse_digits :: "nat \<Rightarrow> string \<Rightarrow> nat option" where
  "parse_digits acc [] = Some acc"
| "parse_digits acc (c # cs) =
     (case digit_of c of None \<Rightarrow> None | Some d \<Rightarrow> parse_digits (10 * acc + d) cs)"

definition itoa :: "int \<Rightarrow> string" where
  "itoa n = (if n < 0 then CHR ''-'' # nat_digits (nat (- n)) else nat_digits (nat n))"

text \<open>
  \<open>strconv.Atoi\<close> returns a value and an error together: 0 with a syntax error, the nearest
  limit with a range error.
\<close>

datatype num_error = ErrSyntax | ErrRange

definition parse_uint :: "string \<Rightarrow> nat option" where
  "parse_uint s = (if s = [] then None else parse_digits 0 s)"

definition atoi :: "string \<Rightarrow> int \<times> num_error option" where
  "atoi s =
    (let neg = (s \<noteq> [] \<and> hd s = CHR ''-'');
         body = (if s \<noteq> [] \<and> (hd s = CHR ''-'' \<or> hd s = CHR ''+'') then tl s else s)
     in case parse_uint body of
          None \<Rightarrow> (0, Some ErrSyntax)
        | Some n \<Rightarrow>
            if \<not> neg \<and> n \<ge> 2 ^ 63 then (int_max, Some ErrRange)
            else if neg \<and> n > 2 ^ 63 then (int_min, Some ErrRange)
            else (if neg then - int n else int n, None))"

lemma digit_of_digit_char [simp]:
  assumes "d < 10"
  shows "digit_of (digit_char d) = Some d"
proof -
  from assms have "d = 0 \<or> d = 1 \<or> d = 2 \<or> d = 3 \<or> d = 4 \<or> d = 5 \<or> d = 6 \<or> d = 7 \<or> d = 8 \<or> d = 9"
    by arith
  then show ?thesis
    by (elim disjE) (simp_all add: digit_char_def digit_of_def)
qed

lemma parse_digits_append:
  "parse_digits acc (xs @ ys) =
     (case parse_digits acc xs of None \<Rightarrow> None | Some a \<Rightarrow> parse_digits a ys)"
  by (induction xs arbitrary: acc) (auto split: option.splits)

lemma nat_digits_nonempty [simp]: "nat_digits n \<noteq> []"
  by (subst nat_digits.simps) simp

lemma parse_digits_nat_digits: "parse_digits 0 (nat_digits n) = Some n"
proof (induction n rule: nat_digits.induct)
  case (1 n)
  show ?case
  proof (cases "n < 10")
    case True
    then show ?thesis by (simp add: nat_digits.simps [of n])
  next
    case False
    with "1.IH" show ?thesis
      by (simp add: nat_digits.simps [of n] parse_digits_append)
  qed
qed

lemma parse_uint_nat_digits [simp]: "parse_uint (nat_digits n) = Some n"
  by (simp add: parse_uint_def parse_digits_nat_digits)

lemma digit_char_range:
  assumes "d < 10"
  shows "digit_char d \<in> set ''0123456789''"
  unfolding digit_char_def using assms by (intro nth_mem) simp

lemma nat_digits_set: "set (nat_digits n) \<subseteq> set ''0123456789''"
proof (induction n rule: nat_digits.induct)
  case (1 n)
  show ?case
  proof (cases "n < 10")
    case True
    then show ?thesis using digit_char_range [of n] by (simp add: nat_digits.simps [of n])
  next
    case False
    with "1.IH" digit_char_range [of "n mod 10"] show ?thesis
      by (simp add: nat_digits.simps [of n])
  qed
qed

lemma nat_digits_no: "c \<notin> set ''0123456789'' \<Longrightarrow> c \<notin> set (nat_digits n)"
  using nat_digits_set [of n] by blast

lemma hd_nat_digits: "hd (nat_digits n) \<in> set ''0123456789''"
  using nat_digits_set [of n] nat_digits_nonempty [of n] by (meson hd_in_set subsetD)

lemma hd_nat_digits_no_sign: "hd (nat_digits n) \<noteq> CHR ''-'' \<and> hd (nat_digits n) \<noteq> CHR ''+''"
  using hd_nat_digits [of n] by auto

lemma atoi_itoa: "int_min \<le> n \<Longrightarrow> n \<le> int_max \<Longrightarrow> atoi (itoa n) = (n, None)"
  using hd_nat_digits_no_sign [of "nat n"]
  by (auto simp: atoi_def itoa_def int_min_def int_max_def Let_def)

section \<open>strings\<close>

fun split_on :: "char \<Rightarrow> string \<Rightarrow> string list" where
  "split_on c [] = [[]]"
| "split_on c (x # xs) =
     (if x = c then [] # split_on c xs
      else (case split_on c xs of [] \<Rightarrow> [[x]] | y # ys \<Rightarrow> (x # y) # ys))"

fun join :: "string \<Rightarrow> string list \<Rightarrow> string" where
  "join sep [] = []"
| "join sep [x] = x"
| "join sep (x # y # zs) = x @ sep @ join sep (y # zs)"

definition is_space :: "char \<Rightarrow> bool" where
  "is_space c = (c \<in> set [CHR '' '', CHR 0x09, CHR 0x0A, CHR 0x0B, CHR 0x0C, CHR 0x0D])"

definition trim_space :: "string \<Rightarrow> string" where
  "trim_space s = rev (dropWhile is_space (rev (dropWhile is_space s)))"

text \<open>\<open>strings.Fields\<close>.\<close>

fun fields_acc :: "string \<Rightarrow> string \<Rightarrow> string list" where
  "fields_acc cur [] = (if cur = '''' then [] else [rev cur])"
| "fields_acc cur (c # cs) =
     (if is_space c then (if cur = '''' then [] else [rev cur]) @ fields_acc '''' cs
      else fields_acc (c # cur) cs)"

definition str_fields :: "string \<Rightarrow> string list" where
  "str_fields s = fields_acc '''' s"

lemma split_on_nonempty [simp]: "split_on c s \<noteq> []"
  by (induction s) (auto split: list.splits)

lemma split_on_no_sep: "c \<notin> set s \<Longrightarrow> split_on c s = [s]"
  by (induction s) auto

lemma split_on_append_sep: "split_on c (xs @ c # ys) = split_on c xs @ split_on c ys"
  by (induction xs) (auto split: list.splits)

lemma split_on_parts_no_sep: "p \<in> set (split_on c s) \<Longrightarrow> c \<notin> set p"
proof (induction s arbitrary: p)
  case (Cons x xs)
  obtain y ys where "split_on c xs = y # ys"
    by (meson neq_Nil_conv split_on_nonempty)
  with Cons show ?case by (auto split: if_splits)
qed simp

lemma join_split_on: "join [c] (split_on c s) = s"
proof (induction s)
  case Nil
  then show ?case by simp
next
  case (Cons x xs)
  obtain y ys where "split_on c xs = y # ys"
    by (meson neq_Nil_conv split_on_nonempty)
  with Cons show ?case by (cases ys) auto
qed

lemma split_on_join:
  assumes "xs \<noteq> []" and "\<forall>x \<in> set xs. c \<notin> set x"
  shows "split_on c (join [c] xs) = xs"
  using assms
proof (induction xs)
  case (Cons x xs)
  then show ?case
    by (cases xs) (simp_all add: split_on_no_sep split_on_append_sep)
qed simp

section \<open>path/filepath\<close>

text \<open>\<open>filepath.Clean\<close> and \<open>filepath.Join\<close>: empty and \<open>.\<close> components go, \<open>..\<close> takes the one before it.\<close>

fun clean_comps :: "bool \<Rightarrow> string list \<Rightarrow> string list \<Rightarrow> string list" where
  "clean_comps rooted st [] = rev st"
| "clean_comps rooted st (c # cs) =
     (if c = '''' \<or> c = ''.'' then clean_comps rooted st cs
      else if c = ''..'' then
        (case st of
           [] \<Rightarrow> clean_comps rooted (if rooted then [] else [c]) cs
         | d # ds \<Rightarrow> if d = ''..'' then clean_comps rooted (c # st) cs else clean_comps rooted ds cs)
      else clean_comps rooted (c # st) cs)"

definition path_clean :: "string \<Rightarrow> string" where
  "path_clean p =
    (let rooted = (p \<noteq> [] \<and> hd p = CHR ''/'');
         out = (if rooted then ''/'' else '''') @ join ''/'' (clean_comps rooted [] (split_on (CHR ''/'') p))
     in if out = '''' then ''.'' else out)"

definition path_join :: "string list \<Rightarrow> string" where
  "path_join ps =
    (let qs = filter (\<lambda>p. p \<noteq> '''') ps in if qs = [] then '''' else path_clean (join ''/'' qs))"

section \<open>slices.SortFunc\<close>

text \<open>
  The insertion sort that \<open>slices.SortFunc\<close> runs on short slices: an element moves left past
  every element that the comparison puts strictly after it.
\<close>

fun insert_cmp :: "('a \<Rightarrow> 'a \<Rightarrow> int) \<Rightarrow> 'a \<Rightarrow> 'a list \<Rightarrow> 'a list" where
  "insert_cmp cmp x [] = [x]"
| "insert_cmp cmp x (y # ys) = (if cmp x y < 0 then x # y # ys else y # insert_cmp cmp x ys)"

definition sort_func :: "('a \<Rightarrow> 'a \<Rightarrow> int) \<Rightarrow> 'a list \<Rightarrow> 'a list" where
  "sort_func cmp xs = foldl (\<lambda>acc x. insert_cmp cmp x acc) [] xs"

lemma mset_insert_cmp [simp]: "mset (insert_cmp cmp x xs) = add_mset x (mset xs)"
  by (induction xs) auto

lemma mset_foldl_insert_cmp:
  "mset (foldl (\<lambda>acc x. insert_cmp cmp x acc) acc xs) = mset acc + mset xs"
  by (induction xs arbitrary: acc) auto

lemma mset_sort_func [simp]: "mset (sort_func cmp xs) = mset xs"
  by (simp add: sort_func_def mset_foldl_insert_cmp)

lemma set_insert_cmp [simp]: "set (insert_cmp cmp x xs) = insert x (set xs)"
  by (induction xs) auto

lemma sorted_insert_cmp:
  assumes "sorted (map key xs)"
    and "\<And>y. y \<in> set xs \<Longrightarrow> (cmp x y < 0) = (key x < (key y :: 'k::linorder))"
  shows "sorted (map key (insert_cmp cmp x xs))"
  using assms by (induction xs) (auto split: if_splits)

lemma sorted_sort_func:
  assumes "\<And>x y. x \<in> set xs \<Longrightarrow> y \<in> set xs \<Longrightarrow> (cmp x y < 0) = (key x < (key y :: 'k::linorder))"
  shows "sorted (map key (sort_func cmp xs))"
proof -
  have "sorted (map key acc) \<Longrightarrow> set acc \<union> set ys \<subseteq> set xs
    \<Longrightarrow> sorted (map key (foldl (\<lambda>acc x. insert_cmp cmp x acc) acc ys))" for acc ys
  proof (induction ys arbitrary: acc)
    case (Cons y ys)
    have "sorted (map key (insert_cmp cmp y acc))"
      using Cons.prems assms by (intro sorted_insert_cmp) auto
    with Cons show ?case by simp
  qed simp
  then show ?thesis by (simp add: sort_func_def)
qed

end
