(* ===== verification/Json.thy ===== *)
theory Json
  imports GoStd "HOL-Library.AList"
begin

text \<open>
  JSON documents as syntax trees: what \<open>encoding/json\<close> does with the program's structs. A
  document that the program writes to a file, a table or a request body is kept as its tree
  (\<open>JsonDoc\<close>); any other text is \<open>Raw\<close>. The printer \<open>json_indent\<close> is \<open>MarshalIndent\<close> with an
  empty prefix and two blanks of indentation, needed because the length of its output is
  bounded by the event code. Decoding follows \<open>Unmarshal\<close>: object keys in order, matched to
  field names without regard to case, unknown keys ignored, \<open>null\<close> leaving the field alone, a
  value of the wrong type failing the call in the end. Bytes above 0x7F are printed as they are.
\<close>

datatype json =
    JNull
  | JBool bool
  | JNum string
  | JStr string
  | JArr "json list"
  | JObj "(string \<times> json) list"

datatype content = JsonDoc json | Raw string

definition jint :: "int \<Rightarrow> json" where
  "jint n = JNum (itoa n)"

text \<open>A \<open>[]string\<close> that is nil prints as \<open>null\<close>, an empty one as \<open>[]\<close>.\<close>

definition jstrs :: "string list \<Rightarrow> json" where
  "jstrs xs = JArr (map JStr xs)"

definition jstrs_nil :: "string list \<Rightarrow> json" where
  "jstrs_nil xs = (if xs = [] then JNull else jstrs xs)"

text \<open>A field with \<open>omitempty\<close>.\<close>

definition omit_if :: "bool \<Rightarrow> string \<Rightarrow> json \<Rightarrow> (string \<times> json) list" where
  "omit_if b k v = (if b then [] else [(k, v)])"

section \<open>Printing\<close>

definition hex_digit :: "nat \<Rightarrow> char" where
  "hex_digit n = ''0123456789abcdef'' ! n"

definition json_char :: "char \<Rightarrow> string" where
  "json_char c =
    (if c = CHR 0x22 then [CHR 0x5C, CHR 0x22]
     else if c = CHR 0x5C then [CHR 0x5C, CHR 0x5C]
     else if c = CHR 0x08 then [CHR 0x5C, CHR ''b'']
     else if c = CHR 0x0C then [CHR 0x5C, CHR ''f'']
     else if c = CHR 0x0A then [CHR 0x5C, CHR ''n'']
     else if c = CHR 0x0D then [CHR 0x5C, CHR ''r'']
     else if c = CHR 0x09 then [CHR 0x5C, CHR ''t'']
     else if of_char c < (32::nat) \<or> c \<in> set ''<>&'' then
       CHR 0x5C # ''u00'' @ [hex_digit (of_char c div 16), hex_digit (of_char c mod 16)]
     else [c])"

definition json_quote :: "string \<Rightarrow> string" where
  "json_quote s = CHR 0x22 # concat (map json_char s) @ [CHR 0x22]"

definition newline_indent :: "nat \<Rightarrow> string" where
  "newline_indent d = CHR 0x0A # replicate (2 * d) (CHR '' '')"

function json_indent :: "nat \<Rightarrow> json \<Rightarrow> string" where
  "json_indent d JNull = ''null''"
| "json_indent d (JBool b) = (if b then ''true'' else ''false'')"
| "json_indent d (JNum t) = t"
| "json_indent d (JStr s) = json_quote s"
| "json_indent d (JArr xs) =
     (if xs = [] then ''[]''
      else ''['' @ newline_indent (Suc d)
           @ join ('','' @ newline_indent (Suc d)) (map (json_indent (Suc d)) xs)
           @ newline_indent d @ '']'')"
| "json_indent d (JObj kvs) =
     (if kvs = [] then ''{}''
      else ''{'' @ newline_indent (Suc d)
           @ join ('','' @ newline_indent (Suc d))
               (map (\<lambda>kv. json_quote (fst kv) @ '': '' @ json_indent (Suc d) (snd kv)) kvs)
           @ newline_indent d @ ''}'')"
  by pat_completeness auto
termination
proof (relation "measure (\<lambda>(d, j). size j)", goal_cases)
  case 1
  show ?case by simp
next
  case (2 d xs x)
  from 2(2) have "size x \<le> size_list size xs" by (rule size_list_estimation') simp
  then show ?case by simp
next
  case (3 d kvs kv)
  from 3(2) have "size_prod (\<lambda>_. 0) size kv \<le> size_list (size_prod (\<lambda>_. 0) size) kvs"
    by (rule size_list_estimation') simp
  moreover have "size (snd kv) \<le> size_prod (\<lambda>_. 0) size kv" by (cases kv) simp
  ultimately show ?case by simp
qed

text \<open>\<open>json.Marshal\<close>, without blanks.\<close>

function json_compact :: "json \<Rightarrow> string" where
  "json_compact JNull = ''null''"
| "json_compact (JBool b) = (if b then ''true'' else ''false'')"
| "json_compact (JNum t) = t"
| "json_compact (JStr s) = json_quote s"
| "json_compact (JArr xs) = ''['' @ join '','' (map json_compact xs) @ '']''"
| "json_compact (JObj kvs) =
     ''{'' @ join '','' (map (\<lambda>kv. json_quote (fst kv) @ '':'' @ json_compact (snd kv)) kvs) @ ''}''"
  by pat_completeness auto
termination
proof (relation "measure size", goal_cases)
  case 1
  show ?case by simp
next
  case (2 xs x)
  then have "size x \<le> size_list size xs" by (rule size_list_estimation') simp
  then show ?case by simp
next
  case (3 kvs kv)
  then have "size_prod (\<lambda>_. 0) size kv \<le> size_list (size_prod (\<lambda>_. 0) size) kvs"
    by (rule size_list_estimation') simp
  moreover have "size (snd kv) \<le> size_prod (\<lambda>_. 0) size kv" by (cases kv) simp
  ultimately show ?case by simp
qed

section \<open>Decoding\<close>

definition lower_char :: "char \<Rightarrow> char" where
  "lower_char c =
    (let n = of_char c :: nat in if 65 \<le> n \<and> n \<le> 90 then char_of (n + 32) else c)"

definition key_is :: "string \<Rightarrow> string \<Rightarrow> bool" where
  "key_is name k \<longleftrightarrow> k = name \<or> map lower_char k = map lower_char name"

text \<open>
  A decoder takes the document and the old value and returns the new value with a flag: a value of
  the wrong type leaves the old one, decoding goes on, and the call fails in the end.
\<close>

fun dec_str :: "json \<Rightarrow> string \<Rightarrow> string \<times> bool" where
  "dec_str (JStr s) old = (s, True)"
| "dec_str JNull old = (old, True)"
| "dec_str _ old = (old, False)"

fun dec_int :: "json \<Rightarrow> int \<Rightarrow> int \<times> bool" where
  "dec_int (JNum t) old = (case atoi t of (n, None) \<Rightarrow> (n, True) | (n, Some _) \<Rightarrow> (old, False))"
| "dec_int JNull old = (old, True)"
| "dec_int _ old = (old, False)"

fun dec_bool_ptr :: "json \<Rightarrow> bool option \<Rightarrow> bool option \<times> bool" where
  "dec_bool_ptr (JBool b) old = (Some b, True)"
| "dec_bool_ptr JNull old = (None, True)"
| "dec_bool_ptr _ old = (old, False)"

text \<open>A slice: every element decoded from its zero value. A struct: one key after the other.\<close>

fun dec_elems :: "(json \<Rightarrow> 'a \<Rightarrow> 'a \<times> bool) \<Rightarrow> 'a \<Rightarrow> json list \<Rightarrow> 'a list \<times> bool" where
  "dec_elems dec zero [] = ([], True)"
| "dec_elems dec zero (x # xs) =
     (let (v, ok) = dec x zero; (vs, oks) = dec_elems dec zero xs in (v # vs, ok \<and> oks))"

fun dec_slice :: "(json \<Rightarrow> 'a \<Rightarrow> 'a \<times> bool) \<Rightarrow> 'a \<Rightarrow> json \<Rightarrow> 'a list \<Rightarrow> 'a list \<times> bool" where
  "dec_slice dec zero (JArr xs) old = dec_elems dec zero xs"
| "dec_slice dec zero JNull old = ([], True)"
| "dec_slice dec zero _ old = (old, False)"

fun dec_fields :: "(string \<Rightarrow> json \<Rightarrow> 's \<Rightarrow> 's \<times> bool) \<Rightarrow> (string \<times> json) list \<Rightarrow> 's \<Rightarrow> 's \<times> bool" where
  "dec_fields set_field [] s = (s, True)"
| "dec_fields set_field ((k, v) # kvs) s =
     (let (s', ok) = set_field k v s; (s'', oks) = dec_fields set_field kvs s' in (s'', ok \<and> oks))"

fun dec_struct :: "(string \<Rightarrow> json \<Rightarrow> 's \<Rightarrow> 's \<times> bool) \<Rightarrow> json \<Rightarrow> 's \<Rightarrow> 's \<times> bool" where
  "dec_struct set_field (JObj kvs) s = dec_fields set_field kvs s"
| "dec_struct set_field JNull s = (s, True)"
| "dec_struct set_field _ s = (s, False)"

text \<open>A map with string keys is an association list without repeated keys.\<close>

fun dec_map_fields ::
  "(json \<Rightarrow> 'a \<Rightarrow> 'a \<times> bool) \<Rightarrow> 'a \<Rightarrow> (string \<times> json) list \<Rightarrow> (string \<times> 'a) list
   \<Rightarrow> (string \<times> 'a) list \<times> bool" where
  "dec_map_fields dec zero [] m = (m, True)"
| "dec_map_fields dec zero ((k, v) # kvs) m =
     (let (a, ok) = dec v zero; (m', oks) = dec_map_fields dec zero kvs (AList.update k a m)
      in (m', ok \<and> oks))"

fun dec_map ::
  "(json \<Rightarrow> 'a \<Rightarrow> 'a \<times> bool) \<Rightarrow> 'a \<Rightarrow> json \<Rightarrow> (string \<times> 'a) list \<Rightarrow> (string \<times> 'a) list \<times> bool" where
  "dec_map dec zero (JObj kvs) m = dec_map_fields dec zero kvs m"
| "dec_map dec zero JNull m = ([], True)"
| "dec_map dec zero _ m = (m, False)"

text \<open>Setting one field with a decoder.\<close>

definition put :: "('a \<Rightarrow> 's) \<Rightarrow> 'a \<times> bool \<Rightarrow> 's \<times> bool" where
  "put f r = (f (fst r), snd r)"

lemma dec_int_jint [simp]: "int_min \<le> n \<Longrightarrow> n \<le> int_max \<Longrightarrow> dec_int (jint n) old = (n, True)"
  by (simp add: jint_def atoi_itoa)

lemma dec_elems_strs [simp]: "dec_elems dec_str z (map JStr xs) = (xs, True)"
  by (induction xs) auto

lemma dec_map_fields_distinct:
  "distinct (map fst m) \<Longrightarrow> distinct (map fst (fst (dec_map_fields dec zero kvs m)))"
  by (induction dec zero kvs m rule: dec_map_fields.induct)
    (auto simp: distinct_update split: prod.splits)

lemma dec_map_distinct:
  "distinct (map fst m) \<Longrightarrow> distinct (map fst (fst (dec_map dec zero j m)))"
  by (cases j) (auto simp: dec_map_fields_distinct)

end
