(* ===== verification/External.thy ===== *)
theory External
  imports Json
begin

text \<open>
  The boundary of the model. \<open>'w\<close> is the state of everything outside the program: the update
  store and the container engine behind the composeapp library, the device gateway, the
  network and the clock. The record \<open>env\<close> holds, as functions of that state, the calls the
  program makes there; no definition of the development fixes what they return. Queries leave
  \<open>'w\<close> alone, calls with an effect return a new one. File and SQL calls have an outcome chosen
  by \<open>env\<close> (success or an error), while the contents of the files and of the two tables are
  part of the modelled \<open>host\<close>, because the program's own statements define them. The field
  \<open>reqs\<close> of the host is the sequence of HTTP requests the program has made.
\<close>

section \<open>Values of the composeapp library\<close>

datatype upd_state =
    StateCreated | StateInitializing | StateInitialized | StateFetching | StateFetched
  | StateInstalling | StateInstalled | StateStarting | StateStarted | StateCompleting
  | StateCompleted | StateCanceled | StateFailed

text \<open>Times are opaque numbers, 0 for Go's zero time.\<close>

type_synonym time = int

record blob_info =
  b_StoreSize :: "64 word"
  b_RuntimeSize :: "64 word"
  b_BytesFetched :: "64 word"

record update_rec =
  u_ID :: string
  u_ClientRef :: string
  u_URIs :: "string list option"
  u_State :: upd_state
  u_InitTime :: time
  u_FetchTime :: time
  u_CreationTime :: time
  u_UpdateTime :: time
  u_Blobs :: "blob_info list"
  u_TotalBlobsBytes :: int
  u_FetchedBytes :: int
  u_FetchedBlobs :: int
  u_Progress :: int

record app_ref =
  r_Name :: string
  r_String :: string

record service_status =
  s_Name :: string
  s_Hash :: string
  s_State :: string
  s_Status :: string
  s_Health :: string
  s_Image :: string

record app_info =
  ai_Name :: string
  ai_Ref :: string
  ai_Digest :: string

record apps_status =
  as_Apps :: "app_info list"
  as_AreFetched :: bool
  as_AreInstalled :: bool
  as_AreRunning :: bool
  as_Running :: "string \<Rightarrow> service_status list option"

record usage_info =
  ui_Size :: "64 word"
  ui_Free :: "64 word"
  ui_Reserved :: "64 word"
  ui_Available :: "64 word"

datatype prune_type = PruneTypeOnlyAppImages | PruneTypeAllUnusedImages

datatype check_opt = WithQuickCheckFetch bool | WithCheckInstallation bool | WithCheckRunning bool

datatype complete_opt = CompleteWithPruning prune_type | CompleteWithForce

section \<open>HTTP\<close>

datatype http_method = GET | POST | PUT

record http_req =
  q_method :: http_method
  q_path :: string
  q_headers :: "string \<Rightarrow> string option"
  q_body :: "content option"

record http_res =
  StatusCode :: int
  Body :: content

section \<open>Configuration and URLs\<close>

text \<open>
  The TOML configuration of the fioconfig library by its three lookups, a parsed URL by the parts
  the program looks at, and the composeapp configuration by the fields the program reads.
\<close>

record toml =
  t_Has :: "string \<Rightarrow> bool"
  t_Get :: "string \<Rightarrow> string"
  t_GetDefault :: "string \<Rightarrow> string \<Rightarrow> string"

record url =
  url_Scheme :: string
  url_Host :: string
  url_text :: string

record compose_config =
  cc_StoreRoot :: string
  cc_BlockSize :: "64 word"

section \<open>The environment and the host\<close>

datatype io_op =
    OpReadFile string | OpStat string | OpRemove string
  | OpSqlOpen | OpSqlExec string | OpSqlQuery string | OpSqlScan

text \<open>
  A runner is a handle to an update object. \<open>x_write\<close> is the outcome of \<open>os.WriteFile\<close>: nothing
  on success; on failure the error and, when the file was already truncated or partly written,
  what is left in it.
\<close>

type_synonym runner = nat

record 'w env =
  x_GetCurrentUpdate :: "'w \<Rightarrow> runner result"
  x_NewUpdate :: "string \<Rightarrow> 'w \<Rightarrow> runner result \<times> 'w"
  x_GetLastSuccessfulUpdate :: "'w \<Rightarrow> update_rec result"
  x_GetLastUpdate :: "'w \<Rightarrow> update_rec result"
  x_CountFailedUpdates :: "string \<Rightarrow> 'w \<Rightarrow> int result"
  x_Status :: "runner \<Rightarrow> 'w \<Rightarrow> update_rec"
  x_Init :: "runner \<Rightarrow> string list \<Rightarrow> bool \<Rightarrow> bool \<Rightarrow> 'w \<Rightarrow> goerr option \<times> 'w"
  x_Fetch :: "runner \<Rightarrow> 'w \<Rightarrow> goerr option \<times> 'w"
  x_Install :: "runner \<Rightarrow> 'w \<Rightarrow> goerr option \<times> 'w"
  x_Start :: "runner \<Rightarrow> 'w \<Rightarrow> goerr option \<times> 'w"
  x_Complete :: "runner \<Rightarrow> complete_opt list \<Rightarrow> 'w \<Rightarrow> goerr option \<times> 'w"
  x_Cancel :: "runner \<Rightarrow> 'w \<Rightarrow> goerr option \<times> 'w"
  x_StopApps :: "string list \<Rightarrow> 'w \<Rightarrow> goerr option \<times> 'w"
  x_CheckAppsStatus :: "string list option \<Rightarrow> check_opt list \<Rightarrow> 'w \<Rightarrow> apps_status result"
  x_GetUsageInfo :: "string \<Rightarrow> nat \<Rightarrow> 'w \<Rightarrow> usage_info result"
  x_ParseAppRef :: "string \<Rightarrow> app_ref result"
  x_AlignToBlockSize :: "64 word \<Rightarrow> 64 word \<Rightarrow> 64 word"
  x_FormatBytes :: "64 word \<Rightarrow> string"
  x_StateString :: "upd_state \<Rightarrow> string"
  x_http :: "http_req \<Rightarrow> 'w \<Rightarrow> http_res result \<times> 'w"
  x_io :: "io_op \<Rightarrow> 'w \<Rightarrow> goerr option \<times> 'w"
  x_write :: "string \<Rightarrow> content \<Rightarrow> 'w \<Rightarrow> (goerr \<times> content option) option \<times> 'w"
  x_TufNew :: "'w \<Rightarrow> goerr option"
  x_TufRefresh :: "'w \<Rightarrow> goerr option \<times> 'w"
  x_TufTargets :: "'w \<Rightarrow> (string \<times> json) list"
  x_Stat :: "string \<Rightarrow> 'w \<Rightarrow> (bool \<times> string) result"
  x_NewAppConfig :: "string list \<Rightarrow> 'w \<Rightarrow> toml result"
  x_UrlParse :: "string \<Rightarrow> url result"
  x_UrlParseRequestURI :: "string \<Rightarrow> url result"
  x_UrlJoin :: "string \<Rightarrow> string \<Rightarrow> string"
  x_NewComposeConfig :: "string \<Rightarrow> string \<Rightarrow> string \<Rightarrow> bool \<Rightarrow> 'w \<Rightarrow> compose_config result"
  x_CertsFromPEM :: "content \<Rightarrow> bool"
  x_CreateClient :: "toml \<Rightarrow> 'w \<Rightarrow> goerr option"
  x_CombinedToml :: "toml \<Rightarrow> 'w \<Rightarrow> string result"
  x_Hostname :: "'w \<Rightarrow> string result"
  x_Route :: "'w \<Rightarrow> string result"
  x_Iface :: "string \<Rightarrow> 'w \<Rightarrow> (string list result \<times> string) result"
  x_Lshw :: "'w \<Rightarrow> content result"
  x_now :: "'w \<Rightarrow> string"
  x_uuid :: "'w \<Rightarrow> string \<times> 'w"
  x_ulid :: "'w \<Rightarrow> string result \<times> 'w"
  x_getenv :: "string \<Rightarrow> 'w \<Rightarrow> string"
  x_map_order :: "string list \<Rightarrow> 'w \<Rightarrow> string list"
  x_select_order :: "int list \<Rightarrow> 'w \<Rightarrow> int list"

text \<open>
  Rows of the table \<open>installed_versions\<close>; the columns that the program always fills with the same
  constants (\<open>ecu_serial\<close>, \<open>sha256\<close>, \<open>hashes\<close>, \<open>length\<close>) are left out.
\<close>

record installed_version =
  iv_id :: int
  iv_name :: string
  iv_custom_meta :: content
  iv_correlation_id :: string
  iv_is_current :: bool
  iv_is_pending :: bool
  iv_was_installed :: bool

text \<open>\<open>report_events\<close> and \<open>installed_versions\<close> are \<open>None\<close> until their table is created.\<close>

record 'w host =
  ext :: 'w
  fs :: "string \<Rightarrow> content option"
  report_events :: "(int \<times> content) list option"
  installed_versions :: "installed_version list option"
  reqs :: "http_req list"

text \<open>
  Go leaves the order in which a map is ranged over unspecified: \<open>x_map_order\<close> picks it. That it
  is an order of exactly the map's keys is the hypothesis \<open>map_order_ok\<close>.
\<close>

definition map_order_ok :: "'w env \<Rightarrow> bool" where
  "map_order_ok E \<longleftrightarrow> (\<forall>ks w. mset (x_map_order E ks w) = mset ks)"

definition range_map :: "'w env \<Rightarrow> 'w \<Rightarrow> (string \<times> 'a) list \<Rightarrow> (string \<times> 'a) list" where
  "range_map E w m =
     List.map_filter (\<lambda>k. map_option (Pair k) (map_of m k)) (x_map_order E (map fst m) w)"

text \<open>The database file is there once one of its tables is.\<close>

definition db_present :: "'w host \<Rightarrow> bool" where
  "db_present h \<longleftrightarrow> report_events h \<noteq> None \<or> installed_versions h \<noteq> None"

definition io :: "'w env \<Rightarrow> io_op \<Rightarrow> 'w host \<Rightarrow> goerr option \<times> 'w host" where
  "io E op h = (let (e, w) = x_io E op (ext h) in (e, h\<lparr>ext := w\<rparr>))"

definition read_file :: "'w env \<Rightarrow> string \<Rightarrow> 'w host \<Rightarrow> content result \<times> 'w host" where
  "read_file E p h =
    (let (e, h) = io E (OpReadFile p) h
     in case e of
          Some err \<Rightarrow> (Inl err, h)
        | None \<Rightarrow> (case fs h p of
            None \<Rightarrow> (Inl (Wrapped (''open '' @ p @ '': no such file or directory'') [Sentinel ErrNotExist]), h)
          | Some c \<Rightarrow> (Inr c, h)))"

definition write_file :: "'w env \<Rightarrow> string \<Rightarrow> content \<Rightarrow> 'w host \<Rightarrow> goerr option \<times> 'w host" where
  "write_file E p c h =
    (case x_write E p c (ext h) of
       (None, w) \<Rightarrow> (None, h\<lparr>ext := w, fs := (fs h)(p \<mapsto> c)\<rparr>)
     | (Some (err, None), w) \<Rightarrow> (Some err, h\<lparr>ext := w\<rparr>)
     | (Some (err, Some c'), w) \<Rightarrow> (Some err, h\<lparr>ext := w, fs := (fs h)(p \<mapsto> c')\<rparr>))"

definition remove_file :: "'w env \<Rightarrow> string \<Rightarrow> 'w host \<Rightarrow> goerr option \<times> 'w host" where
  "remove_file E p h =
    (let (e, h) = io E (OpRemove p) h
     in case e of
          Some err \<Rightarrow> (Some err, h)
        | None \<Rightarrow> (case fs h p of
            None \<Rightarrow> (Some (Wrapped (''remove '' @ p @ '': no such file or directory'') [Sentinel ErrNotExist]), h)
          | Some c \<Rightarrow> (None, h\<lparr>fs := (fs h)(p := None)\<rparr>)))"

definition http :: "'w env \<Rightarrow> http_req \<Rightarrow> 'w host \<Rightarrow> http_res result \<times> 'w host" where
  "http E q h =
    (let (r, w) = x_http E q (ext h) in (r, h\<lparr>ext := w, reqs := reqs h @ [q]\<rparr>))"

section \<open>What the basic calls leave alone\<close>

lemma io_frame [host_frame]:
  "io E op h = (e, h') \<Longrightarrow> fs h' = fs h \<and> report_events h' = report_events h
     \<and> installed_versions h' = installed_versions h \<and> reqs h' = reqs h"
  by (auto simp: io_def split: prod.splits)

lemma read_file_frame [host_frame]:
  "read_file E p h = (r, h') \<Longrightarrow> fs h' = fs h \<and> report_events h' = report_events h
     \<and> installed_versions h' = installed_versions h \<and> reqs h' = reqs h"
  by (auto simp: read_file_def split: prod.splits option.splits dest: io_frame)

lemma read_file_Inr: "read_file E p h = (Inr c, h') \<Longrightarrow> fs h p = Some c"
  by (auto simp: read_file_def split: prod.splits option.splits dest: io_frame)

lemma write_file_frame [host_frame]:
  "write_file E p c h = (e, h') \<Longrightarrow> report_events h' = report_events h
     \<and> installed_versions h' = installed_versions h \<and> reqs h' = reqs h"
  by (auto simp: write_file_def split: prod.splits option.splits)

lemma write_file_ok: "write_file E p c h = (None, h') \<Longrightarrow> fs h' = (fs h)(p \<mapsto> c)"
  by (auto simp: write_file_def split: prod.splits option.splits)

lemma write_file_other: "write_file E p c h = (e, h') \<Longrightarrow> q \<noteq> p \<Longrightarrow> fs h' q = fs h q"
  by (auto simp: write_file_def split: prod.splits option.splits)

lemma http_frame [host_frame]:
  "http E q h = (r, h') \<Longrightarrow> fs h' = fs h \<and> report_events h' = report_events h
     \<and> installed_versions h' = installed_versions h \<and> reqs h' = reqs h @ [q]"
  by (auto simp: http_def split: prod.splits)

lemma map_order_okD: "map_order_ok E \<Longrightarrow> mset (x_map_order E ks w) = mset ks"
  by (simp add: map_order_ok_def)

lemma mset_map_filter_perm:
  "mset xs = mset ys \<Longrightarrow> mset (List.map_filter f xs) = mset (List.map_filter f ys)"
  by (simp add: List.map_filter_def)

lemma map_filter_keys:
  assumes "distinct (map fst m)"
  shows "List.map_filter (\<lambda>k. map_option (Pair k) (map_of m k)) (map fst m) = m"
proof -
  have "List.map_filter (\<lambda>k. map_option (Pair k) (map_of m k)) (map fst n) = n"
    if "set n \<subseteq> set m" for n
    using that
  proof (induction n)
    case (Cons kv n)
    then have "map_of m (fst kv) = Some (snd kv)"
      using assms by (cases kv) auto
    with Cons show ?case by (simp add: List.map_filter_simps)
  qed (simp add: List.map_filter_simps)
  then show ?thesis by simp
qed

text \<open>Whatever the order, ranging over a map visits each of its entries once.\<close>

lemma mset_range_map:
  assumes "map_order_ok E" and "distinct (map fst m)"
  shows "mset (range_map E w m) = mset m"
proof -
  have "mset (range_map E w m) =
      mset (List.map_filter (\<lambda>k. map_option (Pair k) (map_of m k)) (map fst m))"
    unfolding range_map_def using assms(1) by (intro mset_map_filter_perm) (rule map_order_okD)
  with map_filter_keys [OF assms(2)] show ?thesis by simp
qed

lemma set_range_map:
  "map_order_ok E \<Longrightarrow> distinct (map fst m) \<Longrightarrow> set (range_map E w m) = set m"
  by (metis mset_range_map set_mset_mset)

end
