(* ===== verification/Target.thy ===== *)
theory Target
  imports External
begin

text \<open>
  \<open>pkg/target/target.go\<close>: apps, targets and lists of targets; shortlisting by name and by URI;
  the difference of two targets; the choice of a target by version, by identifier or as the
  latest one.
\<close>

section \<open>Data\<close>

record app =
  aName :: string
  aURI :: string

record target =
  tID :: string
  tVersion :: int
  tApps :: "app list"

type_synonym targets = "target list"

definition UnknownTarget :: target where
  "UnknownTarget = \<lparr>tID = ''unknown'', tVersion = -1, tApps = []\<rparr>"

definition Equals :: "target \<Rightarrow> target \<Rightarrow> bool" where
  "Equals t other =
    (if tID t \<noteq> tID other \<or> tVersion t \<noteq> tVersion other \<or> length (tApps t) \<noteq> length (tApps other)
     then False
     else list_all (\<lambda>a. list_ex (\<lambda>b. aName b = aName a \<and> aURI b = aURI a) (tApps other)) (tApps t))"

definition IsUnknown :: "target \<Rightarrow> bool" where
  "IsUnknown t \<longleftrightarrow> tID t = tID UnknownTarget \<and> tVersion t = tVersion UnknownTarget"

definition NoApps :: "target \<Rightarrow> bool" where
  "NoApps t \<longleftrightarrow> length (tApps t) = 0"

text \<open>A shortlist is \<open>None\<close> when the Go slice is nil.\<close>

definition ShortlistApps :: "string list option \<Rightarrow> target \<Rightarrow> target" where
  "ShortlistApps shortlist t =
    (case shortlist of
       None \<Rightarrow> t
     | Some names \<Rightarrow> t\<lparr>tApps := filter (\<lambda>a. list_ex (\<lambda>n. aName a = n) names) (tApps t)\<rparr>)"

definition ShortlistAppsByURI :: "string list option \<Rightarrow> target \<Rightarrow> target" where
  "ShortlistAppsByURI shortlist t =
    (case shortlist of
       None \<Rightarrow> t\<lparr>tApps := []\<rparr>
     | Some uris \<Rightarrow> t\<lparr>tApps := filter (\<lambda>a. list_ex (\<lambda>u. aURI a = u) uris) (tApps t)\<rparr>)"

definition AppNames :: "target \<Rightarrow> string list" where
  "AppNames t = map aName (tApps t)"

definition Names :: "app list \<Rightarrow> string list" where
  "Names as = map aName as"

definition URIs :: "app list \<Rightarrow> string list" where
  "URIs as = map aURI as"

definition AppURIs :: "target \<Rightarrow> string list" where
  "AppURIs t = map aURI (tApps t)"

section \<open>The difference of two targets\<close>

record app_diff =
  dAdd :: "app list"
  dRemove :: "app list"
  dSync :: "app list"
  dUpdate :: "app list"
  dUpdateTo :: "app list"

definition empty_diff :: app_diff where
  "empty_diff = \<lparr>dAdd = [], dRemove = [], dSync = [], dUpdate = [], dUpdateTo = []\<rparr>"

fun diff_loop :: "(string \<times> app) list \<Rightarrow> app list \<Rightarrow> app_diff \<Rightarrow> (string \<times> app) list \<times> app_diff" where
  "diff_loop m [] d = (m, d)"
| "diff_loop m (a # as) d =
     (case map_of m (aName a) of
        None \<Rightarrow> diff_loop m as (d\<lparr>dAdd := dAdd d @ [a]\<rparr>)
      | Some b \<Rightarrow>
          diff_loop (AList.delete (aName a) m) as
            (if aURI a \<noteq> aURI b
             then d\<lparr>dUpdate := dUpdate d @ [b], dUpdateTo := dUpdateTo d @ [a]\<rparr>
             else d\<lparr>dSync := dSync d @ [a]\<rparr>))"

definition app_map :: "app list \<Rightarrow> (string \<times> app) list" where
  "app_map as = foldl (\<lambda>m a. AList.update (aName a) a m) [] as"

definition Diff :: "'w env \<Rightarrow> 'w \<Rightarrow> target \<Rightarrow> target \<Rightarrow> app_diff" where
  "Diff E w t other =
    (let (m, d) = diff_loop (app_map (tApps t)) (tApps other) empty_diff
     in d\<lparr>dRemove := map snd (range_map E w m)\<rparr>)"

section \<open>Choosing a target\<close>

definition version_limit :: "string \<Rightarrow> int" where
  "version_limit s = (if s \<noteq> '''' then fst (atoi s) else 0)"

definition latest_step :: "int \<Rightarrow> target \<Rightarrow> target \<Rightarrow> target" where
  "latest_step limit latest t =
    (if tVersion t > tVersion latest \<and> (limit \<le> 0 \<or> tVersion t \<le> limit) then t else latest)"

definition GetLatestTarget :: "'w env \<Rightarrow> 'w \<Rightarrow> targets \<Rightarrow> target" where
  "GetLatestTarget E w ts =
    foldl (latest_step (version_limit (x_getenv E ''FIOUP_VERSION_UPPER_LIMIT'' w))) UnknownTarget ts"

definition GetTargetByVersion :: "targets \<Rightarrow> int \<Rightarrow> target" where
  "GetTargetByVersion ts version =
    (case find (\<lambda>t. tVersion t = version) ts of Some t \<Rightarrow> t | None \<Rightarrow> UnknownTarget)"

definition GetTargetByID :: "targets \<Rightarrow> string \<Rightarrow> target" where
  "GetTargetByID ts i = (case find (\<lambda>t. tID t = i) ts of Some t \<Rightarrow> t | None \<Rightarrow> UnknownTarget)"

definition GetSortedList :: "targets \<Rightarrow> targets" where
  "GetSortedList ts = sort_func (\<lambda>a b. wrap64 (tVersion a - tVersion b)) ts"

section \<open>Well-formed targets\<close>

text \<open>Targets come from maps keyed by app name, so their names are distinct.\<close>

definition wf_target :: "target \<Rightarrow> bool" where
  "wf_target t \<longleftrightarrow> distinct (map aName (tApps t))"

lemma wf_UnknownTarget [simp]: "wf_target UnknownTarget"
  by (simp add: wf_target_def UnknownTarget_def)

lemma wf_ShortlistApps [simp]: "wf_target t \<Longrightarrow> wf_target (ShortlistApps s t)"
  by (auto simp: wf_target_def ShortlistApps_def distinct_map_filter split: option.splits)

lemma wf_ShortlistAppsByURI [simp]: "wf_target t \<Longrightarrow> wf_target (ShortlistAppsByURI s t)"
  by (auto simp: wf_target_def ShortlistAppsByURI_def distinct_map_filter split: option.splits)

lemma ShortlistApps_sel [simp]:
  "tID (ShortlistApps s t) = tID t" "tVersion (ShortlistApps s t) = tVersion t"
  by (auto simp: ShortlistApps_def split: option.splits)

lemma ShortlistAppsByURI_sel [simp]:
  "tID (ShortlistAppsByURI s t) = tID t" "tVersion (ShortlistAppsByURI s t) = tVersion t"
  by (auto simp: ShortlistAppsByURI_def split: option.splits)

lemma GetTargetByVersion_cases:
  obtains "GetTargetByVersion ts v = UnknownTarget" "\<forall>t \<in> set ts. tVersion t \<noteq> v"
  | t where "t \<in> set ts" "tVersion t = v" "GetTargetByVersion ts v = t"
proof (cases "find (\<lambda>t. tVersion t = v) ts")
  case None
  then have "GetTargetByVersion ts v = UnknownTarget" by (simp add: GetTargetByVersion_def)
  with None show thesis using that(1) by (auto simp: find_None_all)
next
  case (Some t)
  then show thesis using that(2) [of t] by (auto simp: GetTargetByVersion_def dest: find_Some_set)
qed

lemma GetTargetByID_cases:
  obtains "GetTargetByID ts i = UnknownTarget" "\<forall>t \<in> set ts. tID t \<noteq> i"
  | t where "t \<in> set ts" "tID t = i" "GetTargetByID ts i = t"
proof (cases "find (\<lambda>t. tID t = i) ts")
  case None
  then have "GetTargetByID ts i = UnknownTarget" by (simp add: GetTargetByID_def)
  with None show thesis using that(1) by (auto simp: find_None_all)
next
  case (Some t)
  then show thesis using that(2) [of t] by (auto simp: GetTargetByID_def dest: find_Some_set)
qed

lemma wf_GetTargetByVersion [intro]: "\<forall>t \<in> set ts. wf_target t \<Longrightarrow> wf_target (GetTargetByVersion ts v)"
  by (cases rule: GetTargetByVersion_cases [of ts v]) auto

lemma wf_GetTargetByID [intro]: "\<forall>t \<in> set ts. wf_target t \<Longrightarrow> wf_target (GetTargetByID ts i)"
  by (cases rule: GetTargetByID_cases [of ts i]) auto

lemma foldl_latest_mem: "foldl (latest_step l) u ts \<in> insert u (set ts)"
proof (induction ts arbitrary: u)
  case (Cons t ts)
  from Cons [of "latest_step l u t"] show ?case
    by (auto simp: latest_step_def split: if_splits)
qed simp

lemma wf_GetLatestTarget [intro]: "\<forall>t \<in> set ts. wf_target t \<Longrightarrow> wf_target (GetLatestTarget E w ts)"
  using foldl_latest_mem [of "version_limit (x_getenv E ''FIOUP_VERSION_UPPER_LIMIT'' w)" UnknownTarget ts]
  by (auto simp: GetLatestTarget_def)

section \<open>Lemmas on the difference\<close>

lemma app_map_keys: "distinct (map fst (app_map as))"
proof -
  have "distinct (map fst m) \<Longrightarrow> distinct (map fst (foldl (\<lambda>m a. AList.update (aName a) a m) m as))" for m
    by (induction as arbitrary: m) (auto simp: distinct_update)
  then show ?thesis by (simp add: app_map_def)
qed

lemma update_fresh: "k \<notin> fst ` set m \<Longrightarrow> AList.update k v m = m @ [(k, v)]"
  by (induction m) auto

lemma app_map_distinct:
  assumes "distinct (map aName as)"
  shows "app_map as = map (\<lambda>a. (aName a, a)) as"
proof -
  have "distinct (map aName as) \<Longrightarrow> fst ` set m \<inter> aName ` set as = {} \<Longrightarrow>
    foldl (\<lambda>m a. AList.update (aName a) a m) m as = m @ map (\<lambda>a. (aName a, a)) as" for m
  proof (induction as arbitrary: m)
    case (Cons a as)
    then have "AList.update (aName a) a m = m @ [(aName a, a)]" by (auto intro: update_fresh)
    with Cons show ?case by auto
  qed simp
  with assms show ?thesis by (simp add: app_map_def)
qed

text \<open>The loop, in closed form, for distinct names.\<close>

definition in_sync :: "(string \<times> app) list \<Rightarrow> app \<Rightarrow> bool" where
  "in_sync m a \<longleftrightarrow> (case map_of m (aName a) of None \<Rightarrow> False | Some b \<Rightarrow> aURI b = aURI a)"

definition is_changed :: "(string \<times> app) list \<Rightarrow> app \<Rightarrow> bool" where
  "is_changed m a \<longleftrightarrow> (case map_of m (aName a) of None \<Rightarrow> False | Some b \<Rightarrow> aURI b \<noteq> aURI a)"

definition is_new :: "(string \<times> app) list \<Rightarrow> app \<Rightarrow> bool" where
  "is_new m a \<longleftrightarrow> map_of m (aName a) = None"

lemmas diff_class_defs = in_sync_def is_changed_def is_new_def

lemma delete_filter: "AList.delete k m = filter (\<lambda>kv. fst kv \<noteq> k) m"
  by (induction m) auto

lemma diff_class_delete:
  assumes "aName a \<noteq> k"
  shows "in_sync (AList.delete k m) a = in_sync m a"
    and "is_changed (AList.delete k m) a = is_changed m a"
    and "is_new (AList.delete k m) a = is_new m a"
    and "map_of (AList.delete k m) (aName a) = map_of m (aName a)"
  using assms by (simp_all add: diff_class_defs delete_conv)

lemma filter_class_delete:
  assumes "k \<notin> aName ` set as"
  shows "filter (in_sync (AList.delete k m)) as = filter (in_sync m) as"
    and "filter (is_changed (AList.delete k m)) as = filter (is_changed m) as"
    and "filter (is_new (AList.delete k m)) as = filter (is_new m) as"
    and "map (\<lambda>a. the (map_of (AList.delete k m) (aName a))) (filter (is_changed m) as)
       = map (\<lambda>a. the (map_of m (aName a))) (filter (is_changed m) as)"
proof -
  have ne: "a \<in> set as \<Longrightarrow> aName a \<noteq> k" for a using assms by auto
  show "filter (in_sync (AList.delete k m)) as = filter (in_sync m) as"
    by (rule filter_cong) (auto simp: diff_class_delete ne)
  show "filter (is_changed (AList.delete k m)) as = filter (is_changed m) as"
    by (rule filter_cong) (auto simp: diff_class_delete ne)
  show "filter (is_new (AList.delete k m)) as = filter (is_new m) as"
    by (rule filter_cong) (auto simp: diff_class_delete ne)
  show "map (\<lambda>a. the (map_of (AList.delete k m) (aName a))) (filter (is_changed m) as)
      = map (\<lambda>a. the (map_of m (aName a))) (filter (is_changed m) as)"
    by (rule map_cong) (auto simp: diff_class_delete ne)
qed

lemma diff_loop_closed:
  "distinct (map aName as) \<Longrightarrow>
   diff_loop m as d =
     (filter (\<lambda>kv. fst kv \<notin> aName ` set as) m,
      d\<lparr>dAdd := dAdd d @ filter (is_new m) as,
        dSync := dSync d @ filter (in_sync m) as,
        dUpdate := dUpdate d @ map (\<lambda>a. the (map_of m (aName a))) (filter (is_changed m) as),
        dUpdateTo := dUpdateTo d @ filter (is_changed m) as\<rparr>)"
proof (induction as arbitrary: m d)
  case Nil
  then show ?case by simp
next
  case (Cons a as)
  then have fresh: "aName a \<notin> aName ` set as" and IH: "distinct (map aName as)" by auto
  show ?case
  proof (cases "map_of m (aName a)")
    case None
    then have "filter (\<lambda>kv. fst kv \<notin> aName ` set as) m
        = filter (\<lambda>kv. fst kv \<noteq> aName a \<and> fst kv \<notin> aName ` set as) m"
      by (intro filter_cong) (auto simp: map_of_eq_None_iff image_iff)
    with None Cons.IH [OF IH] show ?thesis by (simp add: diff_class_defs)
  next
    case (Some b)
    have keys: "filter (\<lambda>kv. fst kv \<notin> aName ` set as) (AList.delete (aName a) m)
        = filter (\<lambda>kv. fst kv \<notin> aName ` set (a # as)) m"
      by (auto simp: delete_filter intro!: filter_cong)
    have cls: "in_sync m a = (aURI b = aURI a)" "is_changed m a = (aURI b \<noteq> aURI a)" "\<not> is_new m a"
      using Some by (simp_all add: diff_class_defs)
    show ?thesis
      by (cases "aURI a = aURI b")
        (simp_all add: Some cls Cons.IH [OF IH] filter_class_delete [OF fresh] keys)
  qed
qed

lemma app_map_of_distinct:
  "distinct (map aName as) \<Longrightarrow> b \<in> set as \<Longrightarrow> map_of (app_map as) (aName b) = Some b"
  using map_of_distinct_key [of aName as b "\<lambda>a. a"] by (simp add: app_map_distinct)

lemma app_map_of_Some:
  "distinct (map aName as) \<Longrightarrow> map_of (app_map as) n = Some b \<Longrightarrow> b \<in> set as \<and> aName b = n"
  by (auto simp: app_map_distinct dest: map_of_SomeD)

lemma app_map_of_None:
  "distinct (map aName as) \<Longrightarrow> map_of (app_map as) n = None \<longleftrightarrow> n \<notin> aName ` set as"
  by (simp add: app_map_distinct map_of_eq_None_iff image_image)

lemma app_class_eqs:
  assumes "distinct (map aName as)"
  shows "in_sync (app_map as) a \<longleftrightarrow> a \<in> set as"
    and "is_new (app_map as) a \<longleftrightarrow> aName a \<notin> aName ` set as"
    and "is_changed (app_map as) a \<longleftrightarrow> (\<exists>b \<in> set as. aName b = aName a \<and> aURI b \<noteq> aURI a)"
proof -
  have eq: "x = y" if "aName x = aName y" "aURI x = aURI y" for x y :: app
    using that by simp
  consider "map_of (app_map as) (aName a) = None" "aName a \<notin> aName ` set as"
    | b where "map_of (app_map as) (aName a) = Some b" "b \<in> set as" "aName b = aName a"
    using app_map_of_Some [OF assms] app_map_of_None [OF assms] by (cases "map_of (app_map as) (aName a)") auto
  then show "in_sync (app_map as) a \<longleftrightarrow> a \<in> set as"
    and "is_new (app_map as) a \<longleftrightarrow> aName a \<notin> aName ` set as"
    and "is_changed (app_map as) a \<longleftrightarrow> (\<exists>b \<in> set as. aName b = aName a \<and> aURI b \<noteq> aURI a)"
  proof (atomize (full), cases)
    case 1
    then show "(in_sync (app_map as) a \<longleftrightarrow> a \<in> set as) \<and> (is_new (app_map as) a \<longleftrightarrow> aName a \<notin> aName ` set as)
      \<and> (is_changed (app_map as) a \<longleftrightarrow> (\<exists>b \<in> set as. aName b = aName a \<and> aURI b \<noteq> aURI a))"
      by (auto simp: diff_class_defs image_iff)
  next
    case (2 b)
    have same: "c = b" if "c \<in> set as" "aName c = aName a" for c
      using app_map_of_distinct [OF assms that(1)] that(2) 2(1) by simp
    have sync: "a \<in> set as \<longleftrightarrow> aURI b = aURI a"
      using same [of a] 2(2) eq [OF 2(3)] by metis
    have changed: "(\<exists>c \<in> set as. aName c = aName a \<and> aURI c \<noteq> aURI a) \<longleftrightarrow> aURI b \<noteq> aURI a"
      using same 2(2,3) by blast
    have "aName a \<in> aName ` set as" using 2(2,3) by (metis image_eqI)
    then show "(in_sync (app_map as) a \<longleftrightarrow> a \<in> set as) \<and> (is_new (app_map as) a \<longleftrightarrow> aName a \<notin> aName ` set as)
      \<and> (is_changed (app_map as) a \<longleftrightarrow> (\<exists>b \<in> set as. aName b = aName a \<and> aURI b \<noteq> aURI a))"
      by (simp add: diff_class_defs 2(1) sync changed)
  qed
qed

lemma Diff_closed:
  assumes "wf_target t" and "wf_target other"
  shows "Diff E w t other =
    \<lparr>dAdd = filter (is_new (app_map (tApps t))) (tApps other),
     dRemove = map snd (range_map E w (filter (\<lambda>kv. fst kv \<notin> aName ` set (tApps other)) (app_map (tApps t)))),
     dSync = filter (in_sync (app_map (tApps t))) (tApps other),
     dUpdate = map (\<lambda>a. the (map_of (app_map (tApps t)) (aName a)))
                 (filter (is_changed (app_map (tApps t))) (tApps other)),
     dUpdateTo = filter (is_changed (app_map (tApps t))) (tApps other)\<rparr>"
  using assms by (simp add: Diff_def diff_loop_closed wf_target_def empty_diff_def)

lemma mset_Diff_remove:
  assumes "map_order_ok E" and "wf_target t" and "wf_target other"
  shows "mset (dRemove (Diff E w t other)) = mset (filter (\<lambda>b. aName b \<notin> aName ` set (tApps other)) (tApps t))"
proof -
  let ?m = "filter (\<lambda>kv. fst kv \<notin> aName ` set (tApps other)) (app_map (tApps t))"
  have "distinct (map fst ?m)" by (intro distinct_map_filter app_map_keys)
  then have "mset (map snd (range_map E w ?m)) = mset (map snd ?m)"
    by (simp only: mset_map mset_range_map [OF assms(1)])
  moreover have "map snd ?m = filter (\<lambda>b. aName b \<notin> aName ` set (tApps other)) (tApps t)"
    using assms(2) by (simp add: app_map_distinct wf_target_def filter_map comp_def)
  ultimately show ?thesis using assms(2,3) by (simp add: Diff_closed)
qed

lemma mset_three_way:
  assumes "\<And>x. x \<in> set xs \<Longrightarrow> (P x \<or> Q x \<or> R x) \<and> \<not> (P x \<and> Q x) \<and> \<not> (P x \<and> R x) \<and> \<not> (Q x \<and> R x)"
  shows "mset (filter P xs) + mset (filter Q xs) + mset (filter R xs) = mset xs"
  using assms
proof (induction xs)
  case (Cons x xs)
  then have "mset (filter P xs) + mset (filter Q xs) + mset (filter R xs) = mset xs" by simp
  moreover have "(P x \<or> Q x \<or> R x) \<and> \<not> (P x \<and> Q x) \<and> \<not> (P x \<and> R x) \<and> \<not> (Q x \<and> R x)"
    using Cons.prems by simp
  ultimately show ?case by auto
qed simp

lemma mset_Diff_other:
  assumes "wf_target t" and "wf_target other"
  shows "mset (dAdd (Diff E w t other)) + mset (dSync (Diff E w t other))
    + mset (dUpdateTo (Diff E w t other)) = mset (tApps other)"
proof -
  let ?m = "app_map (tApps t)"
  have "mset (filter (is_new ?m) (tApps other)) + mset (filter (in_sync ?m) (tApps other))
      + mset (filter (is_changed ?m) (tApps other)) = mset (tApps other)"
    by (rule mset_three_way) (auto simp: diff_class_defs split: option.splits)
  then show ?thesis by (simp add: Diff_closed [OF assms])
qed

section \<open>Lemmas on the latest target\<close>

definition upper_limit :: "'w env \<Rightarrow> 'w \<Rightarrow> int" where
  "upper_limit E w = version_limit (x_getenv E ''FIOUP_VERSION_UPPER_LIMIT'' w)"

definition eligible :: "int \<Rightarrow> target \<Rightarrow> bool" where
  "eligible limit t \<longleftrightarrow> 0 \<le> tVersion t \<and> (limit \<le> 0 \<or> tVersion t \<le> limit)"

text \<open>The first of the targets with the greatest version among those that satisfy \<open>ok\<close>.\<close>

definition first_best :: "(target \<Rightarrow> bool) \<Rightarrow> targets \<Rightarrow> target \<Rightarrow> bool" where
  "first_best ok ts t \<longleftrightarrow>
    (\<exists>xs ys. ts = xs @ t # ys \<and> ok t
       \<and> (\<forall>x \<in> set xs. ok x \<longrightarrow> tVersion x < tVersion t)
       \<and> (\<forall>y \<in> set ys. ok y \<longrightarrow> tVersion y \<le> tVersion t))"

lemma first_best_max: "first_best ok ts t \<Longrightarrow> ok t \<and> t \<in> set ts \<and> (\<forall>x \<in> set ts. ok x \<longrightarrow> tVersion x \<le> tVersion t)"
  by (auto simp: first_best_def order_less_imp_le)

lemma first_best_new:
  "ok a \<Longrightarrow> \<forall>x \<in> set ts. ok x \<longrightarrow> tVersion x < tVersion a \<Longrightarrow> first_best ok (ts @ [a]) a"
  unfolding first_best_def by (intro exI [of _ ts] exI [of _ "[]"]) simp

lemma first_best_keep:
  assumes "first_best ok ts t" and "ok a \<longrightarrow> tVersion a \<le> tVersion t"
  shows "first_best ok (ts @ [a]) t"
proof -
  from assms(1) obtain xs ys where 1: "ts = xs @ t # ys" "ok t"
    "\<forall>x \<in> set xs. ok x \<longrightarrow> tVersion x < tVersion t" "\<forall>y \<in> set ys. ok y \<longrightarrow> tVersion y \<le> tVersion t"
    unfolding first_best_def by blast
  with assms(2) show ?thesis
    unfolding first_best_def by (intro exI [of _ xs] exI [of _ "ys @ [a]"]) auto
qed

lemma latest_step_unknown:
  "latest_step l UnknownTarget a = (if eligible l a then a else UnknownTarget)"
  by (auto simp: latest_step_def eligible_def UnknownTarget_def)

lemma latest_step_eligible:
  "eligible l t \<Longrightarrow> latest_step l t a = (if eligible l a \<and> tVersion a > tVersion t then a else t)"
  by (auto simp: latest_step_def eligible_def)

lemma foldl_latest_step:
  "if \<exists>t \<in> set ts. eligible l t
   then first_best (eligible l) ts (foldl (latest_step l) UnknownTarget ts)
   else foldl (latest_step l) UnknownTarget ts = UnknownTarget"
proof (induction ts rule: rev_induct)
  case (snoc a ts)
  show ?case
  proof (cases "\<exists>t \<in> set ts. eligible l t")
    case True
    with snoc have b: "first_best (eligible l) ts (foldl (latest_step l) UnknownTarget ts)"
      by (simp only: if_True)
    let ?t = "foldl (latest_step l) UnknownTarget ts"
    have max: "eligible l ?t" "\<forall>x \<in> set ts. eligible l x \<longrightarrow> tVersion x \<le> tVersion ?t"
      using first_best_max [OF b] by blast+
    have "first_best (eligible l) (ts @ [a]) (latest_step l ?t a)"
    proof (cases "eligible l a \<and> tVersion a > tVersion ?t")
      case new: True
      with max have "first_best (eligible l) (ts @ [a]) a" by (intro first_best_new) auto
      with new show ?thesis by (simp add: latest_step_eligible [OF max(1)])
    next
      case False
      with b show ?thesis by (auto simp: latest_step_eligible [OF max(1)] intro: first_best_keep)
    qed
    with True show ?thesis by auto
  next
    case False
    with snoc have "foldl (latest_step l) UnknownTarget ts = UnknownTarget" by (simp only: if_False)
    with False show ?thesis by (auto simp: latest_step_unknown intro!: first_best_new)
  qed
qed simp

section \<open>Properties\<close>

text \<open>
  C21: \<open>Diff\<close> of two targets with distinct app names classifies every app exactly once. An app
  of the new target is added when its name is not in the old one, in sync when the old target
  has the very same app, and an update otherwise; an app of the old target is removed when its
  name is gone. The apps updated from and the apps updated to carry the same names in the same
  order, so the pairs match, and nothing of the new target is lost or repeated. This holds for
  every order in which the Go map is ranged over.
\<close>
theorem Diff_classifies:
  fixes w :: 'w
  assumes "map_order_ok E" and "wf_target t" and "wf_target other"
  defines "d \<equiv> Diff E w t other"
  shows "set (dAdd d) = {a \<in> set (tApps other). aName a \<notin> aName ` set (tApps t)}
    \<and> set (dSync d) = set (tApps other) \<inter> set (tApps t)
    \<and> set (dUpdateTo d) = {a \<in> set (tApps other). \<exists>b \<in> set (tApps t). aName b = aName a \<and> aURI b \<noteq> aURI a}
    \<and> set (dUpdate d) = {b \<in> set (tApps t). \<exists>a \<in> set (tApps other). aName b = aName a \<and> aURI b \<noteq> aURI a}
    \<and> map aName (dUpdate d) = map aName (dUpdateTo d)
    \<and> mset (dRemove d) = {#b \<in># mset (tApps t). aName b \<notin> aName ` set (tApps other)#}
    \<and> mset (dAdd d) + mset (dSync d) + mset (dUpdateTo d) = mset (tApps other)"
proof -
  have dt: "distinct (map aName (tApps t))" using assms(2) by (simp add: wf_target_def)
  note eqs = app_class_eqs [OF dt] Diff_closed [OF assms(2,3)]
  have names: "aName (the (map_of (app_map (tApps t)) (aName a))) = aName a"
    and mem: "the (map_of (app_map (tApps t)) (aName a)) \<in> set (tApps t)"
    if "is_changed (app_map (tApps t)) a" for a
    using that app_map_of_Some [OF dt] by (auto simp: is_changed_def split: option.splits)
  have upd: "the (map_of (app_map (tApps t)) (aName a)) = b"
    if "b \<in> set (tApps t)" "aName b = aName a" for a b
    using that app_map_of_distinct [OF dt] by fastforce
  have "set (dUpdate d) = {b \<in> set (tApps t). \<exists>a \<in> set (tApps other). aName b = aName a \<and> aURI b \<noteq> aURI a}"
    unfolding d_def eqs using upd by (force simp: eqs(3))
  moreover have "map aName (dUpdate d) = map aName (dUpdateTo d)"
    unfolding d_def eqs(4) using names by (simp add: comp_def cong: map_cong)
  moreover have "mset (dRemove d) = {#b \<in># mset (tApps t). aName b \<notin> aName ` set (tApps other)#}"
    unfolding d_def by (simp add: mset_Diff_remove [OF assms(1-3)])
  moreover have "mset (dAdd d) + mset (dSync d) + mset (dUpdateTo d) = mset (tApps other)"
    unfolding d_def by (rule mset_Diff_other [OF assms(2,3)])
  ultimately show ?thesis unfolding d_def eqs by (auto simp: eqs)
qed

theorem Diff_classifies_witness:
  defines "E \<equiv> (undefined :: nat env)\<lparr>x_map_order := \<lambda>ks w. rev ks\<rparr>"
  defines "t \<equiv> \<lparr>tID = ''lmp-1'', tVersion = 1,
     tApps = [\<lparr>aName = ''a'', aURI = ''r/a@1''\<rparr>, \<lparr>aName = ''b'', aURI = ''r/b@1''\<rparr>]\<rparr>"
  defines "n \<equiv> \<lparr>tID = ''lmp-2'', tVersion = 2,
     tApps = [\<lparr>aName = ''b'', aURI = ''r/b@2''\<rparr>, \<lparr>aName = ''c'', aURI = ''r/c@1''\<rparr>]\<rparr>"
  shows "map_order_ok E \<and> wf_target t \<and> wf_target n
    \<and> mset (dRemove (Diff E 0 t n)) = {#\<lparr>aName = ''a'', aURI = ''r/a@1''\<rparr>#}"
proof -
  have E: "map_order_ok E" by (simp add: map_order_ok_def E_def)
  have t: "wf_target t" and n: "wf_target n" by (simp_all add: wf_target_def t_def n_def)
  show ?thesis using Diff_classifies [OF E t n, of 0] E t n by (simp add: t_def n_def)
qed

text \<open>
  C34: \<open>GetLatestTarget\<close> returns the target with the greatest version among those with a
  version of at least 0 that the limit in \<open>FIOUP_VERSION_UPPER_LIMIT\<close> allows (no limit when
  the variable is unset, not a number, zero or negative), the first such target in the list when
  several share the version; when there is none, it returns the unknown target.
\<close>
theorem GetLatestTarget_max:
  "if \<exists>t \<in> set ts. eligible (upper_limit E w) t
   then first_best (eligible (upper_limit E w)) ts (GetLatestTarget E w ts)
   else GetLatestTarget E w ts = UnknownTarget"
  using foldl_latest_step [of ts "upper_limit E w"]
  by (simp only: GetLatestTarget_def upper_limit_def)

text \<open>\<open>GetSortedList\<close> returns a permutation of the list, and one that is sorted by version
  whenever no two versions are further apart than a 64-bit integer can tell.
\<close>
theorem GetSortedList_sorted:
  assumes "\<forall>a \<in> set ts. \<forall>b \<in> set ts. tVersion a - tVersion b \<le> int_max"
  shows "mset (GetSortedList ts) = mset ts \<and> sorted (map tVersion (GetSortedList ts))"
proof -
  have "int_min \<le> tVersion a - tVersion b" if "a \<in> set ts" "b \<in> set ts" for a b
    using assms that by (fastforce simp: int_min_def int_max_def)
  with assms show ?thesis
    unfolding GetSortedList_def by (auto intro!: sorted_sort_func simp: wrap64_id)
qed

theorem GetSortedList_sorted_witness:
  "map tVersion (GetSortedList
     [\<lparr>tID = ''l-3'', tVersion = 3, tApps = []\<rparr>, \<lparr>tID = ''l-1'', tVersion = 1, tApps = []\<rparr>]) = [1, 3]
   \<and> sorted (map tVersion (GetSortedList
     [\<lparr>tID = ''l-3'', tVersion = 3, tApps = []\<rparr>, \<lparr>tID = ''l-1'', tVersion = 1, tApps = []\<rparr>]))"
  using GetSortedList_sorted [of "[\<lparr>tID = ''l-3'', tVersion = 3, tApps = []\<rparr>, \<lparr>tID = ''l-1'', tVersion = 1, tApps = []\<rparr>]"]
  by (simp add: int_max_def GetSortedList_def sort_func_def wrap64_def)

text \<open>
  The difference of the two versions is taken in 64 bits: a target file with the versions
  \<open>9223372036854775807\<close> and \<open>-2\<close> comes out in the wrong order.
\<close>
lemma GetSortedList_overflow:
  "map tVersion (GetSortedList
     [\<lparr>tID = ''l-a'', tVersion = 9223372036854775807, tApps = []\<rparr>, \<lparr>tID = ''l-b'', tVersion = -2, tApps = []\<rparr>])
   = [9223372036854775807, -2]"
  by (simp add: GetSortedList_def sort_func_def wrap64_def)

text \<open>On targets with distinct app names \<open>Equals\<close> is equality of identifier and version
  together with equality of the sets of apps.
\<close>
theorem Equals_iff:
  assumes "wf_target t" and "wf_target u"
  shows "Equals t u \<longleftrightarrow> tID t = tID u \<and> tVersion t = tVersion u \<and> set (tApps t) = set (tApps u)"
proof -
  have d: "distinct (tApps t)" "distinct (tApps u)"
    using assms by (auto simp: wf_target_def distinct_map)
  have sub: "list_all (\<lambda>a. list_ex (\<lambda>b. aName b = aName a \<and> aURI b = aURI a) (tApps u)) (tApps t)
      \<longleftrightarrow> set (tApps t) \<subseteq> set (tApps u)"
    by (auto simp: list_all_iff list_ex_iff) (metis (full_types) app.equality old.unit.exhaust subsetD)+
  have "set (tApps t) = set (tApps u)"
    if "length (tApps t) = length (tApps u)" "set (tApps t) \<subseteq> set (tApps u)"
    using that d by (metis List.finite_set card_subset_eq distinct_card)
  moreover have "length (tApps t) = length (tApps u)" if "set (tApps t) = set (tApps u)"
    using that d by (metis distinct_card)
  ultimately show ?thesis by (auto simp: Equals_def sub)
qed

theorem Equals_iff_witness:
  "Equals \<lparr>tID = ''i'', tVersion = 1, tApps = [\<lparr>aName = ''a'', aURI = ''u''\<rparr>, \<lparr>aName = ''b'', aURI = ''v''\<rparr>]\<rparr>
     \<lparr>tID = ''i'', tVersion = 1, tApps = [\<lparr>aName = ''b'', aURI = ''v''\<rparr>, \<lparr>aName = ''a'', aURI = ''u''\<rparr>]\<rparr>"
  by (subst Equals_iff) (auto simp: wf_target_def)

end
