(* ===== verification/Config.thy ===== *)
theory Config
  imports Target
begin

text \<open>
  \<open>pkg/config/config.go\<close>: loading the configuration, the storage watermark, the list of enabled
  apps and the proxy of the apps' registry.
\<close>

section \<open>Data\<close>

text \<open>
  \<open>pp_client\<close> says whether \<open>SetClientForProxy\<close> has given the provider its HTTP client.
\<close>

record proxy_provider =
  pp_client :: bool
  pp_proxyUrlProvider :: string

record config =
  tomlConfig :: toml
  composeConfig :: compose_config
  dgBaseURL :: url
  storageWatermark :: nat
  proxyProvider :: "proxy_provider option"

definition StorageUsageWatermarkDefault :: nat where "StorageUsageWatermarkDefault = 95"
definition MinStorageUsageWatermark :: nat where "MinStorageUsageWatermark = 20"
definition MaxStorageUsageWatermark :: nat where "MaxStorageUsageWatermark = 99"

lemmas watermark_defs =
  StorageUsageWatermarkDefault_def MinStorageUsageWatermark_def MaxStorageUsageWatermark_def

text \<open>The keys of the configuration and their defaults.\<close>

abbreviation TagKey :: string where "TagKey \<equiv> ''pacman.tags''"
abbreviation ServerBaseUrlKey :: string where "ServerBaseUrlKey \<equiv> ''tls.server''"
abbreviation StorageDirKey :: string where "StorageDirKey \<equiv> ''storage.path''"
abbreviation StorageDBPathKey :: string where "StorageDBPathKey \<equiv> ''storage.sqldb_path''"
abbreviation HardwareIDKey :: string where "HardwareIDKey \<equiv> ''provision.primary_ecu_hardware_id''"
abbreviation StorageUsageWatermark :: string where "StorageUsageWatermark \<equiv> ''pacman.storage_watermark''"
abbreviation ComposeAppsProxyKey :: string where "ComposeAppsProxyKey \<equiv> ''pacman.compose_apps_proxy''"
abbreviation ComposeAppsProxyCaKey :: string where "ComposeAppsProxyCaKey \<equiv> ''import.tls_cacert_path''"
abbreviation ComposeAppsPruneUnusedImagesKey :: string where "ComposeAppsPruneUnusedImagesKey \<equiv> ''pacman.prune_unused_images''"
abbreviation StorageDefaultDir :: string where "StorageDefaultDir \<equiv> ''/var/sota''"
abbreviation StorageDefaultDBPath :: string where "StorageDefaultDBPath \<equiv> ''sql.db''"
abbreviation TargetsDefaultFilename :: string where "TargetsDefaultFilename \<equiv> ''targets.json''"
abbreviation StorageUsageWatermarkDefaultStr :: string where "StorageUsageWatermarkDefaultStr \<equiv> ''95''"

section \<open>Loading\<close>

definition DefaultConfigFilename :: string where "DefaultConfigFilename = ''sota.toml''"

text \<open>Whether one of the paths holds the device configuration.\<close>

fun find_registered :: "'w env \<Rightarrow> 'w \<Rightarrow> string list \<Rightarrow> bool result" where
  "find_registered E w [] = Inr False"
| "find_registered E w (p # ps) =
     (case x_Stat E p w of
        Inl e \<Rightarrow>
          if errors_is e ErrPermission
          then Inl (errorf (''config: permission denied when accessing path '' @ json_quote p) e)
          else find_registered E w ps
      | Inr (is_dir, name) \<Rightarrow>
          if is_dir then
            (case x_Stat E (path_join [p, DefaultConfigFilename]) w of
               Inr _ \<Rightarrow> Inr True
             | Inl _ \<Rightarrow> find_registered E w ps)
          else if name = DefaultConfigFilename then Inr True
          else find_registered E w ps)"

definition watermark_of :: "string \<Rightarrow> nat" where
  "watermark_of s =
    (case atoi s of
       (watermark, None) \<Rightarrow>
         if watermark < int MinStorageUsageWatermark \<or> watermark > int MaxStorageUsageWatermark
         then StorageUsageWatermarkDefault else nat watermark
     | (_, Some _) \<Rightarrow> StorageUsageWatermarkDefault)"

definition newProxyProvider :: "'w env \<Rightarrow> toml \<Rightarrow> 'w host \<Rightarrow> proxy_provider result \<times> 'w host" where
  "newProxyProvider E cfg h =
    (let proxyCa = t_Get cfg ComposeAppsProxyCaKey
     in if proxyCa = '''' then
          (Inl (ErrorString ''path to proxy CA certificates not set in config key import.tls_cacert_path ''), h)
        else
          (case read_file E proxyCa h of
             (Inl e, h) \<Rightarrow> (Inl (errorf (''failed to read proxy CA certificates from '' @ proxyCa) e), h)
           | (Inr b, h) \<Rightarrow>
               if \<not> x_CertsFromPEM E b
               then (Inl (ErrorString (''failed to parse proxy CA certificates from '' @ proxyCa)), h)
               else (Inr \<lparr>pp_client = False,
                          pp_proxyUrlProvider = t_Get cfg ComposeAppsProxyKey\<rparr>, h)))"

definition newComposeConfig :: "'w env \<Rightarrow> toml \<Rightarrow> bool \<Rightarrow> 'w \<Rightarrow> compose_config result" where
  "newComposeConfig E cfg proxy w =
    x_NewComposeConfig E
      (t_GetDefault cfg ''pacman.reset_apps_root'' ''/var/sota/reset-apps'')
      (t_GetDefault cfg ''pacman.compose_apps_root'' ''/var/sota/compose-apps'')
      (path_join [t_GetDefault cfg StorageDirKey StorageDefaultDir, ''updates.db''])
      proxy w"

definition NewConfig :: "'w env \<Rightarrow> string list \<Rightarrow> 'w host \<Rightarrow> config result \<times> 'w host" where
  "NewConfig E paths h =
    (if paths = [] then (Inl (ErrorString ''config: no TOML paths provided''), h)
     else case find_registered E (ext h) paths of
       Inl e \<Rightarrow> (Inl e, h)
     | Inr False \<Rightarrow>
         (Inl (ErrorString (''config: no device config is found in the provided paths '' @
            json_quote (join '', '' paths) @ ''; make sure the device is registered'')), h)
     | Inr True \<Rightarrow>
         (case x_NewAppConfig E paths (ext h) of
            Inl e \<Rightarrow> (Inl (errorf (''config: failed to load TOML from paths '' @
                              json_quote (join '', '' paths)) e), h)
          | Inr toml \<Rightarrow>
              if \<not> t_Has toml ServerBaseUrlKey then
                (Inl (ErrorString (''no '' @ json_quote ServerBaseUrlKey @
                   '' is found in the TOML config; it defines the device gateway base URL'')), h)
              else (case x_UrlParse E (t_Get toml ServerBaseUrlKey) of
                Inl e \<Rightarrow> (Inl (errorf ''invalid value of the device gateway base URL'' e), h)
              | Inr base \<Rightarrow>
                  (let wm = watermark_of (t_GetDefault toml StorageUsageWatermark StorageUsageWatermarkDefaultStr);
                       (proxy, h) =
                         (if t_Has toml ComposeAppsProxyKey \<and> t_Get toml ComposeAppsProxyKey \<noteq> ''''
                          then (case newProxyProvider E toml h of
                                  (Inr p, h) \<Rightarrow> (Some p, h)
                                | (Inl e, h) \<Rightarrow> (None, h))
                          else (None, h))
                   in case newComposeConfig E toml (proxy \<noteq> None) (ext h) of
                        Inl e \<Rightarrow> (Inl (errorf ''failed to create compose config'' e), h)
                      | Inr cc \<Rightarrow>
                          (Inr \<lparr>tomlConfig = toml, composeConfig = cc, dgBaseURL = base,
                                storageWatermark = wm, proxyProvider = proxy\<rparr>, h)))))"

section \<open>Accessors\<close>

definition GetHardwareID :: "config \<Rightarrow> string" where
  "GetHardwareID c = t_Get (tomlConfig c) HardwareIDKey"

definition GetStorageDir :: "config \<Rightarrow> string" where
  "GetStorageDir c = t_GetDefault (tomlConfig c) StorageDirKey StorageDefaultDir"

definition GetTargetsFilepath :: "config \<Rightarrow> string" where
  "GetTargetsFilepath c = path_join [GetStorageDir c, TargetsDefaultFilename]"

definition GetTag :: "config \<Rightarrow> string" where
  "GetTag c = t_Get (tomlConfig c) TagKey"

definition GetServerBaseURL :: "config \<Rightarrow> url" where
  "GetServerBaseURL c = dgBaseURL c"

definition GetDBPath :: "config \<Rightarrow> string" where
  "GetDBPath c =
    path_join [GetStorageDir c, t_GetDefault (tomlConfig c) StorageDBPathKey StorageDefaultDBPath]"

definition GetStorageUsageWatermark :: "config \<Rightarrow> nat" where
  "GetStorageUsageWatermark c = storageWatermark c"

definition GetImagePruningFlag :: "config \<Rightarrow> bool" where
  "GetImagePruningFlag c \<longleftrightarrow> t_GetDefault (tomlConfig c) ComposeAppsPruneUnusedImagesKey ''0'' = ''1''"

definition SetClientForProxy :: "config \<Rightarrow> config" where
  "SetClientForProxy c =
    (case proxyProvider c of
       None \<Rightarrow> c
     | Some p \<Rightarrow> c\<lparr>proxyProvider := Some (p\<lparr>pp_client := True\<rparr>)\<rparr>)"

definition GetEnabledApps :: "config \<Rightarrow> string list option" where
  "GetEnabledApps c =
    (if \<not> t_Has (tomlConfig c) ''pacman.compose_apps'' then None
     else Some (filter (\<lambda>v. v \<noteq> '''')
                 (map trim_space (split_on (CHR '','') (t_Get (tomlConfig c) ''pacman.compose_apps'')))))"

section \<open>The proxy of the apps' registry\<close>

definition content_text :: "content \<Rightarrow> string" where
  "content_text c = (case c of JsonDoc j \<Rightarrow> json_indent 0 j | Raw s \<Rightarrow> s)"

definition getComposeAppProxy :: "'w env \<Rightarrow> proxy_provider \<Rightarrow> 'w host \<Rightarrow> url option \<times> 'w host" where
  "getComposeAppProxy E p h =
    (if \<not> pp_client p then (None, h)
     else case http E \<lparr>q_method = POST, q_path = pp_proxyUrlProvider p, q_headers = Map.empty, q_body = None\<rparr> h of
       (Inl e, h) \<Rightarrow> (None, h)
     | (Inr resp, h) \<Rightarrow>
         if StatusCode resp \<noteq> 201 then (None, h)
         else (case x_UrlParseRequestURI E (content_text (Body resp)) of
           Inl e \<Rightarrow> (None, h)
         | Inr u \<Rightarrow>
             if url_Scheme u \<noteq> ''http'' \<and> url_Scheme u \<noteq> ''https'' then (None, h)
             else if url_Host u = '''' then (None, h)
             else (Some u, h)))"

section \<open>Lemmas\<close>

lemma trim_space_id: "s = '''' \<or> \<not> is_space (hd s) \<and> \<not> is_space (last s) \<Longrightarrow> trim_space s = s"
proof (cases s rule: rev_cases)
  case (snoc ys y)
  assume "s = '''' \<or> \<not> is_space (hd s) \<and> \<not> is_space (last s)"
  with snoc show ?thesis by (cases ys) (auto simp: trim_space_def)
qed (simp add: trim_space_def)

lemma dropWhile_prefix_last: "dropWhile P xs \<noteq> [] \<Longrightarrow> last (dropWhile P xs) = last xs"
  by (induction xs) auto

lemma trim_space_ends: "trim_space s \<noteq> '''' \<Longrightarrow> \<not> is_space (hd (trim_space s)) \<and> \<not> is_space (last (trim_space s))"
proof -
  assume ne: "trim_space s \<noteq> ''''"
  define t where "t = dropWhile is_space s"
  have r: "trim_space s = rev (dropWhile is_space (rev t))" by (simp add: trim_space_def t_def)
  with ne have ne': "dropWhile is_space (rev t) \<noteq> []" by simp
  then have "\<not> is_space (hd (dropWhile is_space (rev t)))" by (rule hd_dropWhile)
  moreover have "t \<noteq> []" using ne' by auto
  moreover have "last (dropWhile is_space (rev t)) = hd t"
    using dropWhile_prefix_last [OF ne'] \<open>t \<noteq> []\<close> by (simp add: last_rev)
  moreover have "\<not> is_space (hd t)" using \<open>t \<noteq> []\<close> unfolding t_def by (rule hd_dropWhile)
  ultimately show ?thesis using ne' by (simp add: r hd_rev last_rev)
qed

lemma watermark_of_range:
  "MinStorageUsageWatermark \<le> watermark_of s \<and> watermark_of s \<le> MaxStorageUsageWatermark"
  by (auto simp: watermark_of_def watermark_defs split: prod.splits option.splits)

lemma NewConfig_Inr:
  "NewConfig E paths h = (Inr c, h') \<Longrightarrow>
     storageWatermark c = watermark_of (t_GetDefault (tomlConfig c) ''pacman.storage_watermark'' ''95'')
     \<and> t_Has (tomlConfig c) ''tls.server''
     \<and> find_registered E (ext h) paths = Inr True"
  by (auto simp: NewConfig_def Let_def split: if_splits sum.splits bool.splits prod.splits)

section \<open>Properties\<close>

text \<open>
  A configuration that loads has a storage watermark between 20 and 99 percent: the number in
  the TOML file when it is one in that range, and the default of 95 for a number outside it, for a
  text that is no number and when the key is missing (the lookup's default is then \<open>"95"\<close>).
\<close>
theorem NewConfig_watermark:
  assumes "NewConfig E paths h = (Inr c, h')"
  defines "s \<equiv> t_GetDefault (tomlConfig c) ''pacman.storage_watermark'' ''95''"
  shows "20 \<le> GetStorageUsageWatermark c \<and> GetStorageUsageWatermark c \<le> 99
    \<and> GetStorageUsageWatermark c =
        (if snd (atoi s) = None \<and> 20 \<le> fst (atoi s) \<and> fst (atoi s) \<le> 99 then nat (fst (atoi s)) else 95)"
  using watermark_of_range [of s] NewConfig_Inr [OF assms(1)]
  by (auto simp: GetStorageUsageWatermark_def s_def watermark_of_def watermark_defs
      split: prod.splits option.splits)

theorem NewConfig_watermark_witness:
  defines "T \<equiv> \<lparr>t_Has = \<lambda>k. k = ''tls.server'', t_Get = \<lambda>k. ''https://gw'', t_GetDefault = \<lambda>k d. if k = ''pacman.storage_watermark'' then ''150'' else d\<rparr>"
  defines "E \<equiv> (undefined :: unit env)\<lparr>x_Stat := \<lambda>p w. Inr (False, ''sota.toml''),
     x_NewAppConfig := \<lambda>ps w. Inr T,
     x_UrlParse := \<lambda>s. Inr \<lparr>url_Scheme = ''https'', url_Host = ''gw'', url_text = s\<rparr>,
     x_NewComposeConfig := \<lambda>a b c d w. Inr \<lparr>cc_StoreRoot = a, cc_BlockSize = 4096\<rparr>\<rparr>"
  shows "\<exists>c h'. NewConfig E [''/var/sota/sota.toml''] (undefined :: unit host) = (Inr c, h')
     \<and> GetStorageUsageWatermark c = 95"
proof -
  have "\<exists>c h'. NewConfig E [''/var/sota/sota.toml''] (undefined :: unit host) = (Inr c, h') \<and> tomlConfig c = T"
    by (simp add: NewConfig_def E_def T_def DefaultConfigFilename_def newComposeConfig_def)
  then obtain c h' where c: "NewConfig E [''/var/sota/sota.toml''] (undefined :: unit host) = (Inr c, h')" "tomlConfig c = T"
    by blast
  have "atoi ''150'' = (150, None)"
    by (simp add: atoi_def parse_uint_def digit_of_def)
  with NewConfig_watermark [OF c(1)] c show ?thesis by (auto simp: T_def)
qed

text \<open>The list of enabled apps is nil exactly when \<open>pacman.compose_apps\<close> is not set (all apps are
  enabled); a list of names written with commas is read back as it is, whatever blanks are put
  around the names; and a text of blanks gives the empty list (no app is enabled).
\<close>
theorem GetEnabledApps_roundtrip:
  "(GetEnabledApps c = None \<longleftrightarrow> \<not> t_Has (tomlConfig c) ''pacman.compose_apps'')
   \<and> (t_Has (tomlConfig c) ''pacman.compose_apps'' \<and> ps \<noteq> []
       \<and> t_Get (tomlConfig c) ''pacman.compose_apps'' = join '','' ps
       \<and> (\<forall>p \<in> set ps. CHR '','' \<notin> set p \<and> trim_space p \<noteq> '''')
      \<longrightarrow> GetEnabledApps c = Some (map trim_space ps))
   \<and> (t_Has (tomlConfig c) ''pacman.compose_apps''
       \<and> list_all is_space (t_Get (tomlConfig c) ''pacman.compose_apps'')
      \<longrightarrow> GetEnabledApps c = Some [])"
proof -
  have blank: "filter (\<lambda>v. v \<noteq> '''') (map trim_space (split_on (CHR '','') s)) = []" if "list_all is_space s" for s
  proof -
    have "\<not> is_space (CHR '','')" by (simp add: is_space_def)
    then have "CHR '','' \<notin> set s" using that unfolding list_all_iff by blast
    moreover have "dropWhile is_space s = []" using that by (simp add: list_all_iff)
    ultimately show ?thesis by (simp add: split_on_no_sep trim_space_def del: dropWhile_eq_Nil_conv)
  qed
  have names: "filter (\<lambda>v. v \<noteq> '''') (map trim_space (split_on (CHR '','') (join '','' ps))) = map trim_space ps"
    if "ps \<noteq> []" "\<forall>p \<in> set ps. CHR '','' \<notin> set p \<and> trim_space p \<noteq> ''''"
  proof -
    have "split_on (CHR '','') (join '','' ps) = ps"
      using that by (intro split_on_join) auto
    then show ?thesis using that(2) by (simp add: filter_id_conv)
  qed
  show ?thesis
  proof (intro conjI impI)
    show "GetEnabledApps c = None \<longleftrightarrow> \<not> t_Has (tomlConfig c) ''pacman.compose_apps''"
      by (simp add: GetEnabledApps_def)
  next
    assume a: "t_Has (tomlConfig c) ''pacman.compose_apps'' \<and> ps \<noteq> []
      \<and> t_Get (tomlConfig c) ''pacman.compose_apps'' = join '','' ps
      \<and> (\<forall>p \<in> set ps. CHR '','' \<notin> set p \<and> trim_space p \<noteq> '''')"
    then have "filter (\<lambda>v. v \<noteq> '''') (map trim_space (split_on (CHR '','') (join '','' ps))) = map trim_space ps"
      by (intro names) blast+
    with a show "GetEnabledApps c = Some (map trim_space ps)"
      by (simp only: GetEnabledApps_def if_False not_not simp_thms)
  next
    assume a: "t_Has (tomlConfig c) ''pacman.compose_apps''
      \<and> list_all is_space (t_Get (tomlConfig c) ''pacman.compose_apps'')"
    with blank [of "t_Get (tomlConfig c) ''pacman.compose_apps''"] show "GetEnabledApps c = Some []"
      by (simp only: GetEnabledApps_def if_False not_not simp_thms)
  qed
qed

theorem GetEnabledApps_roundtrip_witness:
  defines "T \<equiv> \<lparr>t_Has = \<lambda>k. True, t_Get = \<lambda>k. ''foo, bar'', t_GetDefault = \<lambda>k d. d\<rparr>"
  shows "GetEnabledApps ((undefined :: config)\<lparr>tomlConfig := T\<rparr>) = Some [''foo'', ''bar'']"
  using GetEnabledApps_roundtrip [of "(undefined :: config)\<lparr>tomlConfig := T\<rparr>" "[''foo'', '' bar'']"]
  by (simp add: T_def trim_space_def is_space_def)

text \<open>
  A proxy is used only when the provider has its client, the gateway answered the request
  with status 201, and the answer is a URL with scheme http or https and a host; every other
  answer and every error mean that no proxy is used. One request is made when the client is set,
  none otherwise, and no file or table is touched.
\<close>
theorem getComposeAppProxy_safe:
  assumes "getComposeAppProxy E p h = (r, h')"
  shows "(case r of
       Some u \<Rightarrow> pp_client p
         \<and> (\<exists>resp w. x_http E \<lparr>q_method = POST, q_path = pp_proxyUrlProvider p, q_headers = Map.empty, q_body = None\<rparr> (ext h)
               = (Inr resp, w) \<and> StatusCode resp = 201
               \<and> x_UrlParseRequestURI E (content_text (Body resp)) = Inr u)
         \<and> url_Scheme u \<in> {''http'', ''https''} \<and> url_Host u \<noteq> ''''
     | None \<Rightarrow> True)
    \<and> length (reqs h') = length (reqs h) + (if pp_client p then 1 else 0)
    \<and> fs h' = fs h \<and> report_events h' = report_events h \<and> installed_versions h' = installed_versions h"
  using assms
  by (auto simp: getComposeAppProxy_def http_def split: if_splits sum.splits prod.splits)

theorem getComposeAppProxy_safe_witness:
  defines "E \<equiv> (undefined :: unit env)\<lparr>x_http := \<lambda>q w. (Inr \<lparr>StatusCode = 201, Body = Raw ''http://p:80''\<rparr>, w),
     x_UrlParseRequestURI := \<lambda>s. Inr \<lparr>url_Scheme = ''http'', url_Host = ''p:80'', url_text = s\<rparr>\<rparr>"
  defines "h \<equiv> (undefined :: unit host)\<lparr>ext := (), reqs := []\<rparr>"
  shows "\<exists>u h'. getComposeAppProxy E \<lparr>pp_client = True, pp_proxyUrlProvider = ''/apps-proxy-url''\<rparr> h = (Some u, h')
     \<and> url_Host u \<noteq> '''' \<and> length (reqs h') = 1"
proof -
  obtain u h' where r: "getComposeAppProxy E \<lparr>pp_client = True, pp_proxyUrlProvider = ''/apps-proxy-url''\<rparr> h = (Some u, h')"
    by (simp add: getComposeAppProxy_def E_def http_def h_def)
  with getComposeAppProxy_safe [OF r] show ?thesis by (auto simp: h_def)
qed

end
