(* ===== verification/GwClient.thy ===== *)
theory GwClient
  imports Config "HOL-Library.List_Lexorder" "HOL-Library.Char_ord"
begin

text \<open>
  \<open>pkg/client\<close>: the device gateway client. Its requests carry the headers that name the tag, the
  apps and the target of the device; the system information, the configuration, the hardware
  information and the states of the apps are sent only when they differ from what was sent before.
\<close>

section \<open>Data\<close>

record app_service_state =
  ss_Name :: string
  ss_Hash :: string
  ss_State :: string
  ss_Status :: string
  ss_Health :: string
  ss_ImageUri :: string
  ss_Logs :: string

record app_state =
  st_Services :: "app_service_state list"
  st_State :: string
  st_Uri :: string

type_synonym app_states = "(string \<times> app_state) list"

record gw_client =
  BaseURL :: string
  Headers :: "string \<Rightarrow> string option"
  lastNetInfoFile :: string
  lastSotaFile :: string
  sotaToReport :: "content option"
  lastHwinfoFile :: string
  hwinfoToReport :: "content option"
  lastAppStatesFile :: string
  lastAppStates :: app_states

definition HeaderKeyTag :: string where "HeaderKeyTag = ''x-ats-tags''"
definition HeaderKeyApps :: string where "HeaderKeyApps = ''x-ats-dockerapps''"
definition HeaderKeyTarget :: string where "HeaderKeyTarget = ''x-ats-target''"

lemmas header_keys = HeaderKeyTag_def HeaderKeyApps_def HeaderKeyTarget_def

section \<open>Requests\<close>

definition Get :: "'w env \<Rightarrow> gw_client \<Rightarrow> string \<Rightarrow> 'w host \<Rightarrow> http_res result \<times> 'w host" where
  "Get E c path h =
    http E \<lparr>q_method = GET, q_path = x_UrlJoin E (BaseURL c) path, q_headers = Headers c, q_body = None\<rparr> h"

definition Post :: "'w env \<Rightarrow> gw_client \<Rightarrow> string \<Rightarrow> content \<Rightarrow> 'w host \<Rightarrow> http_res result \<times> 'w host" where
  "Post E c path data h =
    http E \<lparr>q_method = POST, q_path = x_UrlJoin E (BaseURL c) path, q_headers = Headers c, q_body = Some data\<rparr> h"

definition Put :: "'w env \<Rightarrow> gw_client \<Rightarrow> string \<Rightarrow> content \<Rightarrow> 'w host \<Rightarrow> http_res result \<times> 'w host" where
  "Put E c path data h =
    http E \<lparr>q_method = PUT, q_path = x_UrlJoin E (BaseURL c) path, q_headers = Headers c, q_body = Some data\<rparr> h"

definition UpdateHeaders :: "string list \<Rightarrow> string \<Rightarrow> gw_client \<Rightarrow> gw_client" where
  "UpdateHeaders apps targetID c =
    c\<lparr>Headers := (Headers c)(HeaderKeyApps \<mapsto> join '','' apps, HeaderKeyTarget \<mapsto> targetID)\<rparr>"

definition http_error :: "string \<Rightarrow> http_res \<Rightarrow> goerr" where
  "http_error msg res =
    ErrorString (msg @ ''. HTTP_'' @ itoa (StatusCode res) @ '': '' @ content_text (Body res))"

section \<open>Network information\<close>

text \<open>The first line after the heading with destination 0.0.0.0 names the default interface.\<close>

fun default_route :: "string list \<Rightarrow> string option" where
  "default_route [] = None"
| "default_route (line # lines) =
     (let parts = str_fields line
      in if length parts > 4 \<and> parts ! 1 = ''00000000'' then Some (parts ! 0)
         else default_route lines)"

definition ipInfo :: "'w env \<Rightarrow> 'w \<Rightarrow> (string \<times> string) result outcome" where
  "ipInfo E w =
    (case x_Route E w of
       Inl e \<Rightarrow> Ret (Inl e)
     | Inr txt \<Rightarrow>
         (case default_route (tl (split_on (CHR 0x0A) txt)) of
            None \<Rightarrow> Ret (Inl (ErrorString ''could not find default network interface''))
          | Some ifname \<Rightarrow>
              (case x_Iface E ifname w of
                 Inl e \<Rightarrow> Ret (Inl (errorf (''unable to lookup default interface('' @ ifname @ '')'') e))
               | Inr (Inl e, mac) \<Rightarrow> Ret (Inl (errorf (''unable to lookup IP of interface('' @ ifname @ '')'') e))
               | Inr (Inr addrs, mac) \<Rightarrow>
                   (case addrs of [] \<Rightarrow> Panicked | ip # _ \<Rightarrow> Ret (Inr (ip, mac))))))"

definition net_info_json :: "string \<Rightarrow> string \<Rightarrow> string \<Rightarrow> json" where
  "net_info_json host mac ip =
    JObj [(''hostname'', JStr host), (''mac'', JStr mac), (''local_ipv4'', JStr ip)]"

definition uploadNetInfo :: "'w env \<Rightarrow> gw_client \<Rightarrow> 'w host \<Rightarrow> goerr option outcome \<times> 'w host" where
  "uploadNetInfo E c h =
    (case x_Hostname E (ext h) of
       Inl e \<Rightarrow> (Ret (Some e), h)
     | Inr host \<Rightarrow>
         (case ipInfo E (ext h) of
            Panicked \<Rightarrow> (Panicked, h)
          | Ret (Inl e) \<Rightarrow> (Ret (Some e), h)
          | Ret (Inr (ip, mac)) \<Rightarrow>
              (let new = JsonDoc (net_info_json host mac ip);
                   (last, h) = read_file E (lastNetInfoFile c) h
               in if last = Inr new then (Ret None, h)
                  else case Put E c ''/system_info/network'' new h of
                    (Inl e, h) \<Rightarrow> (Ret (Some e), h)
                  | (Inr res, h) \<Rightarrow>
                      if StatusCode res \<noteq> 200
                      then (Ret (Some (http_error ''unable to update network info'' res)), h)
                      else (let (e, h) = write_file E (lastNetInfoFile c) new h in (Ret None, h)))))"

section \<open>Configuration and hardware information\<close>

definition uploadSotaToml :: "'w env \<Rightarrow> gw_client \<Rightarrow> 'w host \<Rightarrow> goerr option \<times> gw_client \<times> 'w host" where
  "uploadSotaToml E c h =
    (case sotaToReport c of
       None \<Rightarrow> (None, c, h)
     | Some toml \<Rightarrow>
         (case Put E c ''/system_info/config'' toml h of
            (Inl e, h) \<Rightarrow> (Some e, c, h)
          | (Inr res, h) \<Rightarrow>
              if StatusCode res \<noteq> 200
              then (Some (http_error ''unable to update config info'' res), c, h)
              else (let (e, h) = write_file E (lastSotaFile c) toml h
                    in (None, c\<lparr>sotaToReport := None\<rparr>, h))))"

definition uploadHwinfo :: "'w env \<Rightarrow> gw_client \<Rightarrow> 'w host \<Rightarrow> goerr option \<times> gw_client \<times> 'w host" where
  "uploadHwinfo E c h =
    (case hwinfoToReport c of
       None \<Rightarrow> (None, c, h)
     | Some hw \<Rightarrow>
         (case http E \<lparr>q_method = PUT, q_path = x_UrlJoin E (BaseURL c) ''/system_info'',
                        q_headers = [''Content-type'' \<mapsto> ''application/json''], q_body = Some hw\<rparr> h of
            (Inl e, h) \<Rightarrow> (Some e, c, h)
          | (Inr res, h) \<Rightarrow>
              if StatusCode res \<noteq> 200
              then (Some (http_error ''unable to update hwinfo info'' res), c, h)
              else (let (e, h) = write_file E (lastHwinfoFile c) hw h
                    in (None, c\<lparr>hwinfoToReport := None\<rparr>, h))))"

text \<open>\<open>errors.Join\<close>.\<close>

definition join_err :: "goerr option \<Rightarrow> goerr option \<Rightarrow> goerr option" where
  "join_err e e2 =
    (case e2 of
       None \<Rightarrow> e
     | Some x2 \<Rightarrow> (case e of
         None \<Rightarrow> Some (Wrapped (err_text x2) [x2])
       | Some x \<Rightarrow> Some (Wrapped (err_text x @ [CHR 0x0A] @ err_text x2) [x, x2])))"

definition PutSysInfo :: "'w env \<Rightarrow> gw_client \<Rightarrow> 'w host \<Rightarrow> goerr option outcome \<times> gw_client \<times> 'w host" where
  "PutSysInfo E c h =
    (case uploadNetInfo E c h of
       (Panicked, h) \<Rightarrow> (Panicked, c, h)
     | (Ret err, h) \<Rightarrow>
         (let (e2, c, h) = uploadSotaToml E c h;
              (e3, c, h) = uploadHwinfo E c h
          in (Ret (join_err (join_err err e2) e3), c, h)))"

definition initSota :: "'w env \<Rightarrow> toml \<Rightarrow> gw_client \<Rightarrow> 'w host \<Rightarrow> gw_client \<times> 'w host" where
  "initSota E cfg c h =
    (case x_CombinedToml E cfg (ext h) of
       Inl e \<Rightarrow> (c, h)
     | Inr txt \<Rightarrow>
         (let current = Raw txt; (reported, h) = read_file E (lastSotaFile c) h
          in if reported = Inr current then (c, h)
             else (c\<lparr>sotaToReport := Some current\<rparr>, h)))"

text \<open>
  \<open>scrubHwinfo\<close> drops the frequency (\<open>size\<close>) of the first CPU that has one below the first child
  \<open>core\<close>. The document is given in the form that \<open>Unmarshal\<close> into Go maps and \<open>Marshal\<close> give it
  (keys sorted, without repetition). Every type assertion that fails is a panic, \<open>None\<close> here.
\<close>

fun scrub_cpus :: "json list \<Rightarrow> json list option" where
  "scrub_cpus [] = Some []"
| "scrub_cpus (JObj kvs # cs) =
     (case map_of kvs ''id'' of
        Some (JStr i) \<Rightarrow>
          if i = ''cpu'' \<and> map_of kvs ''size'' \<noteq> None
          then Some (JObj (filter (\<lambda>kv. fst kv \<noteq> ''size'') kvs) # cs)
          else map_option (Cons (JObj kvs)) (scrub_cpus cs)
      | _ \<Rightarrow> None)"
| "scrub_cpus (_ # cs) = None"

fun scrub_core :: "json list \<Rightarrow> json list option" where
  "scrub_core [] = Some []"
| "scrub_core (JObj kvs # cs) =
     (case map_of kvs ''id'' of
        Some (JStr i) \<Rightarrow>
          if i = ''core'' then
            (case map_of kvs ''children'' of
               Some (JArr ds) \<Rightarrow>
                 (case scrub_cpus ds of
                    Some ds' \<Rightarrow> Some (JObj (AList.update ''children'' (JArr ds') kvs) # cs)
                  | None \<Rightarrow> None)
             | _ \<Rightarrow> None)
          else map_option (Cons (JObj kvs)) (scrub_core cs)
      | _ \<Rightarrow> None)"
| "scrub_core (_ # cs) = None"

definition scrubHwinfo :: "content \<Rightarrow> content option" where
  "scrubHwinfo lshw =
    (case lshw of
       JsonDoc (JObj kvs) \<Rightarrow>
         (case map_of kvs ''children'' of
            Some (JArr cs) \<Rightarrow>
              (case scrub_core cs of
                 Some cs' \<Rightarrow> Some (JsonDoc (JObj (AList.update ''children'' (JArr cs') kvs)))
               | None \<Rightarrow> None)
          | _ \<Rightarrow> None)
     | _ \<Rightarrow> None)"

definition initHwinfo :: "'w env \<Rightarrow> gw_client \<Rightarrow> 'w host \<Rightarrow> unit outcome \<times> gw_client \<times> 'w host" where
  "initHwinfo E c h =
    (case x_Lshw E (ext h) of
       Inl e \<Rightarrow> (Ret (), c, h)
     | Inr out \<Rightarrow>
         (case scrubHwinfo out of
            None \<Rightarrow> (Panicked, c, h)
          | Some hw \<Rightarrow>
              (let (reported, h) = read_file E (lastHwinfoFile c) h
               in if reported = Inr hw then (Ret (), c, h)
                  else (Ret (), c\<lparr>hwinfoToReport := Some hw\<rparr>, h))))"

section \<open>States of the apps\<close>

definition service_json :: "app_service_state \<Rightarrow> json" where
  "service_json s =
    JObj ([(''name'', JStr (ss_Name s)), (''hash'', JStr (ss_Hash s)), (''state'', JStr (ss_State s)),
           (''status'', JStr (ss_Status s))]
      @ omit_if (ss_Health s = '''') ''health'' (JStr (ss_Health s))
      @ [(''image'', JStr (ss_ImageUri s))]
      @ omit_if (ss_Logs s = '''') ''logs'' (JStr (ss_Logs s)))"

definition app_state_json :: "app_state \<Rightarrow> json" where
  "app_state_json a =
    JObj [(''services'', if st_Services a = [] then JNull else JArr (map service_json (st_Services a))),
          (''state'', JStr (st_State a)), (''uri'', JStr (st_Uri a))]"

definition app_states_json :: "app_states \<Rightarrow> json" where
  "app_states_json m = JObj (map (\<lambda>(k, a). (k, app_state_json a)) (sort_key fst m))"

definition empty_service :: app_service_state where
  "empty_service = \<lparr>ss_Name = '''', ss_Hash = '''', ss_State = '''', ss_Status = '''', ss_Health = '''',
     ss_ImageUri = '''', ss_Logs = ''''\<rparr>"

definition set_service_field :: "string \<Rightarrow> json \<Rightarrow> app_service_state \<Rightarrow> app_service_state \<times> bool" where
  "set_service_field k v s =
    (if key_is ''name'' k then put (\<lambda>x. s\<lparr>ss_Name := x\<rparr>) (dec_str v (ss_Name s))
     else if key_is ''hash'' k then put (\<lambda>x. s\<lparr>ss_Hash := x\<rparr>) (dec_str v (ss_Hash s))
     else if key_is ''state'' k then put (\<lambda>x. s\<lparr>ss_State := x\<rparr>) (dec_str v (ss_State s))
     else if key_is ''status'' k then put (\<lambda>x. s\<lparr>ss_Status := x\<rparr>) (dec_str v (ss_Status s))
     else if key_is ''health'' k then put (\<lambda>x. s\<lparr>ss_Health := x\<rparr>) (dec_str v (ss_Health s))
     else if key_is ''image'' k then put (\<lambda>x. s\<lparr>ss_ImageUri := x\<rparr>) (dec_str v (ss_ImageUri s))
     else if key_is ''logs'' k then put (\<lambda>x. s\<lparr>ss_Logs := x\<rparr>) (dec_str v (ss_Logs s))
     else (s, True))"

definition empty_app_state :: app_state where
  "empty_app_state = \<lparr>st_Services = [], st_State = '''', st_Uri = ''''\<rparr>"

definition set_app_state_field :: "string \<Rightarrow> json \<Rightarrow> app_state \<Rightarrow> app_state \<times> bool" where
  "set_app_state_field k v a =
    (if key_is ''services'' k then
       put (\<lambda>x. a\<lparr>st_Services := x\<rparr>) (dec_slice (dec_struct set_service_field) empty_service v (st_Services a))
     else if key_is ''state'' k then put (\<lambda>x. a\<lparr>st_State := x\<rparr>) (dec_str v (st_State a))
     else if key_is ''uri'' k then put (\<lambda>x. a\<lparr>st_Uri := x\<rparr>) (dec_str v (st_Uri a))
     else (a, True))"

definition decode_app_states :: "json \<Rightarrow> app_states \<times> bool" where
  "decode_app_states j = dec_map (dec_struct set_app_state_field) empty_app_state j []"

definition initAppStateReporter :: "'w env \<Rightarrow> gw_client \<Rightarrow> 'w host \<Rightarrow> gw_client \<times> 'w host" where
  "initAppStateReporter E c h =
    (case read_file E (lastAppStatesFile c) h of
       (Inr (JsonDoc j), h) \<Rightarrow>
         (c\<lparr>lastAppStates := fst (decode_app_states j)\<rparr>, h)
     | (_, h) \<Rightarrow> (c, h))"

definition service_state :: "service_status \<Rightarrow> app_service_state" where
  "service_state srv =
    \<lparr>ss_Name = s_Name srv, ss_Hash = s_Hash srv, ss_State = s_State srv, ss_Status = s_Status srv,
     ss_Health = s_Health srv, ss_ImageUri = s_Image srv, ss_Logs = ''''\<rparr>"

definition app_health :: "service_status list \<Rightarrow> string" where
  "app_health srvs =
    foldl (\<lambda>st srv. if s_State srv = ''not created'' \<or> s_Health srv = ''unhealthy'' then ''unhealthy'' else st)
      (if length srvs > 0 then ''healthy'' else ''unhealthy'') srvs"

fun app_states_loop :: "apps_status \<Rightarrow> app_info list \<Rightarrow> app_states \<Rightarrow> app_states" where
  "app_states_loop s [] m = m"
| "app_states_loop s (a # as) m =
     (case as_Running s (ai_Digest a) of
        None \<Rightarrow> app_states_loop s as m
      | Some srvs \<Rightarrow>
          app_states_loop s as
            (AList.update (ai_Name a)
               \<lparr>st_Services = map service_state srvs, st_State = app_health srvs, st_Uri = ai_Ref a\<rparr> m))"

definition getAppStates :: "'w env \<Rightarrow> 'w \<Rightarrow> app_states result" where
  "getAppStates E w =
    (case x_CheckAppsStatus E None [] w of
       Inl e \<Rightarrow> Inl e
     | Inr s \<Rightarrow> Inr (app_states_loop s (as_Apps s) []))"

definition areAppStatesEqual :: "app_states \<Rightarrow> app_states \<Rightarrow> bool" where
  "areAppStatesEqual a b \<longleftrightarrow>
    (if length a \<noteq> length b then False
     else list_all (\<lambda>(k, appA).
       case map_of b k of
         None \<Rightarrow> False
       | Some appB \<Rightarrow> \<not> (st_State appA \<noteq> st_State appB \<or> length (st_Services appA) \<noteq> length (st_Services appB))) a)"

definition app_states_report :: "'w env \<Rightarrow> 'w \<Rightarrow> app_states \<Rightarrow> json" where
  "app_states_report E w m =
    JObj [(''ostree'', JStr ''e3b0c44298fc1c149afbf4c8996fb92427ae41e4649b934ca495991b7852b855''),
          (''deviceTime'', JStr (x_now E w)), (''apps'', app_states_json m)]"

definition ReportAppStates :: "'w env \<Rightarrow> gw_client \<Rightarrow> 'w host \<Rightarrow> goerr option \<times> gw_client \<times> 'w host" where
  "ReportAppStates E c h =
    (case getAppStates E (ext h) of
       Inl e \<Rightarrow> (Some (errorf ''failed to get app states'' e), c, h)
     | Inr cur \<Rightarrow>
         if areAppStatesEqual cur (lastAppStates c) then (None, c, h)
         else (case Post E c ''/apps-states'' (JsonDoc (app_states_report E (ext h) cur)) h of
           (Inl e, h) \<Rightarrow> (Some (errorf ''failed to post status of apps'' e), c, h)
         | (Inr res, h) \<Rightarrow>
             if StatusCode res < 200 \<or> StatusCode res > 204
             then (Some (ErrorString (''failed to post status of apps: HTTP_'' @ itoa (StatusCode res) @ '' - ''
                     @ content_text (Body res))), c, h)
             else (let (e, h) = write_file E (lastAppStatesFile c) (JsonDoc (app_states_json cur)) h
                   in (None, c\<lparr>lastAppStates := cur\<rparr>, h))))"

section \<open>The client\<close>

fun remove_files :: "'w env \<Rightarrow> string list \<Rightarrow> 'w host \<Rightarrow> 'w host" where
  "remove_files E [] h = h"
| "remove_files E (f # rest) h = (let (e, h) = remove_file E f h in remove_files E rest h)"

definition cleanupLastStateIfRequire :: "'w env \<Rightarrow> config \<Rightarrow> gw_client \<Rightarrow> 'w host \<Rightarrow> 'w host" where
  "cleanupLastStateIfRequire E cfg c h =
    (let (e, h) = io E (OpStat (GetDBPath cfg)) h
     in case e of
          Some err \<Rightarrow>
            if errors_is err ErrNotExist
            then remove_files E [lastNetInfoFile c, lastSotaFile c, lastHwinfoFile c, lastAppStatesFile c] h
            else h
        | None \<Rightarrow>
            if db_present h then h
            else remove_files E [lastNetInfoFile c, lastSotaFile c, lastHwinfoFile c, lastAppStatesFile c] h)"

definition NewGatewayClient ::
  "'w env \<Rightarrow> config \<Rightarrow> string list option \<Rightarrow> string \<Rightarrow> 'w host
   \<Rightarrow> gw_client result outcome \<times> config \<times> 'w host" where
  "NewGatewayClient E cfg apps targetID h =
    (case x_CreateClient E (tomlConfig cfg) (ext h) of
       Some e \<Rightarrow> (Ret (Inl (errorf ''failed to create HTTPS HttpClient to talk to Device Gateway'' e)), cfg, h)
     | None \<Rightarrow>
         (let h0 = [''user-agent'' \<mapsto> ''fioup/'' @ ''/1.0.0'', HeaderKeyTag \<mapsto> GetTag cfg];
              h1 = (case apps of None \<Rightarrow> h0 | Some as \<Rightarrow> h0(HeaderKeyApps \<mapsto> join '','' as));
              h2 = (if targetID \<noteq> '''' then h1(HeaderKeyTarget \<mapsto> targetID) else h1);
              sota = GetStorageDir cfg;
              gw = \<lparr>BaseURL = url_text (GetServerBaseURL cfg), Headers = h2,
                    lastNetInfoFile = path_join [sota, ''.last-netinfo''],
                    lastSotaFile = path_join [sota, ''.last-sota''], sotaToReport = None,
                    lastHwinfoFile = path_join [sota, ''.last-hwinfo''], hwinfoToReport = None,
                    lastAppStatesFile = path_join [sota, ''.last-app-states''], lastAppStates = []\<rparr>;
              h = cleanupLastStateIfRequire E cfg gw h;
              (gw, h) = initSota E (tomlConfig cfg) gw h
          in case initHwinfo E gw h of
               (Panicked, gw, h) \<Rightarrow> (Panicked, cfg, h)
             | (Ret _, gw, h) \<Rightarrow>
                 (let (gw, h) = initAppStateReporter E gw h
                  in (Ret (Inr gw), SetClientForProxy cfg, h))))"

section \<open>What the calls leave alone\<close>

lemma Get_frame [host_frame]:
  "Get E c p h = (r, h') \<Longrightarrow> fs h' = fs h \<and> report_events h' = report_events h
     \<and> installed_versions h' = installed_versions h"
  by (auto simp: Get_def dest: http_frame)

lemma Put_frame [host_frame]:
  "Put E c p d h = (r, h') \<Longrightarrow> fs h' = fs h \<and> report_events h' = report_events h
     \<and> installed_versions h' = installed_versions h \<and> (\<exists>q. reqs h' = reqs h @ [q])"
  by (auto simp: Put_def dest: http_frame)

lemma Post_frame [host_frame]:
  "Post E c p d h = (r, h') \<Longrightarrow> fs h' = fs h \<and> report_events h' = report_events h
     \<and> installed_versions h' = installed_versions h \<and> (\<exists>q. reqs h' = reqs h @ [q])"
  by (auto simp: Post_def dest: http_frame)

lemma uploadNetInfo_db: "uploadNetInfo E c h = (r, h') \<Longrightarrow>
    report_events h' = report_events h \<and> installed_versions h' = installed_versions h
    \<and> length (reqs h') \<le> Suc (length (reqs h))"
  by (auto simp: uploadNetInfo_def Let_def split: sum.splits outcome.splits prod.splits if_splits
      dest!: read_file_frame Put_frame write_file_frame)

lemma uploadSotaToml_db: "uploadSotaToml E c h = (r, c', h') \<Longrightarrow>
    report_events h' = report_events h \<and> installed_versions h' = installed_versions h"
  by (auto simp: uploadSotaToml_def Let_def split: sum.splits option.splits prod.splits if_splits
      dest!: Put_frame write_file_frame)

lemma uploadHwinfo_db: "uploadHwinfo E c h = (r, c', h') \<Longrightarrow>
    report_events h' = report_events h \<and> installed_versions h' = installed_versions h"
  by (auto simp: uploadHwinfo_def Let_def split: sum.splits option.splits prod.splits if_splits
      dest!: http_frame write_file_frame)

lemma PutSysInfo_db: "PutSysInfo E c h = (r, c', h') \<Longrightarrow>
    report_events h' = report_events h \<and> installed_versions h' = installed_versions h"
  by (auto simp: PutSysInfo_def Let_def split: outcome.splits prod.splits
      dest!: uploadNetInfo_db uploadSotaToml_db uploadHwinfo_db)

lemma ReportAppStates_db: "ReportAppStates E c h = (r, c', h') \<Longrightarrow>
    report_events h' = report_events h \<and> installed_versions h' = installed_versions h"
  by (auto simp: ReportAppStates_def Let_def split: sum.splits prod.splits if_splits
      dest!: Post_frame write_file_frame)

section \<open>The contract of a report that is sent once\<close>

text \<open>
  The configuration and the hardware information share one protocol: what is to be sent is kept in
  the client until the gateway has taken it, and is never sent again after that.
\<close>

locale pending_report =
  fixes upload :: "gw_client \<Rightarrow> 'w host \<Rightarrow> goerr option \<times> gw_client \<times> 'w host"
    and pending :: "gw_client \<Rightarrow> content option"
  assumes quiet: "pending c = None \<Longrightarrow> upload c h = (None, c, h)"
    and sends: "pending c = Some d \<Longrightarrow> upload c h = (e, c', h') \<Longrightarrow>
      \<exists>q. reqs h' = reqs h @ [q] \<and> q_body q = Some d"
    and kept: "upload c h = (Some err, c', h') \<Longrightarrow> c' = c"
    and taken: "upload c h = (None, c', h') \<Longrightarrow> pending c' = None"
begin

lemma at_most_one: "upload c h = (e, c', h') \<Longrightarrow> length (reqs h') \<le> Suc (length (reqs h))"
  by (cases "pending c") (auto simp: quiet dest: sends)

lemma sent_once:
  assumes "upload c h = (None, c', h')"
  shows "upload c' h2 = (None, c', h2)"
  by (rule quiet) (rule taken [OF assms])

lemma retried:
  assumes "upload c h = (Some err, c', h')" and "upload c' h2 = (e, c'', h3)"
  shows "\<exists>d q. pending c = Some d \<and> reqs h3 = reqs h2 @ [q] \<and> q_body q = Some d"
proof -
  have "pending c \<noteq> None" using assms(1) quiet by fastforce
  then obtain d where "pending c = Some d" by blast
  with assms kept sends show ?thesis by metis
qed

end

interpretation sota: pending_report "uploadSotaToml E" sotaToReport
  by unfold_locales
    (auto simp: uploadSotaToml_def Put_def Let_def split: option.splits sum.splits prod.splits if_splits
      dest!: http_frame write_file_frame)

interpretation hwinfo: pending_report "uploadHwinfo E" hwinfoToReport
  by unfold_locales
    (auto simp: uploadHwinfo_def Let_def split: option.splits sum.splits prod.splits if_splits
      dest!: http_frame write_file_frame)

lemma uploadSotaToml_hw: "uploadSotaToml E c h = (e, c', h') \<Longrightarrow> hwinfoToReport c' = hwinfoToReport c
    \<and> lastNetInfoFile c' = lastNetInfoFile c"
  by (auto simp: uploadSotaToml_def Let_def split: option.splits sum.splits prod.splits if_splits)

lemma uploadHwinfo_sota: "uploadHwinfo E c h = (e, c', h') \<Longrightarrow> sotaToReport c' = sotaToReport c
    \<and> lastNetInfoFile c' = lastNetInfoFile c"
  by (auto simp: uploadHwinfo_def Let_def split: option.splits sum.splits prod.splits if_splits)

lemma join_err_None [simp]: "join_err a b = None \<longleftrightarrow> a = None \<and> b = None"
  by (auto simp: join_err_def split: option.splits)

text \<open>The network information that the gateway has: what the file of the last report holds.\<close>

definition net_info_reported :: "'w env \<Rightarrow> gw_client \<Rightarrow> 'w host \<Rightarrow> bool" where
  "net_info_reported E c h =
    (case (x_Hostname E (ext h), ipInfo E (ext h)) of
       (Inr host, Ret (Inr (ip, mac))) \<Rightarrow>
         fst (read_file E (lastNetInfoFile c) h) = Inr (JsonDoc (net_info_json host mac ip))
     | _ \<Rightarrow> False)"

lemma uploadNetInfo_quiet:
  "net_info_reported E c h \<Longrightarrow> uploadNetInfo E c h = (Ret None, snd (read_file E (lastNetInfoFile c) h))"
  by (auto simp: net_info_reported_def uploadNetInfo_def Let_def
      split: sum.splits outcome.splits prod.splits)

section \<open>Lemmas on the states of the apps\<close>

lemma app_states_loop_distinct:
  "distinct (map fst m) \<Longrightarrow> distinct (map fst (app_states_loop s as m))"
  by (induction s as m rule: app_states_loop.induct) (auto simp: distinct_update split: option.splits)

lemma getAppStates_distinct: "getAppStates E w = Inr m \<Longrightarrow> distinct (map fst m)"
  by (auto simp: getAppStates_def app_states_loop_distinct split: sum.splits)

lemma foldl_unhealthy:
  "foldl (\<lambda>st srv. if P srv then bad else st) s0 xs = (if \<exists>x \<in> set xs. P x then bad else s0)"
  by (induction xs arbitrary: s0) auto

lemma app_health_eq:
  "app_health srvs =
    (if srvs \<noteq> [] \<and> (\<forall>s \<in> set srvs. s_State s \<noteq> ''not created'' \<and> s_Health s \<noteq> ''unhealthy'')
     then ''healthy'' else ''unhealthy'')"
  unfolding app_health_def foldl_unhealthy by (cases srvs) auto

lemma same_keys:
  assumes "distinct (map fst a)" "distinct (map fst b)" "length a = length b" "fst ` set a \<subseteq> fst ` set b"
  shows "fst ` set a = fst ` set b"
proof (rule card_subset_eq)
  show "card (fst ` set a) = card (fst ` set b)"
    using assms(1-3) by (metis distinct_card length_map list.set_map)
qed (use assms(4) in auto)

section \<open>Properties\<close>



text \<open>
  The states of the apps are posted exactly when they differ from the last ones reported (in
  the sense of \<open>areAppStatesEqual\<close>); on success the posted states become the last ones, so the
  same states are not posted again, and on every error the client is left as it was, so that the
  report is tried again.
\<close>
theorem ReportAppStates_on_change:
  assumes "ReportAppStates E c h = (e, c', h')" and "getAppStates E (ext h) = Inr cur"
  shows "(if areAppStatesEqual cur (lastAppStates c)
      then e = None \<and> c' = c \<and> h' = h
      else (\<exists>q. reqs h' = reqs h @ [q] \<and> q_method q = POST
              \<and> q_body q = Some (JsonDoc (app_states_report E (ext h) cur)))
        \<and> (e = None \<longrightarrow> c' = c\<lparr>lastAppStates := cur\<rparr>) \<and> (e \<noteq> None \<longrightarrow> c' = c \<and> fs h' = fs h))
    \<and> (e = None \<longrightarrow> areAppStatesEqual cur (lastAppStates c'))"
proof -
  have refl: "areAppStatesEqual cur cur"
    using getAppStates_distinct [OF assms(2)] by (auto simp: areAppStatesEqual_def list_all_iff)
  show ?thesis
    using assms refl
    by (auto simp: ReportAppStates_def Post_def Let_def split: if_splits sum.splits prod.splits
        dest!: http_frame write_file_frame)
qed

theorem ReportAppStates_on_change_witness:
  defines "E \<equiv> (undefined :: unit env)\<lparr>x_CheckAppsStatus := \<lambda>u opts w. Inr ((undefined :: apps_status)\<lparr>as_Apps :=
       [\<lparr>ai_Name = ''a'', ai_Ref = ''r/a@1'', ai_Digest = ''d''\<rparr>], as_Running := \<lambda>d. Some []\<rparr>),
     x_now := \<lambda>w. ''now'', x_UrlJoin := \<lambda>b p. b @ p, x_write := \<lambda>p d w. (None, w),
     x_http := \<lambda>q w. (Inr \<lparr>StatusCode = 200, Body = Raw ''''\<rparr>, w)\<rparr>"
  defines "h \<equiv> \<lparr>ext = (), fs = Map.empty, report_events = None, installed_versions = None, reqs = []\<rparr>"
  shows "\<exists>c' h'. ReportAppStates E ((undefined :: gw_client)\<lparr>lastAppStates := []\<rparr>) h = (None, c', h')
     \<and> (\<exists>q. reqs h' = [q] \<and> q_method q = POST)"
proof -
  have g: "getAppStates E (ext h) = Inr [(''a'', \<lparr>st_Services = [], st_State = ''unhealthy'', st_Uri = ''r/a@1''\<rparr>)]"
    by (simp add: getAppStates_def E_def app_health_def)
  have "\<exists>c' h'. ReportAppStates E ((undefined :: gw_client)\<lparr>lastAppStates := []\<rparr>) h = (None, c', h')"
    using g by (auto simp: ReportAppStates_def areAppStatesEqual_def Post_def http_def write_file_def E_def h_def)
  then obtain c' h' where r: "ReportAppStates E ((undefined :: gw_client)\<lparr>lastAppStates := []\<rparr>) h = (None, c', h')"
    by blast
  with ReportAppStates_on_change [OF r g] show ?thesis
    by (auto simp: areAppStatesEqual_def h_def)
qed

text \<open>
  Two reports count as equal exactly when they list the same apps with the same overall state
  and the same number of services. In particular the URI of an app, and the state, health and
  image of its services, are not looked at.
\<close>
theorem areAppStatesEqual_iff:
  assumes "distinct (map fst a)" and "distinct (map fst b)"
  shows "areAppStatesEqual a b \<longleftrightarrow>
    fst ` set a = fst ` set b
    \<and> (\<forall>k x y. map_of a k = Some x \<and> map_of b k = Some y \<longrightarrow>
         st_State x = st_State y \<and> length (st_Services x) = length (st_Services y))"
proof
  assume eq: "areAppStatesEqual a b"
  then have len: "length a = length b" by (simp add: areAppStatesEqual_def split: if_splits)
  have el: "\<exists>y. map_of b k = Some y \<and> st_State x = st_State y \<and> length (st_Services x) = length (st_Services y)"
    if "(k, x) \<in> set a" for k x
    using eq that by (fastforce simp: areAppStatesEqual_def list_all_iff split: if_splits option.splits)
  have "fst ` set a \<subseteq> fst ` set b" using el by (force dest: map_of_SomeD)
  from same_keys [OF assms len this] show "fst ` set a = fst ` set b
    \<and> (\<forall>k x y. map_of a k = Some x \<and> map_of b k = Some y \<longrightarrow>
         st_State x = st_State y \<and> length (st_Services x) = length (st_Services y))"
    using el by (fastforce dest: map_of_SomeD)
next
  assume h: "fst ` set a = fst ` set b
    \<and> (\<forall>k x y. map_of a k = Some x \<and> map_of b k = Some y \<longrightarrow>
         st_State x = st_State y \<and> length (st_Services x) = length (st_Services y))"
  then have "length a = length b"
    using assms by (metis distinct_card length_map list.set_map)
  moreover have "case map_of b k of None \<Rightarrow> False
      | Some y \<Rightarrow> \<not> (st_State x \<noteq> st_State y \<or> length (st_Services x) \<noteq> length (st_Services y))"
    if "(k, x) \<in> set a" for k x
  proof -
    have "k \<in> fst ` set b" using h that by force
    then obtain y where "map_of b k = Some y" by (metis weak_map_of_SomeI imageE prod.collapse)
    with h that assms(1) show ?thesis by auto
  qed
  ultimately show "areAppStatesEqual a b" by (auto simp: areAppStatesEqual_def list_all_iff)
qed

theorem areAppStatesEqual_iff_witness:
  "areAppStatesEqual [(''app'', \<lparr>st_Services = [], st_State = ''healthy'', st_Uri = ''r/app@1''\<rparr>)]
     [(''app'', \<lparr>st_Services = [], st_State = ''healthy'', st_Uri = ''r/app@2''\<rparr>)]"
  by (subst areAppStatesEqual_iff) auto

text \<open>
  \<open>scrubHwinfo\<close> only logs an output that is no JSON object, and then the type assertion on its
  children panics.
\<close>
lemma scrubHwinfo_not_object:
  "scrubHwinfo (Raw s) = None" "scrubHwinfo (JsonDoc (JArr js)) = None"
  by (simp_all add: scrubHwinfo_def)

end
