(* ===== verification/Repo.thy ===== *)
theory Repo
  imports GwClient
begin

text \<open>
  \<open>pkg/target/plain_repo.go\<close>, \<open>tuf_repo.go\<close> and \<open>repo.go\<close>: the two ways to obtain the list of
  targets, from the \<open>targets.json\<close> of the device gateway or from the TUF client, behind one
  interface. A target is taken when its version is a number, it is meant for this hardware and
  each of its apps has a reference that parses and carries the app's own name.
\<close>

section \<open>The targets file\<close>

record custom =
  cVersion :: string
  cApps :: "(string \<times> string) list"
  cArch :: string
  cHardwareID :: "string list"

record signed =
  sgTargets :: "(string \<times> custom) list"
  sgVersion :: int

record targets_file =
  Signatures :: "json option"
  Signed :: signed

definition zero_custom :: custom where
  "zero_custom = \<lparr>cVersion = '''', cApps = [], cArch = '''', cHardwareID = []\<rparr>"

definition zero_file :: targets_file where
  "zero_file = \<lparr>Signatures = None, Signed = \<lparr>sgTargets = [], sgVersion = 0\<rparr>\<rparr>"

definition set_uri_field :: "string \<Rightarrow> json \<Rightarrow> string \<Rightarrow> string \<times> bool" where
  "set_uri_field k v u = (if key_is ''uri'' k then dec_str v u else (u, True))"

definition set_custom_field :: "string \<Rightarrow> json \<Rightarrow> custom \<Rightarrow> custom \<times> bool" where
  "set_custom_field k v c =
    (if key_is ''version'' k then put (\<lambda>x. c\<lparr>cVersion := x\<rparr>) (dec_str v (cVersion c))
     else if key_is ''docker_compose_apps'' k then
       put (\<lambda>x. c\<lparr>cApps := x\<rparr>) (dec_map (dec_struct set_uri_field) '''' v (cApps c))
     else if key_is ''arch'' k then put (\<lambda>x. c\<lparr>cArch := x\<rparr>) (dec_str v (cArch c))
     else if key_is ''hardwareIds'' k then
       put (\<lambda>x. c\<lparr>cHardwareID := x\<rparr>) (dec_slice dec_str '''' v (cHardwareID c))
     else (c, True))"

definition decode_custom :: "json \<Rightarrow> custom \<Rightarrow> custom \<times> bool" where
  "decode_custom = dec_struct set_custom_field"

text \<open>The metadata of a target holds nothing but its custom part.\<close>

definition set_metadata_field :: "string \<Rightarrow> json \<Rightarrow> custom \<Rightarrow> custom \<times> bool" where
  "set_metadata_field k v c = (if key_is ''custom'' k then decode_custom v c else (c, True))"

definition set_signed_field :: "string \<Rightarrow> json \<Rightarrow> signed \<Rightarrow> signed \<times> bool" where
  "set_signed_field k v s =
    (if key_is ''targets'' k then
       put (\<lambda>x. s\<lparr>sgTargets := x\<rparr>) (dec_map (dec_struct set_metadata_field) zero_custom v (sgTargets s))
     else if key_is ''version'' k then put (\<lambda>x. s\<lparr>sgVersion := x\<rparr>) (dec_int v (sgVersion s))
     else (s, True))"

definition set_file_field :: "string \<Rightarrow> json \<Rightarrow> targets_file \<Rightarrow> targets_file \<times> bool" where
  "set_file_field k v f =
    (if key_is ''signatures'' k then (f\<lparr>Signatures := (if v = JNull then None else Some v)\<rparr>, True)
     else if key_is ''signed'' k then
       put (\<lambda>x. f\<lparr>Signed := x\<rparr>) (dec_struct set_signed_field v (Signed f))
     else (f, True))"

definition unmarshal_file :: "content \<Rightarrow> targets_file result" where
  "unmarshal_file c =
    (case c of
       Raw s \<Rightarrow> Inl (ErrorString ''invalid character'')
     | JsonDoc j \<Rightarrow>
         (case dec_struct set_file_field j zero_file of
            (f, True) \<Rightarrow> Inr f
          | (f, False) \<Rightarrow> Inl (ErrorString ''json: cannot unmarshal'')))"

section \<open>Taking a target\<close>

fun hw_match :: "string \<Rightarrow> string list \<Rightarrow> bool" where
  "hw_match hw [] = False"
| "hw_match hw (i # ids) = (if i = hw then True else hw_match hw ids)"

text \<open>The loop over the apps of one target; \<open>None\<close> when it breaks off and the target is invalid.\<close>

fun collect_apps :: "'w env \<Rightarrow> (string \<times> string) list \<Rightarrow> app list \<Rightarrow> app list option" where
  "collect_apps E [] apps = Some apps"
| "collect_apps E ((name, uri) # rest) apps =
     (case x_ParseAppRef E uri of
        Inl err \<Rightarrow> None
      | Inr ref \<Rightarrow>
          if r_Name ref \<noteq> name then None
          else collect_apps E rest (apps @ [\<lparr>aName = name, aURI = uri\<rparr>]))"

definition plain_target :: "'w env \<Rightarrow> 'w \<Rightarrow> string \<Rightarrow> string \<times> custom \<Rightarrow> target option" where
  "plain_target E w hw nc =
    (let (name, c) = nc
     in case atoi (cVersion c) of
          (_, Some err) \<Rightarrow> None
        | (version, None) \<Rightarrow>
            if length (cHardwareID c) = 0 then None
            else if \<not> hw_match hw (cHardwareID c) then None
            else map_option (\<lambda>apps. \<lparr>tID = name, tVersion = version, tApps = apps\<rparr>)
                   (collect_apps E (range_map E w (cApps c)) []))"

definition tuf_target :: "'w env \<Rightarrow> 'w \<Rightarrow> string \<Rightarrow> string \<times> json \<Rightarrow> target option" where
  "tuf_target E w hw nj =
    (let (name, j) = nj
     in case decode_custom j zero_custom of
          (_, False) \<Rightarrow> None
        | (c, True) \<Rightarrow>
            if length (cHardwareID c) = 0 then None
            else if \<not> hw_match hw (cHardwareID c) then None
            else case atoi (cVersion c) of
              (_, Some err) \<Rightarrow> None
            | (version, None) \<Rightarrow>
                map_option (\<lambda>apps. \<lparr>tID = name, tVersion = version, tApps = apps\<rparr>)
                  (collect_apps E (range_map E w (cApps c)) []))"

section \<open>The plain repository\<close>

record plain_repo =
  p_targetsFilepath :: string
  p_targets :: targets
  p_hardwareID :: string
  p_version :: int

definition TargetsResourcePath :: string where
  "TargetsResourcePath = ''/repo/targets.json''"

definition NewPlainRepo :: "string \<Rightarrow> string \<Rightarrow> plain_repo" where
  "NewPlainRepo filepath hw =
    \<lparr>p_targetsFilepath = filepath, p_targets = [], p_hardwareID = hw, p_version = 0\<rparr>"

definition plain_loadTargets :: "'w env \<Rightarrow> content \<Rightarrow> 'w \<Rightarrow> plain_repo \<Rightarrow> goerr option \<times> plain_repo" where
  "plain_loadTargets E data w r =
    (case unmarshal_file data of
       Inl err \<Rightarrow> (Some (errorf ''failed to unmarshal 'targets.json' read from file'' err), r)
     | Inr f \<Rightarrow>
         (None, r\<lparr>p_targets := List.map_filter (plain_target E w (p_hardwareID r)) (range_map E w (sgTargets (Signed f))),
                  p_version := sgVersion (Signed f)\<rparr>))"

definition plain_update ::
  "'w env \<Rightarrow> gw_client \<Rightarrow> plain_repo \<Rightarrow> 'w host \<Rightarrow> goerr option \<times> plain_repo \<times> 'w host" where
  "plain_update E c r h =
    (case Get E c TargetsResourcePath h of
       (Inl err, h) \<Rightarrow> (Some (errorf ''failed to get targets from Device Gateway'' err), r, h)
     | (Inr res, h) \<Rightarrow>
         if StatusCode res \<noteq> 200
         then (Some (ErrorString (''unexpected status code HTTP_'' @ itoa (StatusCode res) @ '' from ''
                 @ TargetsResourcePath @ '': '' @ content_text (Body res))), r, h)
         else case unmarshal_file (Body res) of
           Inl err \<Rightarrow>
             (Some (errorf ''failed to unmarshal 'targets.json' received from Device Gateway'' err), r, h)
         | Inr f \<Rightarrow>
             (case write_file E (p_targetsFilepath r) (Body res) h of
                (Some err, h) \<Rightarrow> (Some (errorf ''failed to write obtained targets to file'' err), r, h)
              | (None, h) \<Rightarrow>
                  (let (e, r) = plain_loadTargets E (Body res) (ext h) r in (e, r, h))))"

definition plain_readTargets ::
  "'w env \<Rightarrow> plain_repo \<Rightarrow> 'w host \<Rightarrow> goerr option \<times> plain_repo \<times> 'w host" where
  "plain_readTargets E r h =
    (case read_file E (p_targetsFilepath r) h of
       (Inl err, h) \<Rightarrow> (Some (errorf ''failed to read targets from file'' err), r, h)
     | (Inr b, h) \<Rightarrow> (let (e, r) = plain_loadTargets E b (ext h) r in (e, r, h)))"

text \<open>An error comes with the targets \<open>nil\<close> and the version -1.\<close>

definition plain_LoadTargets ::
  "'w env \<Rightarrow> gw_client \<Rightarrow> bool \<Rightarrow> plain_repo \<Rightarrow> 'w host
   \<Rightarrow> (targets \<times> int) result \<times> plain_repo \<times> 'w host" where
  "plain_LoadTargets E c update r h =
    (case (if update then plain_update E c r h else plain_readTargets E r h) of
       (Some err, r, h) \<Rightarrow> (Inl err, r, h)
     | (None, r, h) \<Rightarrow> (Inr (p_targets r, p_version r), r, h))"

section \<open>The TUF repository\<close>

record tuf_repo =
  t_targets :: targets
  t_hardwareID :: string
  t_version :: int

definition NewTufRepo :: "'w env \<Rightarrow> 'w \<Rightarrow> string \<Rightarrow> tuf_repo result" where
  "NewTufRepo E w hw =
    (case x_TufNew E w of
       Some err \<Rightarrow> Inl (errorf ''failed to create TUF HttpClient to talk to TUF repo'' err)
     | None \<Rightarrow> Inr \<lparr>t_targets = [], t_hardwareID = hw, t_version = 0\<rparr>)"

definition tuf_loadTargets :: "'w env \<Rightarrow> 'w \<Rightarrow> tuf_repo \<Rightarrow> goerr option \<times> tuf_repo" where
  "tuf_loadTargets E w r =
    (None, r\<lparr>t_targets :=
       List.map_filter (tuf_target E w (t_hardwareID r)) (range_map E w (x_TufTargets E w))\<rparr>)"

definition tuf_update :: "'w env \<Rightarrow> tuf_repo \<Rightarrow> 'w host \<Rightarrow> goerr option \<times> tuf_repo \<times> 'w host" where
  "tuf_update E r h =
    (case x_TufRefresh E (ext h) of
       (Some err, w) \<Rightarrow> (Some (errorf ''failed to update TUF metadata'' err), r, h\<lparr>ext := w\<rparr>)
     | (None, w) \<Rightarrow> (let (e, r) = tuf_loadTargets E w r in (e, r, h\<lparr>ext := w\<rparr>)))"

definition tuf_LoadTargets ::
  "'w env \<Rightarrow> bool \<Rightarrow> tuf_repo \<Rightarrow> 'w host \<Rightarrow> (targets \<times> int) result \<times> tuf_repo \<times> 'w host" where
  "tuf_LoadTargets E update r h =
    (case (if update then tuf_update E r h
           else let (e, r) = tuf_loadTargets E (ext h) r in (e, r, h)) of
       (Some err, r, h) \<Rightarrow> (Inl err, r, h)
     | (None, r, h) \<Rightarrow> (Inr (t_targets r, t_version r), r, h))"

section \<open>The interface\<close>

text \<open>The Go interface \<open>Repo\<close>: a value of one of the two types, and the dispatch of its method.\<close>

datatype repo = PlainRepo plain_repo | TufRepo tuf_repo

fun LoadTargets ::
  "'w env \<Rightarrow> gw_client \<Rightarrow> bool \<Rightarrow> repo \<Rightarrow> 'w host \<Rightarrow> (targets \<times> int) result \<times> repo \<times> 'w host" where
  "LoadTargets E c update (PlainRepo r) h =
     (let (res, r, h) = plain_LoadTargets E c update r h in (res, PlainRepo r, h))"
| "LoadTargets E c update (TufRepo r) h =
     (let (res, r, h) = tuf_LoadTargets E update r h in (res, TufRepo r, h))"

section \<open>Lemmas on taking a target\<close>

lemma hw_match_iff [simp]: "hw_match hw ids \<longleftrightarrow> hw \<in> set ids"
  by (induction ids) auto

text \<open>An app may be taken when its reference parses to its own name.\<close>

definition app_ok :: "'w env \<Rightarrow> string \<Rightarrow> string \<Rightarrow> bool" where
  "app_ok E name uri \<longleftrightarrow> (\<exists>ref. x_ParseAppRef E uri = Inr ref \<and> r_Name ref = name)"

lemma collect_apps_eq:
  "collect_apps E nus apps =
    (if \<forall>(n, u) \<in> set nus. app_ok E n u
     then Some (apps @ map (\<lambda>(n, u). \<lparr>aName = n, aURI = u\<rparr>) nus) else None)"
  by (induction E nus apps rule: collect_apps.induct) (auto simp: app_ok_def split: sum.splits)

definition takes :: "'w env \<Rightarrow> string \<Rightarrow> custom \<Rightarrow> bool" where
  "takes E hw c \<longleftrightarrow>
     snd (atoi (cVersion c)) = None \<and> hw \<in> set (cHardwareID c) \<and> (\<forall>(n, u) \<in> set (cApps c). app_ok E n u)"

definition taken_target :: "'w env \<Rightarrow> 'w \<Rightarrow> string \<Rightarrow> custom \<Rightarrow> target" where
  "taken_target E w name c =
     \<lparr>tID = name, tVersion = fst (atoi (cVersion c)),
      tApps = map (\<lambda>(n, u). \<lparr>aName = n, aURI = u\<rparr>) (range_map E w (cApps c))\<rparr>"

lemma plain_target_eq:
  assumes "map_order_ok E" and "distinct (map fst (cApps c))"
  shows "plain_target E w hw (name, c) = (if takes E hw c then Some (taken_target E w name c) else None)"
  using set_range_map [OF assms, of w]
  by (cases "atoi (cVersion c)")
    (auto simp: plain_target_def takes_def taken_target_def collect_apps_eq split: option.splits)

lemma tuf_target_eq:
  "tuf_target E w hw (name, j) =
     (if snd (decode_custom j zero_custom)
      then plain_target E w hw (name, fst (decode_custom j zero_custom)) else None)"
  by (cases "decode_custom j zero_custom")
    (auto simp: tuf_target_def plain_target_def split: prod.splits option.splits bool.splits)

text \<open>Decoded customs and files have maps without repeated keys.\<close>

lemma set_custom_field_distinct:
  "distinct (map fst (cApps c)) \<Longrightarrow> distinct (map fst (cApps (fst (set_custom_field k v c))))"
  by (auto simp: set_custom_field_def put_def dec_map_distinct)

lemma dec_fields_inv:
  assumes "\<And>k v s. P s \<Longrightarrow> P (fst (f k v s))" and "P s"
  shows "P (fst (dec_fields f kvs s))"
  using assms(2)
proof (induction kvs arbitrary: s)
  case (Cons kv kvs)
  obtain k v where kv: "kv = (k, v)" by fastforce
  obtain s' b where f: "f k v s = (s', b)" by fastforce
  have "P s'" using assms(1) [OF Cons.prems, of k v] f by simp
  with Cons.IH [of s'] show ?case by (cases "dec_fields f kvs s'") (simp add: kv f)
qed simp

lemma dec_struct_inv:
  "(\<And>k v s. P s \<Longrightarrow> P (fst (f k v s))) \<Longrightarrow> P s \<Longrightarrow> P (fst (dec_struct f j s))"
  by (cases j) (auto intro: dec_fields_inv)

lemma decode_custom_distinct:
  "distinct (map fst (cApps c)) \<Longrightarrow> distinct (map fst (cApps (fst (decode_custom j c))))"
  unfolding decode_custom_def
  by (rule dec_struct_inv [where P = "\<lambda>c. distinct (map fst (cApps c))"]) (rule set_custom_field_distinct)

lemma set_metadata_field_distinct:
  "distinct (map fst (cApps c)) \<Longrightarrow> distinct (map fst (cApps (fst (set_metadata_field k v c))))"
  by (simp add: set_metadata_field_def decode_custom_distinct)

lemma set_update: "set (AList.update k v m) \<subseteq> insert (k, v) (set m)"
  by (induction m) auto

lemma dec_map_fields_all:
  assumes "\<And>j. P (fst (dec j zero))" and "\<forall>(k, a) \<in> set m. P a"
  shows "\<forall>(k, a) \<in> set (fst (dec_map_fields dec zero kvs m)). P a"
  using assms(2)
proof (induction kvs arbitrary: m)
  case (Cons kv kvs)
  obtain k v where kv: "kv = (k, v)" by fastforce
  obtain a b where d: "dec v zero = (a, b)" by fastforce
  have "P a" using assms(1) [of v] d by simp
  with Cons.prems have "\<forall>(k, a) \<in> set (AList.update k a m). P a"
    using set_update [of k a m] by fastforce
  from Cons.IH [OF this] show ?case by (simp add: kv d split: prod.splits)
qed simp

lemma dec_map_all:
  "(\<And>j. P (fst (dec j zero))) \<Longrightarrow> \<forall>(k, a) \<in> set m. P a
    \<Longrightarrow> \<forall>(k, a) \<in> set (fst (dec_map dec zero j m)). P a"
  by (cases j) (auto dest: dec_map_fields_all)

definition wf_entries :: "(string \<times> custom) list \<Rightarrow> bool" where
  "wf_entries m \<longleftrightarrow> distinct (map fst m) \<and> (\<forall>(k, c) \<in> set m. distinct (map fst (cApps c)))"

lemma metadata_distinct: "distinct (map fst (cApps (fst (dec_struct set_metadata_field j zero_custom))))"
  by (rule dec_struct_inv [where P = "\<lambda>c. distinct (map fst (cApps c))"])
    (simp_all add: set_metadata_field_distinct zero_custom_def)

lemma set_signed_field_wf:
  "wf_entries (sgTargets s) \<Longrightarrow> wf_entries (sgTargets (fst (set_signed_field k v s)))"
  using dec_map_all [of "\<lambda>c. distinct (map fst (cApps c))" "dec_struct set_metadata_field" zero_custom
      "sgTargets s" v, OF metadata_distinct]
  by (auto simp: set_signed_field_def put_def wf_entries_def dec_map_distinct)

lemma set_file_field_wf:
  "wf_entries (sgTargets (Signed f)) \<Longrightarrow> wf_entries (sgTargets (Signed (fst (set_file_field k v f))))"
  using dec_struct_inv [of "\<lambda>s. wf_entries (sgTargets s)" set_signed_field "Signed f" v, OF set_signed_field_wf]
  by (auto simp: set_file_field_def put_def)

lemma unmarshal_file_wf:
  assumes "unmarshal_file c = Inr f"
  shows "wf_entries (sgTargets (Signed f))"
proof -
  obtain j where "c = JsonDoc j" and f: "dec_struct set_file_field j zero_file = (f, True)"
    using assms by (auto simp: unmarshal_file_def split: content.splits prod.splits bool.splits)
  have "wf_entries (sgTargets (Signed (fst (dec_struct set_file_field j zero_file))))"
    by (rule dec_struct_inv [where P = "\<lambda>f. wf_entries (sgTargets (Signed f))"])
      (rule set_file_field_wf, assumption, simp add: zero_file_def wf_entries_def)
  with f show ?thesis by simp
qed

text \<open>What the loop over the targets returns.\<close>

lemma map_filter_takes:
  assumes "map_order_ok E" and "wf_entries m"
  shows "set (List.map_filter (plain_target E w hw) (range_map E w m)) =
    {taken_target E w name c |name c. (name, c) \<in> set m \<and> takes E hw c}"
proof -
  have "set (range_map E w m) = set m"
    using assms by (simp add: set_range_map wf_entries_def)
  moreover have "plain_target E w hw (name, c) = (if takes E hw c then Some (taken_target E w name c) else None)"
    if "(name, c) \<in> set m" for name c
    using that assms by (intro plain_target_eq) (auto simp: wf_entries_def)
  ultimately show ?thesis
    unfolding List.map_filter_def
    by (fastforce simp: image_iff split: if_splits)
qed

lemma taken_wf:
  assumes "map_order_ok E" and "distinct (map fst (cApps c))"
  shows "wf_target (taken_target E w name c)"
proof -
  have "mset (map fst (range_map E w (cApps c))) = mset (map fst (cApps c))"
    using mset_range_map [OF assms, of w] by simp
  then have "distinct (map fst (range_map E w (cApps c)))"
    using assms(2) mset_eq_imp_distinct_iff by blast
  moreover have "map aName (tApps (taken_target E w name c)) = map fst (range_map E w (cApps c))"
    by (simp add: taken_target_def case_prod_beta)
  ultimately show ?thesis by (simp add: wf_target_def)
qed

lemma taken_apps_ok:
  "map_order_ok E \<Longrightarrow> distinct (map fst (cApps c)) \<Longrightarrow> takes E hw c
    \<Longrightarrow> a \<in> set (tApps (taken_target E w name c)) \<Longrightarrow> app_ok E (aName a) (aURI a)"
  by (auto simp: taken_target_def takes_def set_range_map)

definition sound_target :: "'w env \<Rightarrow> target \<Rightarrow> bool" where
  "sound_target E t \<longleftrightarrow> wf_target t \<and> (\<forall>a \<in> set (tApps t). app_ok E (aName a) (aURI a))"

lemma loaded_sound:
  assumes "map_order_ok E" and "wf_entries m"
    and "t \<in> set (List.map_filter (plain_target E w hw) (range_map E w m))"
  shows "sound_target E t"
proof -
  from assms(3) map_filter_takes [OF assms(1,2)] obtain name c
    where c: "(name, c) \<in> set m" "takes E hw c" and t: "t = taken_target E w name c" by auto
  from c(1) assms(2) have d: "distinct (map fst (cApps c))" by (auto simp: wf_entries_def)
  show ?thesis
    unfolding sound_target_def t using taken_wf [OF assms(1) d] taken_apps_ok [OF assms(1) d c(2)] by simp
qed

lemma tuf_as_plain:
  assumes "map_order_ok E" and "tuf_target E w hw (name, j) = Some t"
  shows "sound_target E t"
proof -
  let ?c = "fst (decode_custom j zero_custom)"
  have d: "distinct (map fst (cApps ?c))"
    by (rule decode_custom_distinct) (simp add: zero_custom_def)
  with assms show ?thesis
    by (auto simp: tuf_target_eq plain_target_eq sound_target_def taken_wf split: if_splits
        dest: taken_apps_ok [OF assms(1) d])
qed

lemma map_filter_mem: "y \<in> set (List.map_filter f xs) \<Longrightarrow> \<exists>x \<in> set xs. f x = Some y"
  by (auto simp: List.map_filter_def)

lemma plain_loadTargets_cases:
  "plain_loadTargets E data w r = (None, r') \<Longrightarrow>
     \<exists>f. unmarshal_file data = Inr f \<and> p_version r' = sgVersion (Signed f)
       \<and> p_targets r' = List.map_filter (plain_target E w (p_hardwareID r)) (range_map E w (sgTargets (Signed f)))"
  by (auto simp: plain_loadTargets_def split: sum.splits)

lemma plain_loadTargets_hw: "plain_loadTargets E data w r = (e, r') \<Longrightarrow>
    p_hardwareID r' = p_hardwareID r \<and> p_targetsFilepath r' = p_targetsFilepath r"
  by (auto simp: plain_loadTargets_def split: sum.splits)

lemma read_file_kept: "read_file E p h = (Inr d, h') \<Longrightarrow> fs h' p = Some d"
  using read_file_Inr [of E p h d h'] read_file_frame [of E p h "Inr d" h'] by simp

lemma plain_LoadTargets_Inr:
  assumes "plain_LoadTargets E c u r h = (Inr (ts, v), r', h')"
  shows "\<exists>data w. plain_loadTargets E data w r = (None, r') \<and> ts = p_targets r' \<and> v = p_version r'
    \<and> fs h' (p_targetsFilepath r) = Some data"
  using assms
  by (cases u)
    (auto simp: plain_LoadTargets_def plain_update_def plain_readTargets_def
      split: prod.splits sum.splits option.splits if_splits
      dest!: write_file_ok dest: read_file_kept)

lemma plain_LoadTargets_frame:
  "plain_LoadTargets E c u r h = (res, r', h') \<Longrightarrow> p_hardwareID r' = p_hardwareID r
     \<and> report_events h' = report_events h \<and> installed_versions h' = installed_versions h"
  by (cases u)
    (auto simp: plain_LoadTargets_def plain_update_def plain_readTargets_def
      split: prod.splits sum.splits option.splits if_splits
      dest!: write_file_frame read_file_frame Get_frame plain_loadTargets_hw)

lemma tuf_LoadTargets_cases:
  "tuf_LoadTargets E u r h = (res, r', h') \<Longrightarrow>
     t_hardwareID r' = t_hardwareID r \<and> t_version r' = t_version r
     \<and> report_events h' = report_events h \<and> installed_versions h' = installed_versions h \<and> fs h' = fs h
     \<and> (\<forall>ts v. res = Inr (ts, v) \<longrightarrow> ts = t_targets r' \<and> v = t_version r
         \<and> ts = List.map_filter (tuf_target E (ext h') (t_hardwareID r)) (range_map E (ext h') (x_TufTargets E (ext h'))))"
  by (cases u)
    (auto simp: tuf_LoadTargets_def tuf_update_def tuf_loadTargets_def
      split: prod.splits option.splits)

section \<open>What a repository promises\<close>

text \<open>
  The contract of \<open>Repo\<close> that the check of an update relies on: what is loaded are well-formed
  targets whose apps carry the names of their references, loading keeps the hardware identifier
  and touches no table of the database.
\<close>

locale targets_repo =
  fixes E :: "'w env"
    and load :: "bool \<Rightarrow> 'r \<Rightarrow> 'w host \<Rightarrow> (targets \<times> int) result \<times> 'r \<times> 'w host"
    and hardware :: "'r \<Rightarrow> string"
  assumes loads_sound: "map_order_ok E \<Longrightarrow> load u r h = (Inr (ts, v), r', h') \<Longrightarrow> t \<in> set ts
      \<Longrightarrow> sound_target E t"
    and same_hardware: "load u r h = (res, r', h') \<Longrightarrow> hardware r' = hardware r"
    and same_tables: "load u r h = (res, r', h') \<Longrightarrow>
      report_events h' = report_events h \<and> installed_versions h' = installed_versions h"
begin

lemma selection_sound:
  assumes "map_order_ok E" and "load u r h = (Inr (ts, v), r', h')"
  shows "sound_target E (GetLatestTarget E w ts)" "sound_target E (GetTargetByVersion ts n)"
    "sound_target E (GetTargetByID ts i)"
proof -
  have all: "sound_target E t" if "t \<in> set ts \<or> t = UnknownTarget" for t
    using that loads_sound [OF assms] by (auto simp: sound_target_def UnknownTarget_def wf_target_def)
  show "sound_target E (GetLatestTarget E w ts)"
    using foldl_latest_mem all unfolding GetLatestTarget_def by blast
  show "sound_target E (GetTargetByVersion ts n)"
    using GetTargetByVersion_cases [of ts n] all by auto
  show "sound_target E (GetTargetByID ts i)"
    using GetTargetByID_cases [of ts i] all by auto
qed

lemma loads_wf:
  "map_order_ok E \<Longrightarrow> load u r h = (Inr (ts, v), r', h') \<Longrightarrow> \<forall>t \<in> set ts. wf_target t"
  using loads_sound by (auto simp: sound_target_def)

end

interpretation plain: targets_repo E "plain_LoadTargets E c" p_hardwareID
proof
  fix u r h ts v r' h' t
  assume "map_order_ok E" and l: "plain_LoadTargets E c u r h = (Inr (ts, v), r', h')" and "t \<in> set ts"
  with plain_LoadTargets_Inr [OF l] show "sound_target E t"
    by (auto dest!: plain_loadTargets_cases intro: loaded_sound dest: unmarshal_file_wf)
qed (auto dest: plain_LoadTargets_frame)

interpretation tuf: targets_repo E "tuf_LoadTargets E" t_hardwareID
proof
  fix u r h ts v r' h' t
  assume E: "map_order_ok E" and l: "tuf_LoadTargets E u r h = (Inr (ts, v), r', h')" and "t \<in> set ts"
  with tuf_LoadTargets_cases [OF l] show "sound_target E t"
    by (auto dest!: map_filter_mem intro: tuf_as_plain [OF E])
qed (auto dest: tuf_LoadTargets_cases)

fun repo_hardware :: "repo \<Rightarrow> string" where
  "repo_hardware (PlainRepo r) = p_hardwareID r"
| "repo_hardware (TufRepo r) = t_hardwareID r"

interpretation any_repo: targets_repo E "LoadTargets E c" repo_hardware
proof
  fix u r h ts v r' h' t
  assume E: "map_order_ok E" and l: "LoadTargets E c u r h = (Inr (ts, v), r', h')" and t: "t \<in> set ts"
  then show "sound_target E t"
    by (cases r) (auto split: prod.splits intro: plain.loads_sound [OF E] tuf.loads_sound [OF E])
next
  fix u r h res r' h'
  assume "LoadTargets E c u r h = (res, r', h')"
  then show "repo_hardware r' = repo_hardware r"
    by (cases r) (auto split: prod.splits dest: plain.same_hardware tuf.same_hardware)
next
  fix u r h res r' h'
  assume "LoadTargets E c u r h = (res, r', h')"
  then show "report_events h' = report_events h \<and> installed_versions h' = installed_versions h"
    by (cases r) (auto split: prod.splits dest: plain.same_tables tuf.same_tables)
qed

section \<open>The same metadata through both repositories\<close>

text \<open>The \<open>targets.json\<close> that carries given custom documents, as the TUF client hands them out.\<close>

definition file_doc :: "(string \<times> json) list \<Rightarrow> int \<Rightarrow> json" where
  "file_doc entries n =
    JObj [(''signatures'', JArr []),
          (''signed'', JObj [(''targets'', JObj (map (\<lambda>(name, j). (name, JObj [(''custom'', j)])) entries)),
                           (''version'', jint n)])]"

lemma dec_map_fields_new:
  "distinct (map fst m @ map fst kvs) \<Longrightarrow>
     dec_map_fields dec zero kvs m =
       (m @ map (\<lambda>(k, v). (k, fst (dec v zero))) kvs, \<forall>(k, v) \<in> set kvs. snd (dec v zero))"
  by (induction dec zero kvs m rule: dec_map_fields.induct) (auto simp: update_fresh split: prod.splits)

lemma dec_metadata: "dec_struct set_metadata_field (JObj [(''custom'', j)]) c = decode_custom j c"
  by (simp add: set_metadata_field_def key_is_def split: prod.splits)

lemma dec_targets:
  "distinct (map fst entries) \<Longrightarrow>
     dec_map (dec_struct set_metadata_field) zero_custom
       (JObj (map (\<lambda>(name, j). (name, JObj [(''custom'', j)])) entries)) []
     = (map (\<lambda>(name, j). (name, fst (decode_custom j zero_custom))) entries,
        \<forall>(name, j) \<in> set entries. snd (decode_custom j zero_custom))"
  by (subst dec_map.simps, subst dec_map_fields_new)
    (auto simp: o_def case_prod_beta' dec_metadata simp del: dec_struct.simps)

lemma unmarshal_file_doc:
  assumes "distinct (map fst entries)" and "unmarshal_file (JsonDoc (file_doc entries n)) = Inr f"
  shows "sgTargets (Signed f) = map (\<lambda>(name, j). (name, fst (decode_custom j zero_custom))) entries"
    and "\<forall>(name, j) \<in> set entries. snd (decode_custom j zero_custom)"
  using assms(2)
  by (auto simp: unmarshal_file_def file_doc_def set_file_field_def set_signed_field_def key_is_def zero_file_def
      lower_char_def put_def dec_targets [OF assms(1)] split: prod.splits bool.splits if_splits simp del: dec_map.simps)

lemma range_map_map:
  "range_map E w (map (\<lambda>(k, v). (k, g v)) m) = map (\<lambda>(k, v). (k, g v)) (range_map E w m)"
proof -
  have "map fst (map (\<lambda>(k, v). (k, g v)) m) = map fst m" by (simp add: case_prod_beta')
  moreover have "map_of (map (\<lambda>(k, v). (k, g v)) m) k = map_option g (map_of m k)" for k
    by (induction m) auto
  ultimately show ?thesis
    unfolding range_map_def \<open>map fst _ = _\<close>
    by (auto simp: List.map_filter_def option.map_comp o_def)
qed

lemma range_map_subset: "set (range_map E w m) \<subseteq> set m"
  by (auto simp: range_map_def List.map_filter_def dest: map_of_SomeD)

lemma map_filter_map: "List.map_filter f (map g xs) = List.map_filter (\<lambda>x. f (g x)) xs"
  by (simp add: List.map_filter_def filter_map o_def)

lemma map_filter_cong: "(\<And>x. x \<in> set xs \<Longrightarrow> f x = g x) \<Longrightarrow> List.map_filter f xs = List.map_filter g xs"
  by (simp add: List.map_filter_def cong: filter_cong)

lemma plain_update_other:
  assumes "Get E c t h = (res, h1)" and "write_file E p d h1 = (e, h')"
  shows "q \<noteq> p \<Longrightarrow> fs h' q = fs h q"
  using write_file_other [OF assms(2)] Get_frame [OF assms(1)] by simp

section \<open>Properties\<close>

text \<open>
  C20: a successful load of the plain repository, from the network or from disk, returns exactly
  the entries of the targets file that is on disk afterwards whose version is a number, which
  list this hardware, and all of whose apps have a reference that parses to the name of the app;
  each with its identifier, its version and its apps. The version returned is the file's.
\<close>
theorem plain_LoadTargets_exact:
  assumes "map_order_ok E" and "plain_LoadTargets E c u r h = (Inr (ts, v), r', h')"
  shows "\<exists>data f w. fs h' (p_targetsFilepath r) = Some data \<and> unmarshal_file data = Inr f
    \<and> v = sgVersion (Signed f)
    \<and> set ts = {taken_target E w name cst |name cst.
        (name, cst) \<in> set (sgTargets (Signed f)) \<and> takes E (p_hardwareID r) cst}"
proof -
  obtain data w where l: "plain_loadTargets E data w r = (None, r')" and ts: "ts = p_targets r'" "v = p_version r'"
    and disk: "fs h' (p_targetsFilepath r) = Some data"
    using plain_LoadTargets_Inr [OF assms(2)] by blast
  from plain_loadTargets_cases [OF l] obtain f where f: "unmarshal_file data = Inr f"
    "p_version r' = sgVersion (Signed f)"
    "p_targets r' = List.map_filter (plain_target E w (p_hardwareID r)) (range_map E w (sgTargets (Signed f)))"
    by blast
  have "set ts = {taken_target E w name cst |name cst.
        (name, cst) \<in> set (sgTargets (Signed f)) \<and> takes E (p_hardwareID r) cst}"
    using map_filter_takes [OF assms(1) unmarshal_file_wf [OF f(1)], of w "p_hardwareID r"] ts f(3) by simp
  then show ?thesis using disk f(1,2) ts by blast
qed

theorem plain_LoadTargets_exact_witness:
  defines "doc \<equiv> JsonDoc (file_doc
     [(''t-7'', JObj [(''version'', JStr ''7''), (''hardwareIds'', JArr [JStr ''hw'']),
        (''docker_compose_apps'', JObj [(''a'', JObj [(''uri'', JStr ''r/a@1'')])])])] 3)"
  defines "E \<equiv> (undefined :: unit env)\<lparr>x_map_order := \<lambda>ks w. ks, x_io := \<lambda>op w. (None, w),
     x_ParseAppRef := \<lambda>u. Inr \<lparr>r_Name = ''a'', r_String = u\<rparr>\<rparr>"
  defines "h \<equiv> \<lparr>ext = (), fs = [''f'' \<mapsto> doc], report_events = None, installed_versions = None, reqs = []\<rparr>"
  shows "\<exists>ts v r' h'. plain_LoadTargets E undefined False (NewPlainRepo ''f'' ''hw'') h = (Inr (ts, v), r', h') \<and> v = 3"
proof -
  have E: "x_map_order E ks w = ks" "x_io E op () = (None, ())" "x_ParseAppRef E u = Inr \<lparr>r_Name = ''a'', r_String = u\<rparr>"
    for ks w op u by (simp_all add: E_def)
  have m: "map_order_ok E" by (simp add: map_order_ok_def E)
  have i: "itoa 3 = ''3''" by (simp add: itoa_def nat_digits.simps digit_char_def)
  have a: "atoi ''3'' = (3, None)" using atoi_itoa [of 3] i by (simp add: int_min_def int_max_def)
  have u: "\<exists>f. unmarshal_file doc = Inr f \<and> sgVersion (Signed f) = 3"
    by (simp add: doc_def file_doc_def unmarshal_file_def set_file_field_def set_signed_field_def key_is_def
        zero_file_def lower_char_def put_def set_metadata_field_def decode_custom_def set_custom_field_def
        set_uri_field_def jint_def i a zero_custom_def)
  have "\<exists>ts v r' h'. plain_LoadTargets E undefined False (NewPlainRepo ''f'' ''hw'') h = (Inr (ts, v), r', h')"
    using u by (auto simp: plain_LoadTargets_def plain_readTargets_def read_file_def io_def E h_def NewPlainRepo_def
        plain_loadTargets_def Let_def)
  then obtain ts v r' h' where
    l: "plain_LoadTargets E undefined False (NewPlainRepo ''f'' ''hw'') h = (Inr (ts, v), r', h')" by blast
  have "fs h' ''f'' = Some doc"
    using l by (auto simp: plain_LoadTargets_def plain_readTargets_def NewPlainRepo_def h_def
        split: prod.splits sum.splits option.splits dest!: read_file_frame)
  with plain_LoadTargets_exact [OF m l] u have "v = 3" by (auto simp: NewPlainRepo_def)
  with l show ?thesis by blast
qed

text \<open>
  An update of the plain repository that fails leaves the repository as it was. The targets
  file is left alone too, unless the gateway answered 200 with a document that decodes and writing
  that file is what failed; no other file is touched in any case.
\<close>
theorem plain_update_failure:
  assumes "plain_LoadTargets E c True r h = (Inl err, r', h')"
  shows "r' = r \<and> (\<forall>p. p \<noteq> p_targetsFilepath r \<longrightarrow> fs h' p = fs h p)
    \<and> (fs h' = fs h \<or> (\<exists>res h1 f e. Get E c TargetsResourcePath h = (Inr res, h1) \<and> StatusCode res = 200
          \<and> unmarshal_file (Body res) = Inr f
          \<and> write_file E (p_targetsFilepath r) (Body res) h1 = (Some e, h')))"
  using assms
  by (auto simp: plain_LoadTargets_def plain_update_def plain_loadTargets_def
      split: prod.splits sum.splits option.splits if_splits
      dest: Get_frame plain_update_other)

theorem plain_update_failure_witness:
  defines "E \<equiv> (undefined :: unit env)\<lparr>x_UrlJoin := \<lambda>b p. b @ p,
     x_http := \<lambda>q w. (Inr \<lparr>StatusCode = 503, Body = Raw ''busy''\<rparr>, w)\<rparr>"
  defines "h \<equiv> \<lparr>ext = (), fs = [''f'' \<mapsto> Raw ''old''], report_events = None, installed_versions = None, reqs = []\<rparr>"
  shows "\<exists>err r' h'. plain_LoadTargets E undefined True (NewPlainRepo ''f'' ''hw'') h = (Inl err, r', h')
     \<and> fs h' ''f'' = Some (Raw ''old'')"
proof -
  let ?r = "NewPlainRepo ''f'' ''hw''"
  have g: "\<exists>h1. Get E undefined TargetsResourcePath h = (Inr \<lparr>StatusCode = 503, Body = Raw ''busy''\<rparr>, h1)"
    by (simp add: Get_def http_def E_def)
  then have "\<exists>err r' h'. plain_LoadTargets E undefined True ?r h = (Inl err, r', h')"
    by (auto simp: plain_LoadTargets_def plain_update_def)
  then obtain err r' h' where l: "plain_LoadTargets E undefined True ?r h = (Inl err, r', h')" by blast
  from plain_update_failure [OF l] g have "fs h' = fs h" by auto
  with l show ?thesis by (auto simp: h_def)
qed



end
