(* ===== verification/Events.thy ===== *)
theory Events
  imports Repo
begin

text \<open>
  \<open>internal/events\<close> (with \<open>internal/db\<close> in \<open>TargetDb\<close>): the update events, their JSON form, the
  table \<open>report_events\<close> that queues them, and the flush that posts a batch of them to the gateway
  and then deletes it. Each operation opens the database, so each may fail there. SQL leaves the
  order of a \<open>SELECT\<close> without \<open>ORDER BY\<close> open: \<open>x_select_order\<close> picks it, and \<open>rowid_order\<close> is the
  hypothesis that it is the order of the row identifiers.
\<close>

section \<open>Event types\<close>

datatype event_type =
    MetadataUpdateCompleted | UpdateInitStarted | UpdateInitCompleted | DownloadStarted
  | DownloadCompleted | InstallationStarted | InstallationApplied | InstallationCompleted

fun event_id :: "event_type \<Rightarrow> string" where
  "event_id MetadataUpdateCompleted = ''MetadataUpdateCompleted''"
| "event_id UpdateInitStarted = ''UpdateInitStarted''"
| "event_id UpdateInitCompleted = ''UpdateInitCompleted''"
| "event_id DownloadStarted = ''EcuDownloadStarted''"
| "event_id DownloadCompleted = ''EcuDownloadCompleted''"
| "event_id InstallationStarted = ''EcuInstallationStarted''"
| "event_id InstallationApplied = ''EcuInstallationApplied''"
| "event_id InstallationCompleted = ''EcuInstallationCompleted''"

text \<open>The order in which one update sends its events.\<close>

fun event_rank :: "event_type \<Rightarrow> nat" where
  "event_rank MetadataUpdateCompleted = 0"
| "event_rank UpdateInitStarted = 1"
| "event_rank UpdateInitCompleted = 2"
| "event_rank DownloadStarted = 3"
| "event_rank DownloadCompleted = 4"
| "event_rank InstallationStarted = 5"
| "event_rank InstallationApplied = 6"
| "event_rank InstallationCompleted = 7"

lemma event_rank_inj [simp]: "event_rank a = event_rank b \<longleftrightarrow> a = b"
  by (cases a; cases b) simp_all

lemma event_id_inj [simp]: "event_id a = event_id b \<longleftrightarrow> a = b"
  by (cases a; cases b) simp_all

instantiation event_type :: linorder
begin

definition less_eq_event_type :: "event_type \<Rightarrow> event_type \<Rightarrow> bool" where
  "less_eq_event_type a b \<longleftrightarrow> event_rank a \<le> event_rank b"

definition less_event_type :: "event_type \<Rightarrow> event_type \<Rightarrow> bool" where
  "less_event_type a b \<longleftrightarrow> event_rank a < event_rank b"

instance
  by standard (auto simp: less_eq_event_type_def less_event_type_def)

end

lemmas event_order = less_eq_event_type_def less_event_type_def

section \<open>Events\<close>

record dg_event =
  CorrelationId :: string
  Success :: "bool option"
  TargetName :: string
  e_Version :: string
  e_Details :: string

record dg_event_type =
  et_Id :: string
  et_Version :: int

record dg_update_event =
  ev_Id :: string
  ev_DeviceTime :: string
  ev_Event :: dg_event
  ev_EventType :: dg_event_type

definition dg_event_json :: "dg_event \<Rightarrow> json" where
  "dg_event_json e =
    JObj ([(''correlationId'', JStr (CorrelationId e)),
           (''success'', case Success e of None \<Rightarrow> JNull | Some b \<Rightarrow> JBool b),
           (''targetName'', JStr (TargetName e)), (''version'', JStr (e_Version e))]
      @ omit_if (e_Details e = '''') ''details'' (JStr (e_Details e)))"

definition event_type_json :: "dg_event_type \<Rightarrow> json" where
  "event_type_json t = JObj [(''id'', JStr (et_Id t)), (''version'', jint (et_Version t))]"

definition event_json :: "dg_update_event \<Rightarrow> json" where
  "event_json e =
    JObj [(''id'', JStr (ev_Id e)), (''deviceTime'', JStr (ev_DeviceTime e)),
          (''event'', dg_event_json (ev_Event e)), (''eventType'', event_type_json (ev_EventType e))]"

definition set_dg_event_field :: "string \<Rightarrow> json \<Rightarrow> dg_event \<Rightarrow> dg_event \<times> bool" where
  "set_dg_event_field k v e =
    (if key_is ''correlationId'' k then put (\<lambda>x. e\<lparr>CorrelationId := x\<rparr>) (dec_str v (CorrelationId e))
     else if key_is ''success'' k then put (\<lambda>x. e\<lparr>Success := x\<rparr>) (dec_bool_ptr v (Success e))
     else if key_is ''targetName'' k then put (\<lambda>x. e\<lparr>TargetName := x\<rparr>) (dec_str v (TargetName e))
     else if key_is ''version'' k then put (\<lambda>x. e\<lparr>e_Version := x\<rparr>) (dec_str v (e_Version e))
     else if key_is ''details'' k then put (\<lambda>x. e\<lparr>e_Details := x\<rparr>) (dec_str v (e_Details e))
     else (e, True))"

definition set_event_type_field :: "string \<Rightarrow> json \<Rightarrow> dg_event_type \<Rightarrow> dg_event_type \<times> bool" where
  "set_event_type_field k v t =
    (if key_is ''id'' k then put (\<lambda>x. t\<lparr>et_Id := x\<rparr>) (dec_str v (et_Id t))
     else if key_is ''version'' k then put (\<lambda>x. t\<lparr>et_Version := x\<rparr>) (dec_int v (et_Version t))
     else (t, True))"

definition set_event_field :: "string \<Rightarrow> json \<Rightarrow> dg_update_event \<Rightarrow> dg_update_event \<times> bool" where
  "set_event_field k v e =
    (if key_is ''id'' k then put (\<lambda>x. e\<lparr>ev_Id := x\<rparr>) (dec_str v (ev_Id e))
     else if key_is ''deviceTime'' k then put (\<lambda>x. e\<lparr>ev_DeviceTime := x\<rparr>) (dec_str v (ev_DeviceTime e))
     else if key_is ''event'' k then
       put (\<lambda>x. e\<lparr>ev_Event := x\<rparr>) (dec_struct set_dg_event_field v (ev_Event e))
     else if key_is ''eventType'' k then
       put (\<lambda>x. e\<lparr>ev_EventType := x\<rparr>) (dec_struct set_event_type_field v (ev_EventType e))
     else (e, True))"

definition zero_event :: dg_update_event where
  "zero_event = \<lparr>ev_Id = '''', ev_DeviceTime = '''',
     ev_Event = \<lparr>CorrelationId = '''', Success = None, TargetName = '''', e_Version = '''', e_Details = ''''\<rparr>,
     ev_EventType = \<lparr>et_Id = '''', et_Version = 0\<rparr>\<rparr>"

definition unmarshal_event :: "content \<Rightarrow> dg_update_event result" where
  "unmarshal_event c =
    (case c of
       Raw s \<Rightarrow> Inl (ErrorString ''invalid character'')
     | JsonDoc j \<Rightarrow>
         (case dec_struct set_event_field j zero_event of
            (e, True) \<Rightarrow> Inr e
          | (e, False) \<Rightarrow> Inl (ErrorString ''json: cannot unmarshal'')))"

section \<open>The table of events\<close>

definition select_rows :: "'w env \<Rightarrow> 'w \<Rightarrow> (int \<times> 'a) list \<Rightarrow> (int \<times> 'a) list" where
  "select_rows E w rows =
     List.map_filter (\<lambda>i. map_option (Pair i) (map_of rows i)) (x_select_order E (map fst rows) w)"

text \<open>A new row gets the largest identifier plus one, 1 in an empty table.\<close>

definition next_id :: "(int \<times> 'a) list \<Rightarrow> int" where
  "next_id rows = foldr max (map fst rows) 0 + 1"

definition CreateEventsTable :: "'w env \<Rightarrow> 'w host \<Rightarrow> goerr option \<times> 'w host" where
  "CreateEventsTable E h =
    (case io E OpSqlOpen h of
       (Some err, h) \<Rightarrow> (Some (errorf ''failed to open database'' err), h)
     | (None, h) \<Rightarrow>
         (case io E (OpSqlExec ''CREATE TABLE report_events'') h of
            (Some err, h) \<Rightarrow> (Some (errorf ''failed to create report_events table'' err), h)
          | (None, h) \<Rightarrow>
              (None, h\<lparr>report_events := (case report_events h of None \<Rightarrow> Some [] | Some rows \<Rightarrow> Some rows)\<rparr>)))"

definition SaveEvent :: "'w env \<Rightarrow> dg_update_event \<Rightarrow> 'w host \<Rightarrow> goerr option \<times> 'w host" where
  "SaveEvent E event h =
    (case io E OpSqlOpen h of
       (Some err, h) \<Rightarrow> (Some (errorf ''failed to open database'' err), h)
     | (None, h) \<Rightarrow>
         (case io E (OpSqlExec ''INSERT INTO report_events'') h of
            (Some err, h) \<Rightarrow> (Some (errorf ''failed to insert event into report_events'' err), h)
          | (None, h) \<Rightarrow>
              (case report_events h of
                 None \<Rightarrow> (Some (errorf ''failed to insert event into report_events''
                           (ErrorString ''no such table: report_events'')), h)
               | Some rows \<Rightarrow>
                   (None, h\<lparr>report_events := Some (rows @ [(next_id rows, JsonDoc (event_json event))])\<rparr>))))"

definition DeleteEvents :: "'w env \<Rightarrow> int \<Rightarrow> 'w host \<Rightarrow> goerr option \<times> 'w host" where
  "DeleteEvents E maxId h =
    (case io E OpSqlOpen h of
       (Some err, h) \<Rightarrow> (Some (errorf ''failed to open database'' err), h)
     | (None, h) \<Rightarrow>
         (case io E (OpSqlExec ''DELETE FROM report_events'') h of
            (Some err, h) \<Rightarrow> (Some (errorf ''failed to delete event from report_events'' err), h)
          | (None, h) \<Rightarrow>
              (case report_events h of
                 None \<Rightarrow> (Some (errorf ''failed to delete event from report_events''
                           (ErrorString ''no such table: report_events'')), h)
               | Some rows \<Rightarrow>
                   (None, h\<lparr>report_events := Some (filter (\<lambda>r. \<not> fst r \<le> maxId) rows)\<rparr>))))"

definition max_events :: nat where "max_events = 6"

fun scan_events ::
  "'w env \<Rightarrow> (int \<times> content) list \<Rightarrow> dg_update_event list \<Rightarrow> int \<Rightarrow> 'w host
   \<Rightarrow> (dg_update_event list \<times> int) result \<times> 'w host" where
  "scan_events E [] evts maxId h =
     (case io E OpSqlScan h of
        (Some err, h) \<Rightarrow> (Inl (errorf ''error iterating over rows'' err), h)
      | (None, h) \<Rightarrow> (Inr (evts, maxId), h))"
| "scan_events E ((i, d) # rows) evts maxId h =
     (case io E OpSqlScan h of
        (Some err, h) \<Rightarrow> (Inl (errorf ''failed to scan event data'' err), h)
      | (None, h) \<Rightarrow>
          (case unmarshal_event d of
             Inl err \<Rightarrow> (Inl (errorf ''failed to unmarshal event data'' err), h)
           | Inr e \<Rightarrow> scan_events E rows (evts @ [e]) (if maxId < i then i else maxId) h))"

definition GetEvents :: "'w env \<Rightarrow> 'w host \<Rightarrow> (dg_update_event list \<times> int) result \<times> 'w host" where
  "GetEvents E h =
    (case io E OpSqlOpen h of
       (Some err, h) \<Rightarrow> (Inl (errorf ''failed to open database'' err), h)
     | (None, h) \<Rightarrow>
         (case io E (OpSqlQuery ''SELECT FROM report_events'') h of
            (Some err, h) \<Rightarrow> (Inl (errorf ''failed to select events'' err), h)
          | (None, h) \<Rightarrow>
              (case report_events h of
                 None \<Rightarrow> (Inl (errorf ''failed to select events'' (ErrorString ''no such table: report_events'')), h)
               | Some rows \<Rightarrow> scan_events E (take max_events (select_rows E (ext h) rows)) [] (-1) h)))"

section \<open>Sending events\<close>

definition sendEvent :: "'w env \<Rightarrow> gw_client \<Rightarrow> dg_update_event list \<Rightarrow> 'w host \<Rightarrow> goerr option \<times> 'w host" where
  "sendEvent E c evts h =
    (case Post E c ''/events'' (JsonDoc (JArr (map event_json evts))) h of
       (Inl err, h) \<Rightarrow> (Some err, h)
     | (Inr res, h) \<Rightarrow> (None, h))"

definition FlushEvents :: "'w env \<Rightarrow> gw_client \<Rightarrow> 'w host \<Rightarrow> goerr option \<times> 'w host" where
  "FlushEvents E c h =
    (case GetEvents E h of
       (Inl err, h) \<Rightarrow> (Some (errorf ''error getting events'' err), h)
     | (Inr (evts, maxId), h) \<Rightarrow>
         if length evts = 0 then (None, h)
         else (case sendEvent E c evts h of
           (Some err, h) \<Rightarrow> (Some (errorf ''error sending events'' err), h)
         | (None, h) \<Rightarrow>
             (case DeleteEvents E maxId h of
                (Some err, h) \<Rightarrow> (Some (errorf ''error deleting events'' err), h)
              | (None, h) \<Rightarrow> (None, h))))"

definition MaxDetailsSize :: nat where "MaxDetailsSize = 2048"
definition TruncatedSuffix :: string where "TruncatedSuffix = ''...[TRUNCATED]''"

record enqueue_opts =
  o_Success :: "bool option"
  o_Details :: string

definition WithEventStatus :: "bool \<Rightarrow> enqueue_opts \<Rightarrow> enqueue_opts" where
  "WithEventStatus success opts = opts\<lparr>o_Success := Some success\<rparr>"

definition WithEventDetails :: "string \<Rightarrow> enqueue_opts \<Rightarrow> enqueue_opts" where
  "WithEventDetails details opts = opts\<lparr>o_Details := details\<rparr>"

definition truncate_details :: "string \<Rightarrow> string" where
  "truncate_details d =
    (if length d > MaxDetailsSize
     then take (MaxDetailsSize - length TruncatedSuffix) d @ TruncatedSuffix else d)"

definition new_event ::
  "event_type \<Rightarrow> string \<Rightarrow> target \<Rightarrow> enqueue_opts \<Rightarrow> string \<Rightarrow> string \<Rightarrow> dg_update_event" where
  "new_event t updateID toTarget opts uuid now =
    \<lparr>ev_Id = uuid, ev_DeviceTime = now,
     ev_Event = \<lparr>CorrelationId = updateID, Success = o_Success opts, TargetName = tID toTarget,
       e_Version = itoa (tVersion toTarget), e_Details = truncate_details (o_Details opts)\<rparr>,
     ev_EventType = \<lparr>et_Id = event_id t, et_Version = 2\<rparr>\<rparr>"

text \<open>
  The flush that \<open>EnqueueEvent\<close> asks for runs in the goroutine of the sender; it is a step of its
  own in the theory \<open>EventSender\<close>.
\<close>

definition EnqueueEvent ::
  "'w env \<Rightarrow> event_type \<Rightarrow> string \<Rightarrow> target \<Rightarrow> (enqueue_opts \<Rightarrow> enqueue_opts) list \<Rightarrow> 'w host
   \<Rightarrow> goerr option \<times> 'w host" where
  "EnqueueEvent E t updateID toTarget options h =
    (let opts = fold (\<lambda>f x. f x) options \<lparr>o_Success = None, o_Details = ''''\<rparr>;
         (uuid, w) = x_uuid E (ext h);
         h = h\<lparr>ext := w\<rparr>
     in case SaveEvent E (new_event t updateID toTarget opts uuid (x_now E w)) h of
          (Some err, h) \<Rightarrow> (Some (errorf ''error saving event'' err), h)
        | (None, h) \<Rightarrow> (None, h))"

section \<open>What the operations leave alone\<close>

lemma CreateEventsTable_frame [host_frame]:
  "CreateEventsTable E h = (e, h') \<Longrightarrow>
     fs h' = fs h \<and> installed_versions h' = installed_versions h \<and> reqs h' = reqs h
     \<and> (e \<noteq> None \<longrightarrow> report_events h' = report_events h)
     \<and> (e = None \<longrightarrow> report_events h' = Some (case report_events h of None \<Rightarrow> [] | Some rows \<Rightarrow> rows))"
  by (auto simp: CreateEventsTable_def split: prod.splits option.splits dest!: io_frame)

lemma SaveEvent_cases:
  "SaveEvent E ev h = (e, h') \<Longrightarrow>
     fs h' = fs h \<and> installed_versions h' = installed_versions h \<and> reqs h' = reqs h
     \<and> (e \<noteq> None \<longrightarrow> report_events h' = report_events h)
     \<and> (e = None \<longrightarrow> (\<exists>rows. report_events h = Some rows
         \<and> report_events h' = Some (rows @ [(next_id rows, JsonDoc (event_json ev))])))"
  by (auto simp: SaveEvent_def split: prod.splits option.splits dest!: io_frame)

lemma DeleteEvents_cases:
  "DeleteEvents E m h = (e, h') \<Longrightarrow>
     fs h' = fs h \<and> installed_versions h' = installed_versions h \<and> reqs h' = reqs h
     \<and> (e \<noteq> None \<longrightarrow> report_events h' = report_events h)
     \<and> (e = None \<longrightarrow> (\<exists>rows. report_events h = Some rows
         \<and> report_events h' = Some (filter (\<lambda>r. \<not> fst r \<le> m) rows)))"
  by (auto simp: DeleteEvents_def split: prod.splits option.splits dest!: io_frame)

lemma scan_events_frame:
  "scan_events E rows evts m h = (r, h') \<Longrightarrow> fs h' = fs h \<and> report_events h' = report_events h
     \<and> installed_versions h' = installed_versions h \<and> reqs h' = reqs h"
  by (induction E rows evts m h arbitrary: h' rule: scan_events.induct)
    (fastforce split: prod.splits option.splits sum.splits dest: io_frame)+

lemma scan_events_Inr:
  "scan_events E rows evts m h = (Inr (es, mx), h') \<Longrightarrow>
     \<exists>ds. map (\<lambda>r. unmarshal_event (snd r)) rows = map Inr ds \<and> es = evts @ ds
       \<and> mx = fold max (map fst rows) m"
proof (induction rows arbitrary: evts m h)
  case Nil
  then show ?case by (auto split: prod.splits option.splits)
next
  case (Cons row rows)
  obtain i d where row: "row = (i, d)" by fastforce
  from Cons.prems obtain e h1 where e: "unmarshal_event d = Inr e"
    and s: "scan_events E rows (evts @ [e]) (if m < i then i else m) h1 = (Inr (es, mx), h')"
    by (auto simp: row split: prod.splits option.splits sum.splits)
  from Cons.IH [OF s] obtain ds where ds: "map (\<lambda>r. unmarshal_event (snd r)) rows = map Inr ds"
    "es = (evts @ [e]) @ ds" "mx = fold max (map fst rows) (if m < i then i else m)" by blast
  show ?case
  proof (rule exI [of _ "e # ds"], intro conjI)
    have "(if m < i then i else m) = max i m" by simp
    with ds(3) show "mx = fold max (map fst (row # rows)) m" by (simp add: row)
  qed (use ds e in \<open>simp_all add: row\<close>)
qed

lemma scan_events_undecodable:
  "(i, d) \<in> set rows \<Longrightarrow> unmarshal_event d = Inl x \<Longrightarrow> \<exists>err. fst (scan_events E rows evts m h) = Inl err"
proof (cases "scan_events E rows evts m h")
  case (Pair r h')
  assume mem: "(i, d) \<in> set rows" and bad: "unmarshal_event d = Inl x"
  show ?thesis
  proof (cases r)
    case (Inr es)
    with Pair obtain ds where ds: "map (\<lambda>r. unmarshal_event (snd r)) rows = map Inr ds"
      by (cases es) (auto dest!: scan_events_Inr)
    have "unmarshal_event d \<in> set (map (\<lambda>r. unmarshal_event (snd r)) rows)" using mem by force
    with ds bad show ?thesis by auto
  qed (use Pair in auto)
qed

section \<open>The queue\<close>

definition rowid_order :: "'w env \<Rightarrow> bool" where
  "rowid_order E \<longleftrightarrow> (\<forall>ids w. x_select_order E ids w = ids)"

definition decoded :: "(int \<times> content) list \<Rightarrow> dg_update_event list" where
  "decoded rows = List.map_filter (\<lambda>r. case unmarshal_event (snd r) of Inr e \<Rightarrow> Some e | Inl x \<Rightarrow> None) rows"

definition queued :: "'w host \<Rightarrow> dg_update_event list" where
  "queued h = (case report_events h of None \<Rightarrow> [] | Some rows \<Rightarrow> decoded rows)"

text \<open>The table is there, its identifiers are positive and increase, and each row decodes.\<close>

definition rows_ok :: "(int \<times> content) list \<Rightarrow> bool" where
  "rows_ok rows \<longleftrightarrow> sorted_wrt (<) (map fst rows)
     \<and> (\<forall>r \<in> set rows. 0 < fst r \<and> (\<exists>e. unmarshal_event (snd r) = Inr e))"

definition queue_ok :: "'w host \<Rightarrow> bool" where
  "queue_ok h \<longleftrightarrow> (case report_events h of None \<Rightarrow> False | Some rows \<Rightarrow> rows_ok rows)"

definition good_event :: "dg_update_event \<Rightarrow> bool" where
  "good_event e \<longleftrightarrow> int_min \<le> et_Version (ev_EventType e) \<and> et_Version (ev_EventType e) \<le> int_max"

lemma decoded_simps [simp]:
  "decoded [] = []" "decoded (xs @ ys) = decoded xs @ decoded ys"
  by (simp_all add: decoded_def List.map_filter_def)

lemma decoded_Cons: "unmarshal_event (snd r) = Inr e \<Longrightarrow> decoded (r # rows) = e # decoded rows"
  by (simp add: decoded_def List.map_filter_def)

lemma decoded_map: "map (\<lambda>r. unmarshal_event (snd r)) rows = map Inr ds \<Longrightarrow> decoded rows = ds"
  by (induction rows arbitrary: ds) (auto simp: decoded_Cons Cons_eq_map_conv)

lemma decoded_length:
  "\<forall>r \<in> set rows. \<exists>e. unmarshal_event (snd r) = Inr e \<Longrightarrow> length (decoded rows) = length rows"
  by (induction rows) (auto simp: decoded_Cons)

lemma decoded_take_drop:
  assumes "\<forall>r \<in> set rows. \<exists>e. unmarshal_event (snd r) = Inr e"
  shows "decoded (take n rows) = take n (decoded rows)" "decoded (drop n rows) = drop n (decoded rows)"
proof -
  have "decoded (take n rows) = take n (decoded rows) \<and> decoded (drop n rows) = drop n (decoded rows)"
    using assms
  proof (induction rows arbitrary: n)
    case (Cons r rows)
    then obtain e where "unmarshal_event (snd r) = Inr e" by auto
    with Cons show ?case by (cases n) (simp_all add: decoded_Cons)
  qed simp
  then show "decoded (take n rows) = take n (decoded rows)" "decoded (drop n rows) = drop n (decoded rows)"
    by simp_all
qed

lemma select_rows_in_order:
  assumes "rowid_order E" and "sorted_wrt (<) (map fst rows)"
  shows "select_rows E w rows = rows"
proof -
  have key: "map_of rows (fst r) = Some (snd r)" if "r \<in> set rows" for r
    using that assms(2) by (cases r) (auto intro!: map_of_is_SomeI simp: strict_sorted_iff)
  have "List.map_filter (\<lambda>i. map_option (Pair i) (map_of rows i)) (map fst rs) = rs"
    if "set rs \<subseteq> set rows" for rs
    using that key by (induction rs) (auto simp: List.map_filter_simps)
  then show ?thesis using assms(1) by (simp add: select_rows_def rowid_order_def)
qed

lemma fold_max_ge: "x \<in> insert m (set xs) \<Longrightarrow> x \<le> fold max xs (m::int)"
proof (induction xs arbitrary: m x)
  case (Cons a xs)
  have "max a m \<le> fold max xs (max a m)" by (rule Cons.IH) simp
  with Cons show ?case by auto
qed simp

lemma fold_max_mem: "fold max xs (m::int) \<in> insert m (set xs)"
  by (induction xs arbitrary: m) (fastforce simp: max_def)+

text \<open>Deleting up to the largest identifier of a batch from the front deletes just the batch.\<close>

lemma delete_batch:
  fixes m :: int
  assumes "sorted_wrt (<) (map fst rows)" and "\<forall>r \<in> set rows. m < fst r" and "take n rows \<noteq> []"
  shows "filter (\<lambda>r. \<not> fst r \<le> fold max (map fst (take n rows)) m) rows = drop n rows"
proof -
  let ?mx = "fold max (map fst (take n rows)) m"
  have "filter (\<lambda>r. \<not> fst r \<le> ?mx) (take n rows) = []"
    using fold_max_ge [of _ m "map fst (take n rows)"] by (auto simp: filter_empty_conv)
  moreover have "filter (\<lambda>r. \<not> fst r \<le> ?mx) (drop n rows) = drop n rows"
  proof (rule filter_True, rule ballI)
    fix r assume r: "r \<in> set (drop n rows)"
    have "sorted_wrt (<) (map fst (take n rows) @ map fst (drop n rows))"
      using assms(1) by (simp flip: map_append)
    with r have "\<forall>x \<in> set (map fst (take n rows)). x < fst r" by (auto simp: sorted_wrt_append)
    moreover have "m < fst r" using r assms(2) by (auto dest: in_set_dropD)
    ultimately show "\<not> fst r \<le> ?mx" using fold_max_mem [of "map fst (take n rows)" m] by auto
  qed
  ultimately have "filter (\<lambda>r. \<not> fst r \<le> ?mx) (take n rows @ drop n rows) = drop n rows"
    unfolding filter_append by simp
  then show ?thesis by simp
qed

lemma next_id_gt: "r \<in> set rows \<Longrightarrow> fst r < next_id rows" "0 < next_id rows"
  unfolding next_id_def by (induction rows) (auto simp: max_def)

lemma unmarshal_event_json: "good_event e \<Longrightarrow> unmarshal_event (JsonDoc (event_json e)) = Inr e"
  by (cases e; cases "ev_Event e"; cases "ev_EventType e"; cases "Success (ev_Event e)")
    (auto simp: unmarshal_event_def event_json_def dg_event_json_def event_type_json_def zero_event_def
      set_event_field_def set_dg_event_field_def set_event_type_field_def key_is_def lower_char_def put_def
      omit_if_def good_event_def)

section \<open>What a flush does\<close>

lemma GetEvents_frame:
  "GetEvents E h = (r, h') \<Longrightarrow> fs h' = fs h \<and> report_events h' = report_events h
     \<and> installed_versions h' = installed_versions h \<and> reqs h' = reqs h"
  by (auto simp: GetEvents_def split: prod.splits option.splits dest!: io_frame scan_events_frame)

lemma GetEvents_Inr:
  assumes "GetEvents E h = (Inr (evts, mx), h')"
  shows "\<exists>rows w. report_events h = Some rows \<and> (let batch = take max_events (select_rows E w rows) in
     map (\<lambda>r. unmarshal_event (snd r)) batch = map Inr evts \<and> mx = fold max (map fst batch) (-1))"
  using assms
  by (auto simp: GetEvents_def Let_def split: prod.splits option.splits dest!: io_frame scan_events_Inr)

lemma sendEvent_frame:
  "sendEvent E c evts h = (e, h') \<Longrightarrow> fs h' = fs h \<and> report_events h' = report_events h
     \<and> installed_versions h' = installed_versions h
     \<and> (\<exists>q. reqs h' = reqs h @ [q] \<and> q_method q = POST \<and> q_path q = x_UrlJoin E (BaseURL c) ''/events''
         \<and> q_body q = Some (JsonDoc (JArr (map event_json evts))))"
  by (auto simp: sendEvent_def Post_def split: prod.splits sum.splits dest!: http_frame)

text \<open>The events of a request to \<open>/events\<close>, and all those the host has posted so far.\<close>

definition posted_in :: "http_req \<Rightarrow> dg_update_event list" where
  "posted_in q = (case q_body q of Some (JsonDoc (JArr js)) \<Rightarrow> decoded (map (\<lambda>j. (0, JsonDoc j)) js) | _ \<Rightarrow> [])"

definition posted :: "'w env \<Rightarrow> gw_client \<Rightarrow> 'w host \<Rightarrow> dg_update_event list" where
  "posted E c h =
    concat (map posted_in
      (filter (\<lambda>q. q_method q = POST \<and> q_path q = x_UrlJoin E (BaseURL c) ''/events'') (reqs h)))"

lemma decoded_event_json: "\<forall>e \<in> set es. good_event e \<Longrightarrow> decoded (map (\<lambda>e. (0, JsonDoc (event_json e))) es) = es"
  by (induction es) (simp_all add: decoded_Cons unmarshal_event_json)

lemma posted_send:
  assumes "sendEvent E c evts h = (e, h')" and "\<forall>e \<in> set evts. good_event e"
  shows "posted E c h' = posted E c h @ evts"
  using sendEvent_frame [OF assms(1)] decoded_event_json [OF assms(2)]
  by (auto simp: posted_def posted_in_def o_def)

lemma dec_int_range: "int_min \<le> n \<Longrightarrow> n \<le> int_max \<Longrightarrow>
    int_min \<le> fst (dec_int v n) \<and> fst (dec_int v n) \<le> int_max"
  by (cases v) (auto simp: atoi_def Let_def int_min_def int_max_def split: prod.splits option.splits)

lemma unmarshal_good:
  assumes "unmarshal_event d = Inr e"
  shows "good_event e"
proof -
  let ?good = "\<lambda>t. int_min \<le> et_Version t \<and> et_Version t \<le> int_max"
  have t: "?good (fst (set_event_type_field k v t))" if "?good t" for k v t
    using that by (auto simp: set_event_type_field_def put_def dec_int_range)
  have f: "good_event (fst (set_event_field k v x))" if "good_event x" for k v x
    using that dec_struct_inv [of ?good set_event_type_field "ev_EventType x" v, OF t]
    by (auto simp: set_event_field_def put_def good_event_def)
  from assms obtain j where "dec_struct set_event_field j zero_event = (e, True)"
    by (auto simp: unmarshal_event_def split: content.splits prod.splits bool.splits)
  moreover have "good_event zero_event" by (simp add: good_event_def zero_event_def int_min_def int_max_def)
  ultimately show ?thesis using dec_struct_inv [of good_event set_event_field zero_event j, OF f] by simp
qed

lemma decoded_good: "e \<in> set (decoded rows) \<Longrightarrow> good_event e"
  by (auto simp: decoded_def List.map_filter_def unmarshal_good split: sum.splits)

lemma GetEvents_batch:
  assumes "rowid_order E" and "report_events h = Some rows" and "rows_ok rows"
    and "GetEvents E h = (Inr (evts, mx), h')"
  shows "evts = take max_events (decoded rows)"
    and "mx = fold max (map fst (take max_events rows)) (-1)"
proof -
  have sel: "select_rows E w rows = rows" for w
    using assms(1,3) by (simp add: select_rows_in_order rows_ok_def)
  from GetEvents_Inr [OF assms(4)] assms(2)
  have b: "map (\<lambda>r. unmarshal_event (snd r)) (take max_events rows) = map Inr evts"
    and m: "mx = fold max (map fst (take max_events rows)) (-1)"
    by (auto simp: sel Let_def)
  from decoded_map [OF b] show "evts = take max_events (decoded rows)"
    using assms(3) by (simp add: decoded_take_drop rows_ok_def)
  from m show "mx = fold max (map fst (take max_events rows)) (-1)" .
qed

lemma rows_ok_drop: "rows_ok rows \<Longrightarrow> rows_ok (drop n rows)"
  by (auto simp: rows_ok_def drop_map sorted_wrt_drop simp flip: drop_map dest: in_set_dropD)

lemma rows_ok_decoded_drop: "rows_ok rows \<Longrightarrow> decoded (drop n rows) = drop n (decoded rows)"
  by (simp add: decoded_take_drop rows_ok_def)

lemma FlushEvents_cases:
  assumes "rowid_order E" and "queue_ok h" and "FlushEvents E c h = (e, h')"
  shows "queue_ok h' \<and> fs h' = fs h \<and> installed_versions h' = installed_versions h
    \<and> (e = None \<longrightarrow> queued h' = drop max_events (queued h)
         \<and> posted E c h' = posted E c h @ take max_events (queued h))
    \<and> (e \<noteq> None \<longrightarrow> queued h' = queued h
         \<and> posted E c h' \<in> {posted E c h, posted E c h @ take max_events (queued h)})"
proof -
  obtain rows where rows: "report_events h = Some rows" "rows_ok rows"
    using assms(2) by (auto simp: queue_ok_def split: option.splits)
  obtain r h1 where g: "GetEvents E h = (r, h1)" by fastforce
  note fr = GetEvents_frame [OF g]
  have same: "queued h1 = queued h" "queue_ok h1" "posted E c h1 = posted E c h"
    using fr assms(2) by (simp_all add: queued_def queue_ok_def posted_def)
  show ?thesis
  proof (cases r)
    case (Inl err)
    with g assms(3) same fr show ?thesis by (auto simp: FlushEvents_def)
  next
    case (Inr em)
    obtain evts mx where em: "em = (evts, mx)" by fastforce
    note batch = GetEvents_batch [OF assms(1) rows g [unfolded Inr em]]
    have q: "queued h = decoded rows" by (simp add: queued_def rows(1))
    show ?thesis
    proof (cases "evts = []")
      case True
      then have "queued h = []" using batch(1) q by (simp add: max_events_def)
      with True g Inr em assms(3) same fr show ?thesis by (auto simp: FlushEvents_def)
    next
      case False
      obtain e1 h2 where s: "sendEvent E c evts h1 = (e1, h2)" by fastforce
      note sf = sendEvent_frame [OF s]
      have p: "posted E c h2 = posted E c h @ take max_events (queued h)"
        using posted_send [OF s] decoded_good batch(1) q same(3) by (auto dest: in_set_takeD)
      have same2: "queued h2 = queued h" "queue_ok h2" "report_events h2 = Some rows"
        using sf fr rows assms(2) by (simp_all add: queued_def queue_ok_def)
      show ?thesis
      proof (cases e1)
        case (Some x)
        with False g Inr em assms(3) s same2 p sf fr show ?thesis by (auto simp: FlushEvents_def)
      next
        case None
        obtain e2 h3 where d: "DeleteEvents E mx h2 = (e2, h3)" by fastforce
        note df = DeleteEvents_cases [OF d]
        have p3: "posted E c h3 = posted E c h2" using df by (simp add: posted_def)
        have eq: "h' = h3" "e = None \<longleftrightarrow> e2 = None"
          using False g Inr em assms(3) s None d by (auto simp: FlushEvents_def split: option.splits)
        have "filter (\<lambda>r. \<not> fst r \<le> mx) rows = drop max_events rows"
          unfolding batch(2) using rows(2) False batch(1)
          by (intro delete_batch) (force simp: rows_ok_def)+
        then have "queued h3 = drop max_events (queued h) \<and> queue_ok h3" if "e2 = None"
          using that df same2 rows by (auto simp: queued_def queue_ok_def rows_ok_drop
              rows_ok_decoded_drop)
        moreover have "queued h3 = queued h \<and> queue_ok h3" if "e2 \<noteq> None"
          using that df same2 by (auto simp: queued_def queue_ok_def)
        ultimately show ?thesis using eq p p3 df sf fr by auto
      qed
    qed
  qed
qed

lemma SaveEvent_queue:
  assumes "queue_ok h" and "good_event ev" and "SaveEvent E ev h = (e, h')"
  shows "queue_ok h' \<and> posted E c h' = posted E c h
    \<and> queued h' = (if e = None then queued h @ [ev] else queued h)"
proof -
  note cs = SaveEvent_cases [OF assms(3)]
  have p: "posted E c h' = posted E c h" using cs by (simp add: posted_def)
  show ?thesis
  proof (cases e)
    case None
    with cs obtain rows where r: "report_events h = Some rows"
      "report_events h' = Some (rows @ [(next_id rows, JsonDoc (event_json ev))])" by blast
    have "rows_ok rows" using assms(1) r(1) by (simp add: queue_ok_def)
    then have "rows_ok (rows @ [(next_id rows, JsonDoc (event_json ev))])"
      using next_id_gt unmarshal_event_json [OF assms(2)]
      by (auto simp: rows_ok_def sorted_wrt_append)
    then show ?thesis using r p None unmarshal_event_json [OF assms(2)]
      by (simp add: queue_ok_def queued_def decoded_Cons)
  qed (use cs assms(1) p in \<open>auto simp: queue_ok_def queued_def\<close>)
qed

section \<open>The contract of the queue\<close>

text \<open>
  What the senders of events rely on, whatever stores them: a saved event goes to the end, a flush
  hands a front part to the gateway and drops it only after it has been handed over. Any
  interleaving of saves and flushes, failing or not, then loses nothing and keeps the order.
\<close>

datatype 'e queue_op = QSave 'e | QFlush

fun run_queue ::
  "('e \<Rightarrow> 'h \<Rightarrow> goerr option \<times> 'h) \<Rightarrow> ('h \<Rightarrow> goerr option \<times> 'h) \<Rightarrow> 'e queue_op list \<Rightarrow> 'h \<Rightarrow> 'e list \<times> 'h" where
  "run_queue save flush [] h = ([], h)"
| "run_queue save flush (QSave e # ops) h =
     (case save e h of
        (None, h) \<Rightarrow> (let (acc, h) = run_queue save flush ops h in (e # acc, h))
      | (Some err, h) \<Rightarrow> run_queue save flush ops h)"
| "run_queue save flush (QFlush # ops) h = run_queue save flush ops (snd (flush h))"

locale event_queue =
  fixes save :: "'e \<Rightarrow> 'h \<Rightarrow> goerr option \<times> 'h"
    and flush :: "'h \<Rightarrow> goerr option \<times> 'h"
    and ok :: "'h \<Rightarrow> bool"
    and good :: "'e \<Rightarrow> bool"
    and pending :: "'h \<Rightarrow> 'e list"
    and sent :: "'h \<Rightarrow> 'e list"
  assumes save_appends: "ok h \<Longrightarrow> good x \<Longrightarrow> save x h = (e, h') \<Longrightarrow>
      ok h' \<and> sent h' = sent h \<and> pending h' = (if e = None then pending h @ [x] else pending h)"
    and flush_front: "ok h \<Longrightarrow> flush h = (e, h') \<Longrightarrow>
      ok h' \<and> (\<exists>batch rest. pending h = batch @ rest
        \<and> (pending h' = rest \<and> sent h' = sent h @ batch
           \<or> pending h' = pending h \<and> sent h' \<in> {sent h, sent h @ batch}))"
begin

lemma flush_keeps_all:
  assumes "ok h" and "flush h = (e, h')"
  shows "ok h'" "\<exists>k. pending h' = drop k (pending h) \<and> set (take k (pending h)) \<subseteq> set (sent h')"
    "set (sent h) \<subseteq> set (sent h')"
proof -
  from flush_front [OF assms] obtain batch rest where ok: "ok h'" and p: "pending h = batch @ rest"
    and c: "pending h' = rest \<and> sent h' = sent h @ batch
      \<or> pending h' = pending h \<and> sent h' \<in> {sent h, sent h @ batch}" by blast
  show "ok h'" by (rule ok)
  show "set (sent h) \<subseteq> set (sent h')" using c by auto
  show "\<exists>k. pending h' = drop k (pending h) \<and> set (take k (pending h)) \<subseteq> set (sent h')"
    using c
  proof
    assume "pending h' = rest \<and> sent h' = sent h @ batch"
    then show ?thesis using p by (intro exI [of _ "length batch"]) auto
  qed (auto intro: exI [of _ 0])
qed

lemma no_loss:
  assumes "ok h" and "\<forall>x. QSave x \<in> set ops \<longrightarrow> good x" and "run_queue save flush ops h = (acc, h')"
  shows "ok h' \<and> set (sent h) \<subseteq> set (sent h')
    \<and> (\<exists>k. pending h' = drop k (pending h @ acc) \<and> set (take k (pending h @ acc)) \<subseteq> set (sent h'))"
  using assms
proof (induction ops arbitrary: h acc h')
  case Nil
  then show ?case by (auto intro: exI [of _ 0])
next
  case (Cons op ops)
  show ?case
  proof (cases op)
    case (QSave x)
    obtain e h1 where s: "save x h = (e, h1)" by fastforce
    with Cons.prems QSave have a: "ok h1" "sent h1 = sent h"
      "pending h1 = (if e = None then pending h @ [x] else pending h)"
      using save_appends [OF Cons.prems(1) _ s] by auto
    obtain acc1 h2 where r: "run_queue save flush ops h1 = (acc1, h2)" by fastforce
    have "h2 = h'" "acc = (if e = None then x # acc1 else acc1)"
      using Cons.prems(3) QSave s r by (auto split: option.splits)
    with Cons.IH [OF a(1) _ r] Cons.prems(2) a show ?thesis by (cases e) simp_all
  next
    case QFlush
    obtain e h1 where f: "flush h = (e, h1)" by fastforce
    from flush_keeps_all [OF Cons.prems(1) f] obtain j where a: "ok h1"
      "pending h1 = drop j (pending h)" "set (take j (pending h)) \<subseteq> set (sent h1)" "set (sent h) \<subseteq> set (sent h1)"
      by blast
    have r: "run_queue save flush ops h1 = (acc, h')" using Cons.prems(3) QFlush f by simp
    from Cons.IH [OF a(1) _ r] Cons.prems(2) obtain k where k: "ok h'" "set (sent h1) \<subseteq> set (sent h')"
      "pending h' = drop k (drop j (pending h) @ acc)" "set (take k (drop j (pending h) @ acc)) \<subseteq> set (sent h')"
      by (auto simp: a(2))
    obtain xs ys where p: "pending h = xs @ ys" and xs: "take j (pending h) = xs" "drop j (pending h) = ys"
      by (metis append_take_drop_id)
    let ?n = "length xs + k"
    have "pending h' = drop ?n (pending h @ acc)" unfolding k(3) xs by (simp add: p)
    moreover have "take ?n (pending h @ acc) = take j (pending h) @ take k (drop j (pending h) @ acc)"
      unfolding xs by (simp add: p)
    ultimately show ?thesis using k(1,2,4) a(3,4) by (intro conjI exI [of _ ?n]) auto
  qed
qed

end

interpretation event_table: event_queue "SaveEvent E" "FlushEvents E c" "\<lambda>h. rowid_order E \<and> queue_ok h"
    good_event queued "posted E c"
proof
  fix h x e h'
  assume "rowid_order E \<and> queue_ok h" and "good_event x" and "SaveEvent E x h = (e, h')"
  then show "(rowid_order E \<and> queue_ok h') \<and> posted E c h' = posted E c h
      \<and> queued h' = (if e = None then queued h @ [x] else queued h)"
    using SaveEvent_queue by blast
next
  fix h e h'
  assume "rowid_order E \<and> queue_ok h" and f: "FlushEvents E c h = (e, h')"
  then have r: "rowid_order E" and q: "queue_ok h" by simp_all
  note c = FlushEvents_cases [OF r q f]
  have "queued h = take max_events (queued h) @ drop max_events (queued h)" by simp
  moreover have "queued h' = drop max_events (queued h) \<and> posted E c h' = posted E c h @ take max_events (queued h)
      \<or> queued h' = queued h \<and> posted E c h' \<in> {posted E c h, posted E c h @ take max_events (queued h)}"
    using c by (cases "e = None") blast+
  ultimately have "\<exists>batch rest. queued h = batch @ rest
      \<and> (queued h' = rest \<and> posted E c h' = posted E c h @ batch
         \<or> queued h' = queued h \<and> posted E c h' \<in> {posted E c h, posted E c h @ batch})" by blast
  with c r show "(rowid_order E \<and> queue_ok h') \<and> (\<exists>batch rest. queued h = batch @ rest
      \<and> (queued h' = rest \<and> posted E c h' = posted E c h @ batch
         \<or> queued h' = queued h \<and> posted E c h' \<in> {posted E c h, posted E c h @ batch}))" by blast
qed

section \<open>Properties\<close>







text \<open>
  A row that does not decode, if it is among the first six of the selection, makes every
  flush fail and leaves the queue as it is, so no later event is ever sent.
\<close>
theorem undecodable_row_blocks:
  assumes "report_events h = Some rows"
    and "\<forall>w. \<exists>i d x. (i, d) \<in> set (take 6 (select_rows E w rows)) \<and> unmarshal_event d = Inl x"
  shows "\<exists>err h'. FlushEvents E c h = (Some err, h') \<and> report_events h' = Some rows \<and> reqs h' = reqs h"
proof -
  obtain r h1 where g: "GetEvents E h = (r, h1)" by fastforce
  have "\<exists>err. r = Inl err"
  proof (cases r)
    case (Inr em)
    obtain evts mx where em: "em = (evts, mx)" by fastforce
    from GetEvents_Inr [OF g [unfolded Inr em]] assms(1) obtain w where
      b: "map (\<lambda>r. unmarshal_event (snd r)) (take 6 (select_rows E w rows)) = map Inr evts"
      by (auto simp: Let_def max_events_def)
    from assms(2) obtain i d x where x: "(i, d) \<in> set (take 6 (select_rows E w rows))" "unmarshal_event d = Inl x"
      by blast
    then have "Inl x \<in> set (map (\<lambda>r. unmarshal_event (snd r)) (take 6 (select_rows E w rows)))" by force
    with b show ?thesis by auto
  qed simp
  with g GetEvents_frame [OF g] assms(1) show ?thesis by (auto simp: FlushEvents_def)
qed

theorem undecodable_row_blocks_witness:
  defines "E \<equiv> (undefined :: unit env)\<lparr>x_select_order := \<lambda>ids w. ids\<rparr>"
  defines "h \<equiv> \<lparr>ext = (), fs = Map.empty, report_events = Some [(1, Raw ''{'')], installed_versions = None, reqs = []\<rparr>"
  shows "\<exists>err h'. FlushEvents E undefined h = (Some err, h') \<and> report_events h' = Some [(1, Raw ''{'')] \<and> reqs h' = reqs h"
  by (rule undecodable_row_blocks)
    (simp_all add: h_def E_def select_rows_def List.map_filter_simps unmarshal_event_def)

text \<open>
  An accepted event is queued behind the others with the identifier, type, target and options
  it was given; its details are at most 2048 bytes long: the ones given when they fit, else a
  prefix of them with the mark of the truncation.
\<close>
theorem EnqueueEvent_queues:
  assumes "queue_ok h" and "EnqueueEvent E t updateID toTarget [WithEventStatus b, WithEventDetails d] h = (None, h')"
  shows "\<exists>ev. queued h' = queued h @ [ev] \<and> queue_ok h'
    \<and> et_Id (ev_EventType ev) = event_id t \<and> CorrelationId (ev_Event ev) = updateID
    \<and> TargetName (ev_Event ev) = tID toTarget \<and> Success (ev_Event ev) = Some b
    \<and> length (e_Details (ev_Event ev)) \<le> 2048
    \<and> (if length d \<le> 2048 then e_Details (ev_Event ev) = d
       else e_Details (ev_Event ev) = take 2034 d @ ''...[TRUNCATED]'')"
proof -
  obtain uuid w where u: "x_uuid E (ext h) = (uuid, w)" by fastforce
  let ?ev = "new_event t updateID toTarget \<lparr>o_Success = Some b, o_Details = d\<rparr> uuid (x_now E w)"
  have "SaveEvent E ?ev (h\<lparr>ext := w\<rparr>) = (None, h')"
    using assms(2) u by (auto simp: EnqueueEvent_def WithEventStatus_def WithEventDetails_def split: prod.splits option.splits)
  moreover have "good_event ?ev" by (simp add: good_event_def new_event_def int_min_def int_max_def)
  moreover have "queue_ok (h\<lparr>ext := w\<rparr>)" using assms(1) by (simp add: queue_ok_def)
  ultimately have "queue_ok h' \<and> queued h' = queued (h\<lparr>ext := w\<rparr>) @ [?ev]"
    using SaveEvent_queue [of "h\<lparr>ext := w\<rparr>" ?ev E None h'] by auto
  then show ?thesis
    by (intro exI [of _ ?ev])
      (auto simp: queued_def new_event_def truncate_details_def MaxDetailsSize_def TruncatedSuffix_def)
qed

theorem EnqueueEvent_queues_witness:
  defines "E \<equiv> (undefined :: unit env)\<lparr>x_io := \<lambda>op w. (None, w), x_uuid := \<lambda>w. (''u'', w), x_now := \<lambda>w. ''now''\<rparr>"
  defines "h \<equiv> \<lparr>ext = (), fs = Map.empty, report_events = Some [], installed_versions = None, reqs = []\<rparr>"
  shows "\<exists>h' ev. EnqueueEvent E DownloadStarted ''i'' UnknownTarget [WithEventStatus True, WithEventDetails ''x''] h = (None, h')
    \<and> queued h' = [ev] \<and> e_Details (ev_Event ev) = ''x''"
proof -
  have q: "queue_ok h" by (simp add: queue_ok_def h_def rows_ok_def)
  have "\<exists>h'. EnqueueEvent E DownloadStarted ''i'' UnknownTarget [WithEventStatus True, WithEventDetails ''x''] h = (None, h')"
    by (simp add: EnqueueEvent_def SaveEvent_def io_def E_def h_def)
  then obtain h' where e: "EnqueueEvent E DownloadStarted ''i'' UnknownTarget [WithEventStatus True, WithEventDetails ''x''] h = (None, h')"
    by blast
  from EnqueueEvent_queues [OF q e] show ?thesis using e by (auto simp: queued_def h_def)
qed

text \<open>
  The batch is deleted whatever status the gateway answers with: the answer 500 below loses the
  event.
\<close>
lemma flush_ignores_status:
  defines "E \<equiv> (undefined :: unit env)\<lparr>x_select_order := \<lambda>ids w. ids, x_io := \<lambda>op w. (None, w),
     x_UrlJoin := \<lambda>b p. b @ p, x_http := \<lambda>q w. (Inr \<lparr>StatusCode = 500, Body = Raw ''''\<rparr>, w)\<rparr>"
  shows "\<exists>h'. FlushEvents E undefined \<lparr>ext = (), fs = Map.empty,
       report_events = Some [(1, JsonDoc (event_json zero_event))], installed_versions = None, reqs = []\<rparr> = (None, h')
     \<and> report_events h' = Some []"
proof -
  have z: "unmarshal_event (JsonDoc (event_json zero_event)) = Inr zero_event"
    by (rule unmarshal_event_json) (simp add: good_event_def zero_event_def int_min_def int_max_def)
  show ?thesis
    by (simp add: FlushEvents_def GetEvents_def io_def E_def select_rows_def List.map_filter_simps
        max_events_def z sendEvent_def Post_def http_def DeleteEvents_def)
qed

text \<open>
  If a selection is not in the order of the identifiers, the batch that is sent and the rows that
  are deleted differ: with seven rows selected backwards, the first row is deleted unsent.
\<close>
lemma flush_needs_order:
  defines "E \<equiv> (undefined :: unit env)\<lparr>x_select_order := \<lambda>ids w. rev ids, x_io := \<lambda>op w. (None, w),
     x_UrlJoin := \<lambda>b p. b @ p, x_http := \<lambda>q w. (Inr \<lparr>StatusCode = 200, Body = Raw ''''\<rparr>, w)\<rparr>"
  defines "d \<equiv> JsonDoc (event_json zero_event)"
  shows "\<exists>h'. FlushEvents E undefined \<lparr>ext = (), fs = Map.empty,
       report_events = Some [(1, d), (2, d), (3, d), (4, d), (5, d), (6, d), (7, d)],
       installed_versions = None, reqs = []\<rparr> = (None, h')
     \<and> report_events h' = Some [] \<and> length (reqs h') = 1
     \<and> q_body (hd (reqs h')) = Some (JsonDoc (JArr (replicate 6 (event_json zero_event))))"
proof -
  have z: "unmarshal_event d = Inr zero_event"
    unfolding d_def by (rule unmarshal_event_json) (simp add: good_event_def zero_event_def int_min_def int_max_def)
  show ?thesis
    by (simp add: FlushEvents_def GetEvents_def io_def E_def select_rows_def List.map_filter_simps
        max_events_def z sendEvent_def Post_def http_def DeleteEvents_def numeral_eq_Suc)
qed

end
