(* ===== verification/EventSender.thy ===== *)
theory EventSender
  imports Events
begin

text \<open>
  The concurrent sender of \<open>internal/events/event_sender.go\<close> as a step relation. The caller runs
  \<open>Start\<close>, \<open>EnqueueEvent\<close> and \<open>Stop\<close>; the goroutine waits for a token in one of two channels of
  capacity one or for the ticker, and flushes. The mutex of the database makes each of \<open>SaveEvent\<close>,
  \<open>GetEvents\<close> and \<open>DeleteEvents\<close> one step, but not a whole flush: events may be saved between the
  selection, the request and the deletion. A send to a full channel waits. The ghost field
  \<open>accepted\<close> lists the events saved since the beginning.
\<close>

section \<open>States and steps\<close>

datatype caller =
    Idle
  | Notifying        \<comment> \<open>\<open>EnqueueEvent\<close> has saved, \<open>FlushEventsAsync\<close> is to come\<close>
  | StopFlush        \<comment> \<open>\<open>Stop\<close> is about to send the last flush\<close>
  | StopSignal       \<comment> \<open>\<open>Stop\<close> is about to send the stop\<close>
  | Waiting          \<comment> \<open>\<open>Stop\<close> waits for the goroutine\<close>

datatype worker =
    NotRunning
  | Selecting
  | Sending "dg_update_event list" int
  | Deleting "dg_update_event list" int

record 'w sender =
  caller :: caller
  worker :: worker
  started :: bool
  flushChan :: bool
  stopChan :: bool
  host :: "'w host"
  accepted :: "dg_update_event list"

definition new_sender :: "'w host \<Rightarrow> 'w sender" where
  "new_sender h = \<lparr>caller = Idle, worker = NotRunning, started = False, flushChan = False,
     stopChan = False, host = h, accepted = []\<rparr>"

text \<open>The beginning of a flush, up to the decision whether there is something to send.\<close>

definition begin_flush :: "'w env \<Rightarrow> 'w sender \<Rightarrow> 'w sender" where
  "begin_flush E s =
    (case GetEvents E (host s) of
       (Inl err, h) \<Rightarrow> s\<lparr>host := h\<rparr>
     | (Inr (evts, maxId), h) \<Rightarrow>
         if length evts = 0 then s\<lparr>host := h\<rparr> else s\<lparr>host := h, worker := Sending evts maxId\<rparr>)"

text \<open>A send to the channel: without one it is skipped, and \<open>None\<close> is the wait for a place in it.\<close>

definition FlushEventsAsync :: "'w sender \<Rightarrow> 'w sender option" where
  "FlushEventsAsync s =
    (if \<not> started s then Some (s\<lparr>caller := Idle\<rparr>)
     else if flushChan s then None
     else Some (s\<lparr>flushChan := True, caller := Idle\<rparr>))"

inductive sstep :: "'w env \<Rightarrow> gw_client \<Rightarrow> 'w sender \<Rightarrow> 'w sender \<Rightarrow> bool"
  for E :: "'w env" and c :: gw_client where
  Start: "caller s = Idle \<Longrightarrow> \<not> started s \<Longrightarrow>
    sstep E c s (s\<lparr>started := True, stopChan := False, flushChan := False, worker := Selecting\<rparr>)"
| Start_again: "caller s = Idle \<Longrightarrow> started s \<Longrightarrow> sstep E c s s"
| Save: "caller s = Idle \<Longrightarrow> good_event ev \<Longrightarrow> SaveEvent E ev (host s) = (None, h) \<Longrightarrow>
    sstep E c s (s\<lparr>host := h, accepted := accepted s @ [ev], caller := Notifying\<rparr>)"
| Save_error: "caller s = Idle \<Longrightarrow> good_event ev \<Longrightarrow> SaveEvent E ev (host s) = (Some err, h) \<Longrightarrow>
    sstep E c s (s\<lparr>host := h\<rparr>)"
| Notify: "caller s = Notifying \<Longrightarrow> FlushEventsAsync s = Some s' \<Longrightarrow> sstep E c s s'"
| Stop: "caller s = Idle \<Longrightarrow> started s \<Longrightarrow> sstep E c s (s\<lparr>caller := StopFlush\<rparr>)"
| Stop_flush: "caller s = StopFlush \<Longrightarrow> \<not> flushChan s \<Longrightarrow>
    sstep E c s (s\<lparr>flushChan := True, caller := StopSignal\<rparr>)"
| Stop_signal: "caller s = StopSignal \<Longrightarrow> \<not> stopChan s \<Longrightarrow>
    sstep E c s (s\<lparr>stopChan := True, caller := Waiting\<rparr>)"
| Stop_wait: "caller s = Waiting \<Longrightarrow> worker s = NotRunning \<Longrightarrow>
    sstep E c s (s\<lparr>started := False, stopChan := False, flushChan := False, caller := Idle\<rparr>)"
| Worker_stop: "worker s = Selecting \<Longrightarrow> stopChan s \<Longrightarrow>
    sstep E c s (s\<lparr>stopChan := False, worker := NotRunning\<rparr>)"
| Worker_flush: "worker s = Selecting \<Longrightarrow> flushChan s \<Longrightarrow>
    sstep E c s (begin_flush E (s\<lparr>flushChan := False\<rparr>))"
| Worker_tick: "worker s = Selecting \<Longrightarrow> sstep E c s (begin_flush E s)"
| Worker_sent: "worker s = Sending evts maxId \<Longrightarrow> sendEvent E c evts (host s) = (None, h) \<Longrightarrow>
    sstep E c s (s\<lparr>host := h, worker := Deleting evts maxId\<rparr>)"
| Worker_send_error: "worker s = Sending evts maxId \<Longrightarrow> sendEvent E c evts (host s) = (Some err, h) \<Longrightarrow>
    sstep E c s (s\<lparr>host := h, worker := Selecting\<rparr>)"
| Worker_delete: "worker s = Deleting evts maxId \<Longrightarrow> DeleteEvents E maxId (host s) = (e, h) \<Longrightarrow>
    sstep E c s (s\<lparr>host := h, worker := Selecting\<rparr>)"

inductive_cases sstepE: "sstep E c s s'"

inductive reachable :: "'w env \<Rightarrow> gw_client \<Rightarrow> 'w host \<Rightarrow> 'w sender \<Rightarrow> bool"
  for E :: "'w env" and c :: gw_client and h :: "'w host" where
  init: "reachable E c h (new_sender h)"
| step: "reachable E c h s \<Longrightarrow> sstep E c s s' \<Longrightarrow> reachable E c h s'"

section \<open>The invariant\<close>

text \<open>
  A batch under way is a front part of the table, separated from the rest by the largest
  identifier; rows saved meanwhile come behind.
\<close>

definition in_flight :: "'w host \<Rightarrow> dg_update_event list \<Rightarrow> int \<Rightarrow> bool" where
  "in_flight h evts maxId \<longleftrightarrow>
    (\<exists>pre post. report_events h = Some (pre @ post) \<and> decoded pre = evts
      \<and> maxId \<in> fst ` set pre \<and> (\<forall>r \<in> set pre. fst r \<le> maxId) \<and> (\<forall>r \<in> set post. maxId < fst r))"

fun worker_ok :: "'w env \<Rightarrow> gw_client \<Rightarrow> 'w host \<Rightarrow> worker \<Rightarrow> bool" where
  "worker_ok E c h NotRunning = True"
| "worker_ok E c h Selecting = True"
| "worker_ok E c h (Sending evts m) = (in_flight h evts m \<and> (\<forall>e \<in> set evts. good_event e))"
| "worker_ok E c h (Deleting evts m) = (in_flight h evts m \<and> set evts \<subseteq> set (posted E c h))"

definition kept :: "'w env \<Rightarrow> gw_client \<Rightarrow> dg_update_event list \<Rightarrow> 'w host \<Rightarrow> bool" where
  "kept E c all h \<longleftrightarrow> (\<exists>k. queued h = drop k all \<and> set (take k all) \<subseteq> set (posted E c h))"

text \<open>How the channels, the goroutine and the caller are related.\<close>

fun control :: "caller \<Rightarrow> bool \<Rightarrow> bool \<Rightarrow> bool \<Rightarrow> bool" where
  "control Idle running st stop = (st = running \<and> \<not> stop)"
| "control Notifying running st stop = (st = running \<and> \<not> stop)"
| "control StopFlush running st stop = (st \<and> running \<and> \<not> stop)"
| "control StopSignal running st stop = (st \<and> running \<and> \<not> stop)"
| "control Waiting running st stop = (st \<and> stop = running)"

definition control_ok :: "'w sender \<Rightarrow> bool" where
  "control_ok s \<longleftrightarrow> control (caller s) (worker s \<noteq> NotRunning) (started s) (stopChan s)"

definition sender_inv :: "'w env \<Rightarrow> gw_client \<Rightarrow> dg_update_event list \<Rightarrow> 'w sender \<Rightarrow> bool" where
  "sender_inv E c old s \<longleftrightarrow> queue_ok (host s) \<and> worker_ok E c (host s) (worker s)
     \<and> kept E c (old @ accepted s) (host s) \<and> control_ok s"

section \<open>Preservation\<close>

lemma in_flight_table:
  "in_flight h evts m \<Longrightarrow> report_events h' = report_events h \<Longrightarrow> in_flight h' evts m"
  by (simp add: in_flight_def)

lemma in_flight_save:
  assumes "in_flight h evts m" and "SaveEvent E ev h = (e, h')"
  shows "in_flight h' evts m"
proof (cases e)
  case None
  from assms(1) obtain pre post where p: "report_events h = Some (pre @ post)" "decoded pre = evts"
    "m \<in> fst ` set pre" "\<forall>r \<in> set pre. fst r \<le> m" "\<forall>r \<in> set post. m < fst r" by (auto simp: in_flight_def)
  let ?new = "(next_id (pre @ post), JsonDoc (event_json ev))"
  have "report_events h' = Some (pre @ post @ [?new])"
    using SaveEvent_cases [OF assms(2)] None p(1) by auto
  moreover have "m < next_id (pre @ post)" using p(3) next_id_gt(1) [of _ "pre @ post"] by fastforce
  ultimately show ?thesis
    unfolding in_flight_def using p by (intro exI [of _ pre] exI [of _ "post @ [?new]"]) auto
qed (use SaveEvent_cases [OF assms(2)] in_flight_table [OF assms(1), of h'] in auto)

lemma posted_save: "SaveEvent E ev h = (e, h') \<Longrightarrow> posted E c h' = posted E c h"
  by (drule SaveEvent_cases) (simp add: posted_def)

lemma worker_ok_save:
  "worker_ok E c h w \<Longrightarrow> SaveEvent E ev h = (e, h') \<Longrightarrow> worker_ok E c h' w"
  by (cases w) (auto simp: posted_save intro: in_flight_save)

lemma worker_ok_tables:
  "worker_ok E c h w \<Longrightarrow> report_events h' = report_events h \<Longrightarrow> posted E c h' = posted E c h \<Longrightarrow> worker_ok E c h' w"
  by (cases w) (auto intro: in_flight_table)

lemma kept_tables:
  "kept E c all h \<Longrightarrow> report_events h' = report_events h \<Longrightarrow> set (posted E c h) \<subseteq> set (posted E c h')
     \<Longrightarrow> kept E c all h'"
  unfolding kept_def queued_def by auto

lemma kept_save:
  assumes "kept E c all h" and "queue_ok h" and "good_event ev" and "SaveEvent E ev h = (None, h')"
  shows "kept E c (all @ [ev]) h'"
proof -
  from assms(1) obtain k where k: "queued h = drop k all" "set (take k all) \<subseteq> set (posted E c h)"
    by (auto simp: kept_def)
  let ?k = "min k (length all)"
  have "queued h' = drop ?k (all @ [ev])"
    using SaveEvent_queue [OF assms(2,3,4)] k(1) by (cases "k \<le> length all") auto
  moreover have "set (take ?k (all @ [ev])) \<subseteq> set (posted E c h')"
    using k(2) posted_save [OF assms(4), of c] by (cases "k \<le> length all") auto
  ultimately show ?thesis unfolding kept_def by blast
qed

lemma kept_delete:
  assumes "kept E c all h" and "in_flight h evts m" and "set evts \<subseteq> set (posted E c h)"
    and "queue_ok h" and "DeleteEvents E m h = (e, h')"
  shows "kept E c all h'" "queue_ok h'"
proof -
  note d = DeleteEvents_cases [OF assms(5)]
  have p: "posted E c h' = posted E c h" using d by (simp add: posted_def)
  from assms(2) obtain pre post where rows: "report_events h = Some (pre @ post)" "decoded pre = evts"
    "\<forall>r \<in> set pre. fst r \<le> m" "\<forall>r \<in> set post. m < fst r" by (auto simp: in_flight_def)
  have "filter (\<lambda>r. \<not> fst r \<le> m) pre = []" using rows(3) by (simp add: filter_empty_conv)
  moreover have "filter (\<lambda>r. \<not> fst r \<le> m) post = post" using rows(4) by (intro filter_True) auto
  ultimately have post: "filter (\<lambda>r. \<not> fst r \<le> m) (pre @ post) = post" by simp
  have gone: "report_events h' = Some post" if "e = None" using that d rows(1) post by auto
  have "queue_ok h' \<and> kept E c all h'"
  proof (cases "e = None")
    case False
    with d assms(1,4) p show ?thesis by (simp add: queue_ok_def kept_tables)
  next
    case True
    from assms(1) obtain k where k: "queued h = drop k all" "set (take k all) \<subseteq> set (posted E c h)"
      by (auto simp: kept_def)
    have eq: "drop k all = evts @ decoded post" using k(1) rows by (simp add: queued_def)
    have "queued h' = drop (k + length evts) all"
    proof -
      have "drop (k + length evts) all = drop (length evts) (drop k all)" by (simp add: add.commute)
      with gone [OF True] eq show ?thesis by (simp add: queued_def)
    qed
    moreover have "take (k + length evts) all = take k all @ evts" using eq by (simp add: take_add)
    ultimately have "kept E c all h'" using k(2) assms(3) p by (auto simp: kept_def intro!: exI [of _ "k + length evts"])
    moreover have "queue_ok h'" using gone [OF True] assms(4) rows(1) by (auto simp: queue_ok_def rows_ok_def sorted_wrt_append)
    ultimately show ?thesis by simp
  qed
  then show "kept E c all h'" "queue_ok h'" by simp_all
qed

lemma begin_flush_cases:
  "\<exists>h r. GetEvents E (host s) = (r, h) \<and>
     (begin_flush E s = s\<lparr>host := h\<rparr>
      \<or> (\<exists>evts m. r = Inr (evts, m) \<and> evts \<noteq> [] \<and> begin_flush E s = s\<lparr>host := h, worker := Sending evts m\<rparr>))"
  by (cases "GetEvents E (host s)") (auto simp: begin_flush_def split: sum.splits)

lemma GetEvents_in_flight:
  assumes "rowid_order E" and "queue_ok h" and "GetEvents E h = (Inr (evts, m), h')" and "evts \<noteq> []"
  shows "in_flight h' evts m \<and> (\<forall>e \<in> set evts. good_event e)"
proof -
  obtain rows where rows: "report_events h = Some rows" "rows_ok rows"
    using assms(2) by (auto simp: queue_ok_def split: option.splits)
  note b = GetEvents_batch [OF assms(1) rows assms(3)]
  let ?pre = "take max_events rows" and ?post = "drop max_events rows"
  have pre: "decoded ?pre = evts" using rows(2) b(1) by (simp add: decoded_take_drop rows_ok_def)
  have pos: "\<forall>r \<in> set rows. -1 < fst r" using rows(2) by (force simp: rows_ok_def)
  have "?pre \<noteq> []" using assms(4) pre by (metis decoded_simps(1))
  then have filt: "filter (\<lambda>r. \<not> fst r \<le> m) rows = ?post"
    unfolding b(2) using rows(2) pos by (intro delete_batch) (simp_all add: rows_ok_def)
  have "m \<in> insert (-1) (fst ` set ?pre)" unfolding b(2) using fold_max_mem [of "map fst ?pre" "-1"] by simp
  moreover have le: "\<forall>r \<in> set ?pre. fst r \<le> m" unfolding b(2) by (rule ballI, rule fold_max_ge) auto
  moreover have "m \<noteq> -1"
    using \<open>?pre \<noteq> []\<close> le pos by (metis in_set_takeD list.set_intros(1) neq_Nil_conv verit_comp_simplify1(3))
  moreover have "\<forall>r \<in> set ?post. m < fst r" unfolding filt [symmetric] by auto
  ultimately have "in_flight h evts m"
    unfolding in_flight_def using rows(1) pre by (intro exI [of _ ?pre] exI [of _ ?post]) simp
  moreover have "\<forall>e \<in> set evts. good_event e" using decoded_good pre by blast
  ultimately show ?thesis using GetEvents_frame [OF assms(3)] by (auto intro: in_flight_table)
qed

lemma begin_flush_inv:
  assumes "rowid_order E" and "sender_inv E c old s" and "worker s = Selecting"
  shows "sender_inv E c old (begin_flush E s)"
proof -
  obtain h r where g: "GetEvents E (host s) = (r, h)" by fastforce
  note fr = GetEvents_frame [OF g]
  have same: "queue_ok h = queue_ok (host s)" "posted E c h = posted E c (host s)"
    using fr by (simp_all add: queue_ok_def posted_def)
  from begin_flush_cases [of E s] g consider "begin_flush E s = s\<lparr>host := h\<rparr>"
    | evts m where "r = Inr (evts, m)" "evts \<noteq> []" "begin_flush E s = s\<lparr>host := h, worker := Sending evts m\<rparr>"
    by auto
  then show ?thesis
  proof cases
    case 1
    with assms(2,3) same fr show ?thesis by (auto simp: sender_inv_def control_ok_def intro: kept_tables)
  next
    case 2
    have "worker_ok E c h (Sending evts m)"
      using GetEvents_in_flight [OF assms(1) _ g [unfolded 2(1)] 2(2)] assms(2) by (simp add: sender_inv_def)
    with 2(3) assms(2,3) same fr show ?thesis
      by (auto simp: sender_inv_def control_ok_def intro: kept_tables)
  qed
qed

lemma kept_ext: "kept E c all h \<Longrightarrow> report_events h' = report_events h \<Longrightarrow> posted E c h' = posted E c h \<Longrightarrow> kept E c all h'"
  unfolding kept_def queued_def by simp

lemma sstep_inv:
  assumes "sstep E c s s'" and "rowid_order E" and inv: "sender_inv E c old s"
  shows "sender_inv E c old s'"
  using assms(1)
proof cases
  case (Save ev h)
  with inv SaveEvent_queue [of "host s" ev E None h c] show ?thesis
    by (auto simp: sender_inv_def control_ok_def intro: worker_ok_save kept_save simp flip: append_assoc)
next
  case (Save_error ev err h)
  note cs = SaveEvent_cases [OF Save_error(4)]
  have p: "posted E c h = posted E c (host s)" using posted_save [OF Save_error(4)] .
  have "worker_ok E c h (worker s)"
    by (rule worker_ok_tables [of E c "host s"]) (use inv cs p in \<open>auto simp: sender_inv_def\<close>)
  moreover have "kept E c (old @ accepted s) h"
    by (rule kept_ext [of E c _ "host s"]) (use inv cs p in \<open>auto simp: sender_inv_def\<close>)
  moreover have "queue_ok h" using inv cs by (simp add: sender_inv_def queue_ok_def)
  moreover have "control_ok s'" using inv Save_error(1) by (simp add: sender_inv_def control_ok_def)
  ultimately show ?thesis using Save_error(1) by (simp add: sender_inv_def)
next
  case Worker_stop
  with inv show ?thesis by (cases "caller s") (simp_all add: sender_inv_def control_ok_def)
next
  case Worker_flush
  have "sender_inv E c old (s\<lparr>flushChan := False\<rparr>)" using inv by (simp add: sender_inv_def control_ok_def)
  from begin_flush_inv [OF assms(2) this] show ?thesis unfolding Worker_flush(1) using Worker_flush(2) by simp
next
  case Worker_tick
  with begin_flush_inv [OF assms(2) inv Worker_tick(2)] show ?thesis by (simp only:)
next
  case (Worker_sent evts m h)
  note sf = sendEvent_frame [OF Worker_sent(3)]
  have w: "in_flight (host s) evts m" "\<forall>e \<in> set evts. good_event e"
    using inv Worker_sent(2) by (simp_all add: sender_inv_def)
  have p: "posted E c h = posted E c (host s) @ evts" by (rule posted_send [OF Worker_sent(3) w(2)])
  have "worker_ok E c h (Deleting evts m)" using in_flight_table [OF w(1), of h] sf p by simp
  moreover have "kept E c (old @ accepted s) h"
    by (rule kept_tables [of E c _ "host s"]) (use inv sf p in \<open>auto simp: sender_inv_def\<close>)
  ultimately show ?thesis using inv Worker_sent(1,2) sf by (simp add: sender_inv_def control_ok_def queue_ok_def)
next
  case (Worker_send_error evts m err h)
  note sf = sendEvent_frame [OF Worker_send_error(3)]
  have "\<forall>e \<in> set evts. good_event e" using inv Worker_send_error(2) by (simp add: sender_inv_def)
  from posted_send [OF Worker_send_error(3) this] have p: "posted E c h = posted E c (host s) @ evts" .
  have "kept E c (old @ accepted s) h"
    by (rule kept_tables [of E c _ "host s"]) (use inv sf p in \<open>auto simp: sender_inv_def\<close>)
  then show ?thesis using inv Worker_send_error(1,2) sf by (simp add: sender_inv_def control_ok_def queue_ok_def)
next
  case (Worker_delete evts m e h)
  with inv kept_delete [OF _ _ _ _ Worker_delete(3), of c "old @ accepted s" evts] show ?thesis
    by (auto simp: sender_inv_def control_ok_def)
qed (use inv in \<open>auto simp: sender_inv_def control_ok_def FlushEventsAsync_def split: if_splits\<close>)

lemma reachable_inv:
  assumes "reachable E c h s" and "rowid_order E" and "queue_ok h"
  shows "sender_inv E c (queued h) s"
  using assms(1)
proof induction
  case init
  show ?case using assms(3)
    by (auto simp: sender_inv_def new_sender_def control_ok_def kept_def intro: exI [of _ 0])
next
  case (step s s')
  then show ?case using sstep_inv assms(2) by blast
qed

section \<open>The caller is never stuck\<close>

abbreviation sstar :: "'w env \<Rightarrow> gw_client \<Rightarrow> 'w sender \<Rightarrow> 'w sender \<Rightarrow> bool" where
  "sstar E c \<equiv> (sstep E c)\<^sup>*\<^sup>*"

text \<open>A flush under way can be brought to its end; this changes neither the caller nor the channels.\<close>

definition same_control :: "'w sender \<Rightarrow> 'w sender \<Rightarrow> bool" where
  "same_control s s' \<longleftrightarrow> caller s' = caller s \<and> started s' = started s \<and> stopChan s' = stopChan s
     \<and> flushChan s' = flushChan s"

lemma worker_returns:
  fixes s :: "'w sender"
  assumes "worker s \<noteq> NotRunning"
  shows "\<exists>s'. sstar E c s s' \<and> worker s' = Selecting \<and> same_control s s'"
proof -
  have del: "\<exists>s'. sstar E c s s' \<and> worker s' = Selecting \<and> same_control s s'"
    if "worker s = Deleting evts m" for s :: "'w sender" and evts m
  proof -
    obtain e h where d: "DeleteEvents E m (host s) = (e, h)" by fastforce
    have "sstep E c s (s\<lparr>host := h, worker := Selecting\<rparr>)" by (rule sstep.Worker_delete [OF that d])
    then show ?thesis by (intro exI [of _ "s\<lparr>host := h, worker := Selecting\<rparr>"]) (auto simp: same_control_def)
  qed
  show ?thesis
  proof (cases "worker s")
    case (Sending evts m)
    obtain e h where f: "sendEvent E c evts (host s) = (e, h)" by fastforce
    show ?thesis
    proof (cases e)
      case None
      let ?t = "s\<lparr>host := h, worker := Deleting evts m\<rparr>"
      have "sstep E c s ?t" using sstep.Worker_sent [OF Sending] f None by simp
      moreover obtain s' where "sstar E c ?t s'" "worker s' = Selecting" "same_control ?t s'"
        using del [of ?t evts m] by auto
      ultimately show ?thesis by (intro exI [of _ s']) (auto simp: same_control_def intro: converse_rtranclp_into_rtranclp)
    next
      case (Some err)
      have "sstep E c s (s\<lparr>host := h, worker := Selecting\<rparr>)"
        using sstep.Worker_send_error [OF Sending] f Some by simp
      then show ?thesis by (intro exI [of _ "s\<lparr>host := h, worker := Selecting\<rparr>"])
          (auto simp: same_control_def)
    qed
  qed (use assms del in \<open>auto simp: same_control_def\<close>)
qed

lemma stop_finishes:
  assumes "caller s = Waiting" and "worker s = Selecting" and "stopChan s"
  shows "\<exists>s'. sstar E c s s' \<and> caller s' = Idle"
proof -
  let ?t = "s\<lparr>stopChan := False, worker := NotRunning\<rparr>"
  have "sstep E c s ?t" using assms(2,3) by (rule sstep.Worker_stop)
  moreover have "sstep E c ?t (?t\<lparr>started := False, stopChan := False, flushChan := False, caller := Idle\<rparr>)"
    using assms(1) by (intro sstep.Stop_wait) simp_all
  ultimately show ?thesis
    by (intro exI [of _ "?t\<lparr>started := False, stopChan := False, flushChan := False, caller := Idle\<rparr>"])
      (auto intro: converse_rtranclp_into_rtranclp)
qed

text \<open>An empty flush channel can always be reached: the goroutine takes the token.\<close>

lemma channel_drains:
  assumes "worker s \<noteq> NotRunning"
  shows "\<exists>s'. sstar E c s s' \<and> \<not> flushChan s' \<and> worker s' \<noteq> NotRunning \<and> caller s' = caller s
    \<and> started s' = started s \<and> stopChan s' = stopChan s"
proof -
  obtain s1 where s1: "sstar E c s s1" "worker s1 = Selecting" "same_control s s1"
    using worker_returns [OF assms] by blast
  show ?thesis
  proof (cases "flushChan s1")
    case True
    let ?t = "begin_flush E (s1\<lparr>flushChan := False\<rparr>)"
    have "sstep E c s1 ?t" using s1(2) True by (rule sstep.Worker_flush)
    with s1(1) have "sstar E c s ?t" by simp
    moreover have "\<not> flushChan ?t \<and> worker ?t \<noteq> NotRunning \<and> caller ?t = caller s1 \<and> started ?t = started s1
        \<and> stopChan ?t = stopChan s1"
      using begin_flush_cases [of E "s1\<lparr>flushChan := False\<rparr>"] s1(2) by auto
    ultimately show ?thesis using s1(3) by (auto simp: same_control_def)
  qed (use s1 in \<open>auto simp: same_control_def\<close>)
qed

lemma signal_finishes:
  assumes "caller s = StopSignal" and "worker s \<noteq> NotRunning" and "\<not> stopChan s"
  shows "\<exists>s'. sstar E c s s' \<and> caller s' = Idle"
proof -
  let ?t = "s\<lparr>stopChan := True, caller := Waiting\<rparr>"
  have "sstep E c s ?t" using assms(1,3) by (rule sstep.Stop_signal)
  moreover obtain s1 where "sstar E c ?t s1" "worker s1 = Selecting" "same_control ?t s1"
    using worker_returns [of ?t E c] assms(2) by auto
  moreover from this obtain s2 where "sstar E c s1 s2" "caller s2 = Idle"
    using stop_finishes [of s1 E c] by (auto simp: same_control_def)
  ultimately show ?thesis by (meson converse_rtranclp_into_rtranclp rtranclp_trans)
qed

lemma caller_finishes:
  assumes "control_ok s"
  shows "\<exists>s'. sstar E c s s' \<and> caller s' = Idle"
proof (cases "caller s")
  case Idle
  then show ?thesis by blast
next
  case Notifying
  show ?thesis
  proof (cases "started s")
    case False
    with Notifying have "sstep E c s (s\<lparr>caller := Idle\<rparr>)" by (intro sstep.Notify) (simp_all add: FlushEventsAsync_def)
    then show ?thesis by (intro exI [of _ "s\<lparr>caller := Idle\<rparr>"]) auto
  next
    case True
    with assms Notifying have "worker s \<noteq> NotRunning" by (simp add: control_ok_def)
    from channel_drains [OF this, of E c] obtain s1 where s1: "sstar E c s s1" "\<not> flushChan s1"
      "caller s1 = Notifying" "started s1" using Notifying True by auto
    then have "sstep E c s1 (s1\<lparr>flushChan := True, caller := Idle\<rparr>)" by (intro sstep.Notify) (simp_all add: FlushEventsAsync_def)
    with s1(1) show ?thesis by (intro exI [of _ "s1\<lparr>flushChan := True, caller := Idle\<rparr>"]) auto
  qed
next
  case StopFlush
  with assms have "worker s \<noteq> NotRunning" "\<not> stopChan s" by (simp_all add: control_ok_def)
  from channel_drains [OF this(1), of E c] this StopFlush obtain s1 where s1: "sstar E c s s1" "\<not> flushChan s1"
    "caller s1 = StopFlush" "worker s1 \<noteq> NotRunning" "\<not> stopChan s1" by auto
  let ?t = "s1\<lparr>flushChan := True, caller := StopSignal\<rparr>"
  have "sstep E c s1 ?t" using s1(3,2) by (rule sstep.Stop_flush)
  moreover obtain s2 where "sstar E c ?t s2" "caller s2 = Idle" using signal_finishes [of ?t E c] s1 by auto
  ultimately show ?thesis using s1(1) by (meson converse_rtranclp_into_rtranclp rtranclp_trans)
next
  case StopSignal
  with assms show ?thesis by (intro signal_finishes) (simp_all add: control_ok_def)
next
  case Waiting
  show ?thesis
  proof (cases "worker s = NotRunning")
    case True
    have "sstep E c s (s\<lparr>started := False, stopChan := False, flushChan := False, caller := Idle\<rparr>)"
      using Waiting True by (rule sstep.Stop_wait)
    then show ?thesis
      by (intro exI [of _ "s\<lparr>started := False, stopChan := False, flushChan := False, caller := Idle\<rparr>"]) auto
  next
    case False
    then have stop: "stopChan s" using assms Waiting by (simp add: control_ok_def)
    from worker_returns [OF False, of E c] obtain s1 where s1: "sstar E c s s1" "worker s1 = Selecting" "same_control s s1"
      by blast
    with stop_finishes [of s1 E c] Waiting stop obtain s2 where "sstar E c s1 s2" "caller s2 = Idle"
      by (auto simp: same_control_def)
    with s1(1) show ?thesis by (meson rtranclp_trans)
  qed
qed

section \<open>Properties\<close>



text \<open>
  C33: the sender never blocks its caller for good: from every reachable state, whatever the
  caller is waiting for in \<open>EnqueueEvent\<close> or \<open>Stop\<close>, some further steps of the goroutine bring the
  caller back; and when the caller is idle and the sender stopped, the goroutine has ended.
\<close>
theorem sender_never_blocks:
  assumes "rowid_order E" and "queue_ok h" and "reachable E c h s"
  shows "(\<exists>s'. (sstep E c)\<^sup>*\<^sup>* s s' \<and> caller s' = Idle)
    \<and> (caller s = Idle \<and> \<not> started s \<longrightarrow> worker s = NotRunning)"
proof -
  have "control_ok s" using reachable_inv [OF assms(3,1,2)] by (simp add: sender_inv_def)
  then show ?thesis using caller_finishes by (auto simp: control_ok_def)
qed

theorem sender_never_blocks_witness:
  defines "E \<equiv> (undefined :: unit env)\<lparr>x_select_order := \<lambda>ids w. ids\<rparr>"
  defines "h \<equiv> \<lparr>ext = (), fs = Map.empty, report_events = Some [], installed_versions = None, reqs = []\<rparr>"
  shows "worker (new_sender h) = NotRunning \<and> caller (new_sender h) = Idle"
proof -
  have "rowid_order E" by (simp add: rowid_order_def E_def)
  moreover have "queue_ok h" by (simp add: queue_ok_def h_def rows_ok_def)
  ultimately show ?thesis
    using sender_never_blocks [OF _ _ reachable.init, of E h] by (simp add: new_sender_def)
qed

end
