(* ===== verification/Status.thy ===== *)
theory Status
  imports Target
begin

text \<open>
  \<open>pkg/status/status.go\<close>: the status of the apps on the device and of the last update, read from
  the composeapp library.
\<close>

section \<open>Data\<close>

record app_status =
  ap_URI :: string
  ap_Name :: string
  ap_Fetched :: bool
  ap_Installed :: bool
  ap_Running :: bool

record current_status =
  cs_UpdateID :: string
  cs_TargetID :: string
  cs_AppStatuses :: "(string \<times> app_status) list"
  cs_CompletedAt :: time

record blob_stats =
  bs_Bytes :: int
  bs_NumBlobs :: int

record update_status =
  us_ID :: string
  us_TargetID :: string
  us_State :: upd_state
  us_StartTime :: time
  us_UpdatedAt :: time
  us_Apps :: "string list option"
  us_Size :: blob_stats
  us_FetchedSize :: blob_stats
  us_Progress :: int

section \<open>Operations\<close>

definition app_status_of :: "apps_status \<Rightarrow> app_info \<Rightarrow> app_status" where
  "app_status_of s a =
    \<lparr>ap_URI = ai_Ref a, ap_Name = ai_Name a, ap_Fetched = as_AreFetched s,
     ap_Installed = as_AreInstalled s, ap_Running = as_AreRunning s\<rparr>"

definition app_statuses :: "apps_status \<Rightarrow> (string \<times> app_status) list" where
  "app_statuses s = foldl (\<lambda>m a. AList.update (ai_Ref a) (app_status_of s a) m) [] (as_Apps s)"

definition GetCurrentStatus :: "'w env \<Rightarrow> 'w \<Rightarrow> current_status result" where
  "GetCurrentStatus E w =
    (let (cur, appURIs) =
       (case x_GetLastSuccessfulUpdate E w of
          Inr u \<Rightarrow> (\<lparr>cs_UpdateID = u_ID u, cs_TargetID = u_ClientRef u, cs_AppStatuses = [],
                     cs_CompletedAt = u_UpdateTime u\<rparr>, u_URIs u)
        | Inl e \<Rightarrow> (\<lparr>cs_UpdateID = '''', cs_TargetID = ''unknown'', cs_AppStatuses = [], cs_CompletedAt = 0\<rparr>, None))
     in case x_CheckAppsStatus E appURIs [WithQuickCheckFetch True] w of
          Inl e \<Rightarrow> Inl (errorf ''failed to check apps' status'' e)
        | Inr s \<Rightarrow>
            Inr (cur\<lparr>cs_AppStatuses := app_statuses s\<rparr>))"

definition GetUpdateStatus :: "'w env \<Rightarrow> 'w \<Rightarrow> update_status result" where
  "GetUpdateStatus E w =
    (case x_GetLastUpdate E w of
       Inl e \<Rightarrow> Inl (errorf ''failed to get last update'' e)
     | Inr s \<Rightarrow> Inr
         \<lparr>us_ID = u_ID s, us_TargetID = u_ClientRef s, us_State = u_State s,
          us_StartTime = u_CreationTime s, us_UpdatedAt = u_UpdateTime s, us_Apps = u_URIs s,
          us_Size = \<lparr>bs_Bytes = u_TotalBlobsBytes s, bs_NumBlobs = int (length (u_Blobs s))\<rparr>,
          us_FetchedSize = \<lparr>bs_Bytes = u_FetchedBytes s, bs_NumBlobs = u_FetchedBlobs s\<rparr>,
          us_Progress = u_Progress s\<rparr>)"

definition AppStatusList :: "'w env \<Rightarrow> 'w \<Rightarrow> current_status \<Rightarrow> app_status list" where
  "AppStatusList E w s = map snd (range_map E w (cs_AppStatuses s))"

definition AreAppsHealthy :: "current_status \<Rightarrow> bool" where
  "AreAppsHealthy s \<longleftrightarrow>
    list_all (\<lambda>(k, a). \<not> (\<not> ap_Running a \<or> \<not> ap_Installed a \<or> \<not> ap_Fetched a)) (cs_AppStatuses s)"

section \<open>Lemmas\<close>

lemma foldl_update_map_of:
  "map_of (foldl (\<lambda>m a. AList.update (f a) (g a) m) m0 as) k =
     (case find (\<lambda>a. f a = k) (rev as) of Some a \<Rightarrow> Some (g a) | None \<Rightarrow> map_of m0 k)"
  by (induction as arbitrary: m0 rule: rev_induct) (auto simp: update_conv')

lemma foldl_update_distinct:
  "distinct (map fst m0) \<Longrightarrow> distinct (map fst (foldl (\<lambda>m a. AList.update (f a) (g a) m) m0 as))"
  by (induction as arbitrary: m0) (auto simp: distinct_update)

lemma GetCurrentStatus_Inr:
  "GetCurrentStatus E w = Inr s \<Longrightarrow>
     \<exists>uris st. x_CheckAppsStatus E uris [WithQuickCheckFetch True] w = Inr st
       \<and> cs_AppStatuses s = app_statuses st
       \<and> (case x_GetLastSuccessfulUpdate E w of
         Inr u \<Rightarrow> uris = u_URIs u \<and> cs_TargetID s = u_ClientRef u \<and> cs_UpdateID s = u_ID u
       | Inl e \<Rightarrow> uris = None \<and> cs_TargetID s = ''unknown'')"
  by (auto simp: GetCurrentStatus_def split: sum.splits)

lemma GetCurrentStatus_distinct:
  "GetCurrentStatus E w = Inr s \<Longrightarrow> distinct (map fst (cs_AppStatuses s))"
  by (auto dest!: GetCurrentStatus_Inr simp: app_statuses_def foldl_update_distinct)

lemma AreAppsHealthy_map_of:
  assumes "distinct (map fst (cs_AppStatuses s))"
  shows "AreAppsHealthy s \<longleftrightarrow>
    (\<forall>k a. map_of (cs_AppStatuses s) k = Some a \<longrightarrow> ap_Running a \<and> ap_Installed a \<and> ap_Fetched a)"
  using assms by (fastforce simp: AreAppsHealthy_def list_all_iff)

section \<open>Properties\<close>

text \<open>
  The current status lists each app that the check of the apps reports, under its reference,
  with the flags of that check (those of all the apps together), and names the last successful
  update, or \<open>unknown\<close> when there is none; the apps count as healthy exactly when there is none or
  all are fetched, installed and running.
\<close>
theorem GetCurrentStatus_exact:
  assumes "GetCurrentStatus E w = Inr s"
  shows "\<exists>uris st. x_CheckAppsStatus E uris [WithQuickCheckFetch True] w = Inr st
    \<and> (case x_GetLastSuccessfulUpdate E w of
         Inr u \<Rightarrow> uris = u_URIs u \<and> cs_TargetID s = u_ClientRef u \<and> cs_UpdateID s = u_ID u
       | Inl e \<Rightarrow> uris = None \<and> cs_TargetID s = ''unknown'')
    \<and> fst ` set (cs_AppStatuses s) = ai_Ref ` set (as_Apps st)
    \<and> (\<forall>r a. map_of (cs_AppStatuses s) r = Some a \<longrightarrow>
         ap_URI a = r \<and> ap_Fetched a = as_AreFetched st \<and> ap_Installed a = as_AreInstalled st
         \<and> ap_Running a = as_AreRunning st)
    \<and> (AreAppsHealthy s \<longleftrightarrow>
         as_Apps st = [] \<or> as_AreFetched st \<and> as_AreInstalled st \<and> as_AreRunning st)"
proof -
  from GetCurrentStatus_Inr [OF assms] obtain uris st where st: "x_CheckAppsStatus E uris [WithQuickCheckFetch True] w = Inr st"
    and who: "case x_GetLastSuccessfulUpdate E w of
         Inr u \<Rightarrow> uris = u_URIs u \<and> cs_TargetID s = u_ClientRef u \<and> cs_UpdateID s = u_ID u
       | Inl e \<Rightarrow> uris = None \<and> cs_TargetID s = ''unknown''"
    and m: "cs_AppStatuses s = app_statuses st"
    by blast
  have look: "map_of (cs_AppStatuses s) r =
      (case find (\<lambda>a. ai_Ref a = r) (rev (as_Apps st)) of Some a \<Rightarrow> Some (app_status_of st a) | None \<Rightarrow> None)" for r
    by (simp add: m app_statuses_def foldl_update_map_of split: option.split)
  have keys: "fst ` set (cs_AppStatuses s) = ai_Ref ` set (as_Apps st)"
  proof (rule set_eqI)
    fix r
    have "r \<in> fst ` set (cs_AppStatuses s) \<longleftrightarrow> map_of (cs_AppStatuses s) r \<noteq> None"
      by (simp add: map_of_eq_None_iff)
    also have "\<dots> \<longleftrightarrow> r \<in> ai_Ref ` set (as_Apps st)"
      by (auto simp: look find_None_all split: option.splits dest: find_Some_set)
    finally show "r \<in> fst ` set (cs_AppStatuses s) \<longleftrightarrow> r \<in> ai_Ref ` set (as_Apps st)" .
  qed
  have flags: "ap_URI a = r \<and> ap_Fetched a = as_AreFetched st \<and> ap_Installed a = as_AreInstalled st
      \<and> ap_Running a = as_AreRunning st" if "map_of (cs_AppStatuses s) r = Some a" for r a
    using that by (auto simp: look app_status_of_def split: option.splits dest: find_Some_set)
  have "AreAppsHealthy s \<longleftrightarrow> as_Apps st = [] \<or> as_AreFetched st \<and> as_AreInstalled st \<and> as_AreRunning st"
  proof (cases "as_Apps st")
    case Nil
    then show ?thesis by (simp add: AreAppsHealthy_def m app_statuses_def)
  next
    case (Cons a as)
    then have "map_of (cs_AppStatuses s) (ai_Ref a) \<noteq> None"
      using keys by (simp add: map_of_eq_None_iff)
    then obtain x where x: "map_of (cs_AppStatuses s) (ai_Ref a) = Some x" by blast
    note healthy = AreAppsHealthy_map_of [OF GetCurrentStatus_distinct [OF assms]]
    have "as_AreFetched st \<and> as_AreInstalled st \<and> as_AreRunning st" if "AreAppsHealthy s"
      using that [unfolded healthy, rule_format, OF x] flags [OF x] by simp
    moreover have "AreAppsHealthy s" if "as_AreFetched st \<and> as_AreInstalled st \<and> as_AreRunning st"
    proof (unfold healthy, intro allI impI)
      fix k y assume "map_of (cs_AppStatuses s) k = Some y"
      from flags [OF this] that show "ap_Running y \<and> ap_Installed y \<and> ap_Fetched y" by simp
    qed
    moreover from Cons have "as_Apps st \<noteq> []" by simp
    ultimately show ?thesis by (metis (no_types))
  qed
  moreover have "\<forall>r a. map_of (cs_AppStatuses s) r = Some a \<longrightarrow>
      ap_URI a = r \<and> ap_Fetched a = as_AreFetched st \<and> ap_Installed a = as_AreInstalled st
      \<and> ap_Running a = as_AreRunning st"
    using flags by blast
  ultimately show ?thesis using st who keys by (intro exI [of _ uris] exI [of _ st] conjI)
qed

theorem GetCurrentStatus_exact_witness:
  defines "E \<equiv> (undefined :: unit env)\<lparr>x_GetLastSuccessfulUpdate := \<lambda>w. Inl (Sentinel ErrUpdateNotFound),
     x_CheckAppsStatus := \<lambda>u opts w. Inr ((undefined :: apps_status)\<lparr>as_Apps :=
       [\<lparr>ai_Name = ''a'', ai_Ref = ''r/a@1'', ai_Digest = ''d''\<rparr>], as_AreFetched := True,
       as_AreInstalled := True, as_AreRunning := False\<rparr>)\<rparr>"
  shows "\<exists>s. GetCurrentStatus E () = Inr s \<and> \<not> AreAppsHealthy s \<and> cs_TargetID s = ''unknown''"
proof -
  have "\<exists>s. GetCurrentStatus E () = Inr s" by (simp add: GetCurrentStatus_def E_def)
  then obtain s where s: "GetCurrentStatus E () = Inr s" by blast
  from GetCurrentStatus_exact [OF s] have "\<not> AreAppsHealthy s \<and> cs_TargetID s = ''unknown''"
    by (auto simp: E_def)
  with s show ?thesis by blast
qed

end
