(* ===== verification/TargetDb.thy ===== *)
theory TargetDb
  imports Events
begin

text \<open>
  \<open>internal/targets/target_db.go\<close> and \<open>internal/db/db.go\<close>: the table \<open>installed_versions\<close>, in
  which a target is recorded as pending, current or failed. A row is found again by the name of
  the target, but only the newest row is compared with it.
\<close>

section \<open>The JSON form of a target\<close>

definition app_json :: "app \<Rightarrow> json" where
  "app_json a = JObj [(''name'', JStr (aName a)), (''uri'', JStr (aURI a))]"

definition target_json :: "target \<Rightarrow> json" where
  "target_json t =
    JObj [(''id'', JStr (tID t)), (''version'', jint (tVersion t)),
          (''apps'', if tApps t = [] then JNull else JArr (map app_json (tApps t)))]"

definition zero_target :: target where
  "zero_target = \<lparr>tID = '''', tVersion = 0, tApps = []\<rparr>"

definition set_app_field :: "string \<Rightarrow> json \<Rightarrow> app \<Rightarrow> app \<times> bool" where
  "set_app_field k v a =
    (if key_is ''name'' k then put (\<lambda>x. a\<lparr>aName := x\<rparr>) (dec_str v (aName a))
     else if key_is ''uri'' k then put (\<lambda>x. a\<lparr>aURI := x\<rparr>) (dec_str v (aURI a))
     else (a, True))"

definition set_target_field :: "string \<Rightarrow> json \<Rightarrow> target \<Rightarrow> target \<times> bool" where
  "set_target_field k v t =
    (if key_is ''id'' k then put (\<lambda>x. t\<lparr>tID := x\<rparr>) (dec_str v (tID t))
     else if key_is ''version'' k then put (\<lambda>x. t\<lparr>tVersion := x\<rparr>) (dec_int v (tVersion t))
     else if key_is ''apps'' k then
       put (\<lambda>x. t\<lparr>tApps := x\<rparr>)
         (dec_slice (dec_struct set_app_field) \<lparr>aName = '''', aURI = ''''\<rparr> v (tApps t))
     else (t, True))"

definition unmarshal_target :: "content \<Rightarrow> target result" where
  "unmarshal_target c =
    (case c of
       Raw s \<Rightarrow> Inl (ErrorString ''invalid character'')
     | JsonDoc j \<Rightarrow>
         (case dec_struct set_target_field j zero_target of
            (t, True) \<Rightarrow> Inr t
          | (t, False) \<Rightarrow> Inl (ErrorString ''json: cannot unmarshal'')))"

section \<open>The table\<close>

datatype update_mode = updateModeCurrent | updateModePending | updateModeFailed

definition no_table :: goerr where
  "no_table = ErrorString ''no such table: installed_versions''"

text \<open>One statement that changes the table.\<close>

definition exec_versions ::
  "'w env \<Rightarrow> string \<Rightarrow> string \<Rightarrow> (installed_version list \<Rightarrow> installed_version list) \<Rightarrow> 'w host
   \<Rightarrow> goerr option \<times> 'w host" where
  "exec_versions E stmt msg f h =
    (case io E (OpSqlExec stmt) h of
       (Some err, h) \<Rightarrow> (Some (errorf msg err), h)
     | (None, h) \<Rightarrow>
         (case installed_versions h of
            None \<Rightarrow> (Some (errorf msg no_table), h)
          | Some rows \<Rightarrow> (None, h\<lparr>installed_versions := Some (f rows)\<rparr>)))"

definition CreateTargetsTable :: "'w env \<Rightarrow> 'w host \<Rightarrow> goerr option \<times> 'w host" where
  "CreateTargetsTable E h =
    (case io E OpSqlOpen h of
       (Some err, h) \<Rightarrow> (Some (errorf ''failed to open database'' err), h)
     | (None, h) \<Rightarrow>
         (case io E (OpSqlExec ''CREATE TABLE installed_versions'') h of
            (Some err, h) \<Rightarrow> (Some (errorf ''failed to create installed_versions table'' err), h)
          | (None, h) \<Rightarrow>
              (None, h\<lparr>installed_versions :=
                 (case installed_versions h of None \<Rightarrow> Some [] | Some rows \<Rightarrow> Some rows)\<rparr>)))"

definition latest_row :: "installed_version list \<Rightarrow> installed_version option" where
  "latest_row rows = (if rows = [] then None else Some (last (sort_key iv_id rows)))"

text \<open>The rows are ranged over; the newest row, if it has the name, gives \<open>oldWasInstalled\<close>.\<close>

definition old_was_installed ::
  "'w env \<Rightarrow> target \<Rightarrow> 'w host \<Rightarrow> bool option result \<times> 'w host" where
  "old_was_installed E t h =
    (case io E (OpSqlQuery ''SELECT name, was_installed'') h of
       (Some err, h) \<Rightarrow> (Inl (errorf ''failed to select installed_versions'' err), h)
     | (None, h) \<Rightarrow>
         (case installed_versions h of
            None \<Rightarrow> (Inl (errorf ''failed to select installed_versions'' no_table), h)
          | Some rows \<Rightarrow>
              (case latest_row rows of
                 None \<Rightarrow> (Inr None, h)
               | Some r \<Rightarrow>
                   (case io E OpSqlScan h of
                      (Some err, h) \<Rightarrow> (Inl (errorf ''get name'' err), h)
                    | (None, h) \<Rightarrow>
                        (Inr (if iv_name r = tID t then Some (iv_was_installed r) else None), h)))))"

definition clear_marks ::
  "'w env \<Rightarrow> update_mode \<Rightarrow> 'w host \<Rightarrow> goerr option \<times> 'w host" where
  "clear_marks E mode h =
    (case mode of
       updateModeCurrent \<Rightarrow>
         exec_versions E ''UPDATE is_current, is_pending'' ''failed to update installed 1 versions''
           (map (\<lambda>r. r\<lparr>iv_is_current := False, iv_is_pending := False\<rparr>)) h
     | updateModePending \<Rightarrow>
         exec_versions E ''UPDATE is_pending'' ''failed to update installed 2 versions''
           (map (\<lambda>r. r\<lparr>iv_is_pending := False\<rparr>)) h
     | updateModeFailed \<Rightarrow> (None, h))"

definition next_row_id :: "installed_version list \<Rightarrow> int" where
  "next_row_id rows = foldr max (map iv_id rows) 0 + 1"

text \<open>The last statement of \<open>saveInstalledVersions\<close>: update the rows of the name, or insert one.\<close>

definition write_version ::
  "'w env \<Rightarrow> target \<Rightarrow> string \<Rightarrow> update_mode \<Rightarrow> bool option \<Rightarrow> 'w host \<Rightarrow> goerr option \<times> 'w host" where
  "write_version E t correlationId mode old h =
    (case old of
       Some was \<Rightarrow>
         if mode = updateModeFailed then
           exec_versions E ''UPDATE failed'' ''failed to save installed versions''
             (map (\<lambda>r. if iv_name r = tID t
                       then r\<lparr>iv_is_pending := False, iv_was_installed := False\<rparr> else r)) h
         else
           exec_versions E ''UPDATE installed_versions'' ''failed to save installed versions''
             (map (\<lambda>r. if iv_name r = tID t
                       then r\<lparr>iv_correlation_id := correlationId,
                              iv_is_current := (mode = updateModeCurrent),
                              iv_is_pending := (mode = updateModePending),
                              iv_was_installed := (mode = updateModeCurrent \<or> was)\<rparr> else r)) h
     | None \<Rightarrow>
         exec_versions E ''INSERT INTO installed_versions'' ''failed to save installed versions''
           (\<lambda>rows. rows @ [\<lparr>iv_id = next_row_id rows, iv_name = tID t,
              iv_custom_meta = JsonDoc (target_json t), iv_correlation_id = correlationId,
              iv_is_current = (mode = updateModeCurrent),
              iv_is_pending = (mode = updateModePending),
              iv_was_installed = (mode = updateModeCurrent)\<rparr>]) h)"

definition saveInstalledVersions ::
  "'w env \<Rightarrow> target \<Rightarrow> string \<Rightarrow> update_mode \<Rightarrow> 'w host \<Rightarrow> goerr option \<times> 'w host" where
  "saveInstalledVersions E t correlationId mode h =
    (case io E OpSqlOpen h of
       (Some err, h) \<Rightarrow> (Some err, h)
     | (None, h) \<Rightarrow>
         (case old_was_installed E t h of
            (Inl err, h) \<Rightarrow> (Some err, h)
          | (Inr old, h) \<Rightarrow>
              (case clear_marks E mode h of
                 (Some err, h) \<Rightarrow> (Some err, h)
               | (None, h) \<Rightarrow> write_version E t correlationId mode old h)))"

definition RegisterInstallationStarted :: "'w env \<Rightarrow> target \<Rightarrow> string \<Rightarrow> 'w host \<Rightarrow> goerr option \<times> 'w host" where
  "RegisterInstallationStarted E t corr = saveInstalledVersions E t corr updateModePending"

definition RegisterInstallationSuceeded :: "'w env \<Rightarrow> target \<Rightarrow> string \<Rightarrow> 'w host \<Rightarrow> goerr option \<times> 'w host" where
  "RegisterInstallationSuceeded E t corr = saveInstalledVersions E t corr updateModeCurrent"

definition RegisterInstallationFailed :: "'w env \<Rightarrow> target \<Rightarrow> string \<Rightarrow> 'w host \<Rightarrow> goerr option \<times> 'w host" where
  "RegisterInstallationFailed E t corr = saveInstalledVersions E t corr updateModeFailed"

definition IsFailingTarget :: "'w env \<Rightarrow> string \<Rightarrow> 'w host \<Rightarrow> bool result \<times> 'w host" where
  "IsFailingTarget E name h =
    (case io E OpSqlOpen h of
       (Some err, h) \<Rightarrow> (Inl err, h)
     | (None, h) \<Rightarrow>
         (case io E (OpSqlQuery ''SELECT failing'') h of
            (Some err, h) \<Rightarrow> (Inl (errorf ''failed to select installed_versions'' err), h)
          | (None, h) \<Rightarrow>
              (case installed_versions h of
                 None \<Rightarrow> (Inl (errorf ''failed to select installed_versions'' no_table), h)
               | Some rows \<Rightarrow>
                   (Inr (length (filter (\<lambda>r. iv_name r = name \<and> \<not> iv_was_installed r) rows) > 0), h))))"

fun scan_current ::
  "'w env \<Rightarrow> (int \<times> installed_version) list \<Rightarrow> string \<times> content \<Rightarrow> 'w host
   \<Rightarrow> (string \<times> content) result \<times> 'w host" where
  "scan_current E [] cur h =
     (case io E OpSqlScan h of (Some err, h) \<Rightarrow> (Inl err, h) | (None, h) \<Rightarrow> (Inr cur, h))"
| "scan_current E ((i, r) # rows) cur h =
     (case io E OpSqlScan h of
        (Some err, h) \<Rightarrow> (Inl err, h)
      | (None, h) \<Rightarrow> scan_current E rows (iv_name r, iv_custom_meta r) h)"

definition GetCurrentTarget :: "'w env \<Rightarrow> 'w host \<Rightarrow> target result \<times> 'w host" where
  "GetCurrentTarget E h =
    (case io E OpSqlOpen h of
       (Some err, h) \<Rightarrow> (Inl err, h)
     | (None, h) \<Rightarrow>
         (case io E (OpSqlQuery ''SELECT current'') h of
            (Some err, h) \<Rightarrow> (Inl err, h)
          | (None, h) \<Rightarrow>
              (case installed_versions h of
                 None \<Rightarrow> (Inl no_table, h)
               | Some rows \<Rightarrow>
                   (case scan_current E
                          (select_rows E (ext h) (map (\<lambda>r. (iv_id r, r)) (filter iv_is_current rows)))
                          ('''', Raw '''') h of
                      (Inl err, h) \<Rightarrow> (Inl err, h)
                    | (Inr (name, meta), h) \<Rightarrow>
                        if name \<noteq> '''' then
                          (case unmarshal_target meta of
                             Inl err \<Rightarrow> (Inl (ErrorString (''failed to unmarshal custom metadata: '' @ err_text err
                                 @ '' '' @ [CHR 0x27] @ content_text meta @ [CHR 0x27])), h)
                           | Inr t \<Rightarrow> (Inr t, h))
                        else (Inr zero_target, h)))))"

text \<open>\<open>internal/db\<close>.\<close>

definition InitializeDatabase :: "'w env \<Rightarrow> 'w host \<Rightarrow> goerr option \<times> 'w host" where
  "InitializeDatabase E h =
    (case CreateTargetsTable E h of
       (Some err, h) \<Rightarrow> (Some (Wrapped (''failed to create targets table '' @ err_text err) [err]), h)
     | (None, h) \<Rightarrow>
         (case CreateEventsTable E h of
            (Some err, h) \<Rightarrow> (Some (Wrapped (''failed to create events table '' @ err_text err) [err]), h)
          | (None, h) \<Rightarrow> (None, h)))"

section \<open>Lemmas\<close>

lemma exec_versions_cases:
  "exec_versions E stmt msg f h = (e, h') \<Longrightarrow>
     fs h' = fs h \<and> report_events h' = report_events h \<and> reqs h' = reqs h
     \<and> (e \<noteq> None \<longrightarrow> installed_versions h' = installed_versions h)
     \<and> (e = None \<longrightarrow> (\<exists>rows. installed_versions h = Some rows \<and> installed_versions h' = Some (f rows)))"
  by (auto simp: exec_versions_def split: prod.splits option.splits dest!: io_frame)

definition old_of :: "target \<Rightarrow> installed_version list \<Rightarrow> bool option" where
  "old_of t rows = (case latest_row rows of None \<Rightarrow> None
     | Some v \<Rightarrow> if iv_name v = tID t then Some (iv_was_installed v) else None)"

lemma old_was_installed_cases:
  "old_was_installed E t h = (r, h') \<Longrightarrow>
     fs h' = fs h \<and> report_events h' = report_events h \<and> reqs h' = reqs h
     \<and> installed_versions h' = installed_versions h
     \<and> (\<forall>old. r = Inr old \<longrightarrow> (\<exists>rows. installed_versions h = Some rows \<and> old = old_of t rows))"
  by (auto simp: old_was_installed_def old_of_def split: prod.splits option.splits dest!: io_frame)

text \<open>The change of the table by a call that succeeds, as a function on the rows.\<close>

definition cleared :: "update_mode \<Rightarrow> installed_version list \<Rightarrow> installed_version list" where
  "cleared mode rows = map (\<lambda>r. case mode of
       updateModeCurrent \<Rightarrow> r\<lparr>iv_is_current := False, iv_is_pending := False\<rparr>
     | updateModePending \<Rightarrow> r\<lparr>iv_is_pending := False\<rparr>
     | updateModeFailed \<Rightarrow> r) rows"

definition new_row :: "target \<Rightarrow> string \<Rightarrow> update_mode \<Rightarrow> installed_version list \<Rightarrow> installed_version" where
  "new_row t corr mode rows = \<lparr>iv_id = next_row_id rows, iv_name = tID t,
     iv_custom_meta = JsonDoc (target_json t), iv_correlation_id = corr,
     iv_is_current = (mode = updateModeCurrent), iv_is_pending = (mode = updateModePending),
     iv_was_installed = (mode = updateModeCurrent)\<rparr>"

definition marked :: "target \<Rightarrow> string \<Rightarrow> update_mode \<Rightarrow> bool \<Rightarrow> installed_version \<Rightarrow> installed_version" where
  "marked t corr mode was r =
    (if iv_name r = tID t then
       (if mode = updateModeFailed then r\<lparr>iv_is_pending := False, iv_was_installed := False\<rparr>
        else r\<lparr>iv_correlation_id := corr, iv_is_current := (mode = updateModeCurrent),
               iv_is_pending := (mode = updateModePending),
               iv_was_installed := (mode = updateModeCurrent \<or> was)\<rparr>)
     else r)"

definition written ::
  "target \<Rightarrow> string \<Rightarrow> update_mode \<Rightarrow> bool option \<Rightarrow> installed_version list \<Rightarrow> installed_version list" where
  "written t corr mode old rows =
    (case old of Some was \<Rightarrow> map (marked t corr mode was) rows | None \<Rightarrow> rows @ [new_row t corr mode rows])"

definition recorded ::
  "target \<Rightarrow> string \<Rightarrow> update_mode \<Rightarrow> installed_version list \<Rightarrow> installed_version list" where
  "recorded t corr mode rows = written t corr mode (old_of t rows) (cleared mode rows)"

lemma clear_marks_cases:
  "clear_marks E mode h = (e, h') \<Longrightarrow> installed_versions h = Some rows \<Longrightarrow>
     fs h' = fs h \<and> report_events h' = report_events h \<and> reqs h' = reqs h
     \<and> (e \<noteq> None \<longrightarrow> installed_versions h' = Some rows)
     \<and> (e = None \<longrightarrow> installed_versions h' = Some (cleared mode rows))"
  by (cases mode) (auto simp: clear_marks_def cleared_def dest!: exec_versions_cases)

lemma write_version_cases:
  assumes "write_version E t corr mode old h = (e, h')" and "installed_versions h = Some rows"
  shows "fs h' = fs h \<and> report_events h' = report_events h \<and> reqs h' = reqs h
     \<and> (e \<noteq> None \<longrightarrow> installed_versions h' = Some rows)
     \<and> (e = None \<longrightarrow> installed_versions h' = Some (written t corr mode old rows))"
proof (cases old)
  case None
  with assms show ?thesis
    by (auto simp: write_version_def written_def new_row_def dest!: exec_versions_cases)
next
  case (Some was)
  have "(\<lambda>r. if iv_name r = tID t then r\<lparr>iv_is_pending := False, iv_was_installed := False\<rparr> else r)
      = marked t corr updateModeFailed was" by (auto simp: marked_def)
  moreover have "(\<lambda>r. if iv_name r = tID t
       then r\<lparr>iv_correlation_id := corr, iv_is_current := (mode = updateModeCurrent),
              iv_is_pending := (mode = updateModePending),
              iv_was_installed := (mode = updateModeCurrent \<or> was)\<rparr> else r) = marked t corr mode was"
    if "mode \<noteq> updateModeFailed" using that by (auto simp: marked_def fun_eq_iff)
  ultimately show ?thesis using Some assms exec_versions_cases
    by (cases "mode = updateModeFailed") (fastforce simp: write_version_def written_def)+
qed

lemma saveInstalledVersions_cases:
  assumes "saveInstalledVersions E t corr mode h = (e, h')"
  shows "(fs h' = fs h \<and> report_events h' = report_events h \<and> reqs h' = reqs h)
    \<and> (if e = None
       then \<exists>rows. installed_versions h = Some rows \<and> installed_versions h' = Some (recorded t corr mode rows)
       else installed_versions h' \<in> {installed_versions h, map_option (cleared mode) (installed_versions h)})"
proof -
  obtain e0 h0 where o0: "io E OpSqlOpen h = (e0, h0)" by fastforce
  obtain r h1 where o1: "old_was_installed E t h0 = (r, h1)" by fastforce
  obtain e2 h2 where o2: "clear_marks E mode h1 = (e2, h2)" by fastforce
  note f = io_frame [OF o0] old_was_installed_cases [OF o1]
  note def = saveInstalledVersions_def o0 o1 o2
  consider x where "e0 = Some x" | x where "e0 = None" "r = Inl x"
    | old x where "e0 = None" "r = Inr old" "e2 = Some x" | old where "e0 = None" "r = Inr old" "e2 = None"
    by (cases e0; cases r; cases e2) auto
  then show ?thesis
  proof cases
    case 3
    then obtain rows where rows: "installed_versions h1 = Some rows" "installed_versions h = Some rows" using f by auto
    have "e = Some x \<and> h' = h2" using assms 3 by (simp add: def)
    with clear_marks_cases [OF o2 rows(1)] 3 rows f(1) conjunct1 [OF f(2)] f(2) show ?thesis by simp
  next
    case 4
    then obtain rows where rows: "installed_versions h1 = Some rows" "old = old_of t rows"
      "installed_versions h = Some rows" using f by auto
    from clear_marks_cases [OF o2 rows(1)] 4 have c: "fs h2 = fs h1 \<and> report_events h2 = report_events h1 \<and> reqs h2 = reqs h1"
      and t2: "installed_versions h2 = Some (cleared mode rows)" by auto
    have "write_version E t corr mode old h2 = (e, h')" using assms 4 by (simp add: def)
    from write_version_cases [OF this t2] c f(1) conjunct1 [OF f(2)] conjunct1 [OF conjunct2 [OF f(2)]]
      conjunct1 [OF conjunct2 [OF conjunct2 [OF f(2)]]] rows
    show ?thesis by (cases e) (simp_all add: recorded_def)
  qed (use assms f in \<open>auto simp: def\<close>)
qed

text \<open>All rows with a mark share one name, and the identifiers increase.\<close>

definition one_name :: "(installed_version \<Rightarrow> bool) \<Rightarrow> installed_version list \<Rightarrow> bool" where
  "one_name P rows \<longleftrightarrow> (\<forall>r \<in> set rows. \<forall>s \<in> set rows. P r \<and> P s \<longrightarrow> iv_name r = iv_name s)"

definition versions_ok :: "installed_version list \<Rightarrow> bool" where
  "versions_ok rows \<longleftrightarrow> one_name iv_is_current rows \<and> one_name iv_is_pending rows
     \<and> sorted_wrt (<) (map iv_id rows) \<and> (\<forall>r \<in> set rows. 0 < iv_id r)"

definition versions_inv :: "'w host \<Rightarrow> bool" where
  "versions_inv h \<longleftrightarrow> (case installed_versions h of None \<Rightarrow> True | Some rows \<Rightarrow> versions_ok rows)"

lemma cleared_ids [simp]: "map iv_id (cleared mode rows) = map iv_id rows"
  by (cases mode) (auto simp: cleared_def)

lemma cleared_mem:
  "r \<in> set (cleared mode rows) \<Longrightarrow> \<exists>s \<in> set rows. iv_name r = iv_name s \<and> iv_id r = iv_id s
     \<and> (iv_is_current r \<longrightarrow> iv_is_current s \<and> mode \<noteq> updateModeCurrent)
     \<and> (iv_is_pending r \<longrightarrow> iv_is_pending s \<and> mode = updateModeFailed)"
  by (cases mode) (auto simp: cleared_def)

lemma one_name_mono:
  "one_name P rows \<Longrightarrow> \<forall>r \<in> set rows'. P r \<longrightarrow> (\<exists>s \<in> set rows. P s \<and> iv_name s = iv_name r) \<Longrightarrow> one_name P rows'"
  unfolding one_name_def by metis

lemma cleared_ok:
  assumes "versions_ok rows"
  shows "versions_ok (cleared mode rows)"
proof -
  have "one_name iv_is_current (cleared mode rows)" "one_name iv_is_pending (cleared mode rows)"
    using assms by (auto simp: versions_ok_def elim!: one_name_mono dest!: cleared_mem)
  moreover have "\<forall>r \<in> set (cleared mode rows). 0 < iv_id r"
    using assms cleared_mem [of _ mode rows] by (fastforce simp: versions_ok_def)
  ultimately show ?thesis using assms by (simp add: versions_ok_def)
qed

lemma next_row_id_gt: "r \<in> set rows \<Longrightarrow> iv_id r < next_row_id rows" "0 < next_row_id rows"
  unfolding next_row_id_def by (induction rows) (auto simp: max_def)

lemma cleared_marks:
  "r \<in> set (cleared updateModeCurrent rows) \<Longrightarrow> \<not> iv_is_current r"
  "r \<in> set (cleared mode rows) \<Longrightarrow> mode \<noteq> updateModeFailed \<Longrightarrow> \<not> iv_is_pending r"
  by (auto dest: cleared_mem)

lemma one_name_const: "\<forall>r \<in> set rows. P r \<longrightarrow> iv_name r = n \<Longrightarrow> one_name P rows"
  by (simp add: one_name_def)

lemma marked_sel [simp]: "iv_name (marked t corr mode was r) = iv_name r" "iv_id (marked t corr mode was r) = iv_id r"
  by (auto simp: marked_def)

lemma written_current:
  assumes "\<forall>r \<in> set rows. mode = updateModeCurrent \<longrightarrow> \<not> iv_is_current r"
    and "one_name iv_is_current rows"
  shows "one_name iv_is_current (written t corr mode old rows)"
proof (cases "mode = updateModeCurrent")
  case True
  have "\<forall>r \<in> set (written t corr mode old rows). iv_is_current r \<longrightarrow> iv_name r = tID t"
    using assms(1) True by (auto simp: written_def marked_def new_row_def split: option.splits if_splits)
  then show ?thesis by (rule one_name_const)
next
  case False
  with assms(2) show ?thesis
    by (elim one_name_mono) (auto simp: written_def marked_def new_row_def split: option.splits if_splits)
qed

lemma written_pending:
  assumes "\<forall>r \<in> set rows. mode \<noteq> updateModeFailed \<longrightarrow> \<not> iv_is_pending r"
    and "one_name iv_is_pending rows"
  shows "one_name iv_is_pending (written t corr mode old rows)"
proof (cases "mode = updateModeFailed")
  case False
  have "\<forall>r \<in> set (written t corr mode old rows). iv_is_pending r \<longrightarrow> iv_name r = tID t"
    using assms(1) False by (auto simp: written_def marked_def new_row_def split: option.splits if_splits)
  then show ?thesis by (rule one_name_const)
next
  case True
  with assms(2) show ?thesis
    by (elim one_name_mono) (auto simp: written_def marked_def new_row_def split: option.splits if_splits)
qed

lemma written_ids:
  assumes "sorted_wrt (<) (map iv_id rows)" and "\<forall>r \<in> set rows. 0 < iv_id r"
  shows "sorted_wrt (<) (map iv_id (written t corr mode old rows))"
    and "\<forall>r \<in> set (written t corr mode old rows). 0 < iv_id r"
  using assms next_row_id_gt
  by (auto simp: written_def new_row_def sorted_wrt_append o_def split: option.splits)

lemma recorded_ok: "versions_ok rows \<Longrightarrow> versions_ok (recorded t corr mode rows)"
  using cleared_ok [of rows mode] cleared_marks(1) [of _ rows] cleared_marks(2) [of _ mode rows]
  unfolding recorded_def versions_ok_def
  by (auto intro!: written_current written_pending written_ids(1) intro: written_ids(2) [rule_format, rotated -1])

lemma latest_row_last: "sorted_wrt (<) (map iv_id rows) \<Longrightarrow> rows \<noteq> [] \<Longrightarrow> latest_row rows = Some (last rows)"
  by (simp add: latest_row_def sort_key_id_if_sorted strict_sorted_imp_sorted)

section \<open>The round trip of a target\<close>

lemma dec_elems_apps:
  "dec_elems (dec_struct set_app_field) \<lparr>aName = '''', aURI = ''''\<rparr> (map app_json as) = (as, True)"
  by (induction as) (simp_all add: app_json_def set_app_field_def key_is_def lower_char_def put_def)

lemma unmarshal_target_json:
  "int_min \<le> tVersion t \<Longrightarrow> tVersion t \<le> int_max \<Longrightarrow> unmarshal_target (JsonDoc (target_json t)) = Inr t"
  by (cases t)
    (simp add: unmarshal_target_def target_json_def zero_target_def set_target_field_def key_is_def
      lower_char_def put_def dec_elems_apps)

section \<open>Properties\<close>

lemma recorded_current:
  assumes "recorded t corr updateModeCurrent rows = rows'"
  shows "(\<forall>r \<in> set rows'. iv_is_current r \<longrightarrow> iv_name r = tID t \<and> iv_was_installed r)
    \<and> (\<forall>r \<in> set rows'. \<not> iv_is_pending r)"
  using cleared_marks(1) [of _ rows] cleared_marks(2) [of _ updateModeCurrent rows]
  by (auto simp: assms [symmetric] recorded_def written_def marked_def new_row_def split: option.splits)

lemma latest_mem: "latest_row rows = Some v \<Longrightarrow> v \<in> set rows"
  unfolding latest_row_def
  by (metis last_in_set length_0_conv length_sort option.distinct(1) option.inject set_sort)

lemma old_of_mem: "old_of t rows = Some was \<Longrightarrow> \<exists>v \<in> set rows. iv_name v = tID t"
  by (auto simp: old_of_def split: option.splits if_splits dest: latest_mem)

lemma cleared_names: "iv_name ` set (cleared mode rows) = iv_name ` set rows"
proof -
  have "map iv_name (cleared mode rows) = map iv_name rows" by (cases mode) (auto simp: cleared_def)
  then show ?thesis by (metis list.set_map)
qed

lemma recorded_has:
  assumes "mode = updateModeFailed \<or> mode = updateModeCurrent"
  shows "\<exists>r \<in> set (recorded t corr mode rows). iv_name r = tID t
    \<and> (mode = updateModeCurrent \<longrightarrow> iv_is_current r) \<and> (mode = updateModeFailed \<longrightarrow> \<not> iv_was_installed r)"
proof (cases "old_of t rows")
  case None
  then show ?thesis using assms by (auto simp: recorded_def written_def new_row_def)
next
  case (Some was)
  from old_of_mem [OF Some] obtain v where "v \<in> set (cleared mode rows)" "iv_name v = tID t"
    using cleared_names [of mode rows] by (metis imageE imageI)
  then show ?thesis using assms
    by (auto simp: recorded_def written_def Some marked_def intro!: bexI [of _ v] bexI [of _ "marked t corr mode was v"])
qed

text \<open>
  C10: in the table of installed versions the rows marked current share one name, and so do those
  marked pending. Recording a started, a succeeded or a failed installation keeps this, also when
  one of its statements fails half way.
\<close>
theorem saveInstalledVersions_inv:
  assumes "versions_inv h" and "saveInstalledVersions E t corr mode h = (e, h')"
  shows "versions_inv h' \<and> report_events h' = report_events h \<and> fs h' = fs h"
  using saveInstalledVersions_cases [OF assms(2)] assms(1)
  by (auto simp: versions_inv_def recorded_ok cleared_ok split: if_splits option.splits)

theorem saveInstalledVersions_inv_witness:
  defines "E \<equiv> (undefined :: unit env)\<lparr>x_io := \<lambda>op w. (None, w)\<rparr>"
  defines "h \<equiv> \<lparr>ext = (), fs = Map.empty, report_events = None, installed_versions = Some [], reqs = []\<rparr>"
  shows "\<exists>e h'. saveInstalledVersions E UnknownTarget ''c'' updateModePending h = (e, h') \<and> versions_inv h'"
proof -
  obtain e h' where s: "saveInstalledVersions E UnknownTarget ''c'' updateModePending h = (e, h')" by fastforce
  have "versions_inv h" by (simp add: versions_inv_def h_def versions_ok_def one_name_def)
  from saveInstalledVersions_inv [OF this s] s show ?thesis by blast
qed

text \<open>
  After a success has been recorded there is a current row, every current row has the name of
  the target and counts as installed, and nothing is pending; after a failure has been recorded the
  target is reported as failing.
\<close>
theorem register_outcome:
  assumes "RegisterInstallationSuceeded E t corr h = (None, h1)"
    and "RegisterInstallationFailed E t' corr' h = (None, h2)" and "IsFailingTarget E (tID t') h2 = (Inr b, h3)"
  shows "(\<exists>rows. installed_versions h1 = Some rows \<and> (\<exists>r \<in> set rows. iv_is_current r)
      \<and> (\<forall>r \<in> set rows. (iv_is_current r \<longrightarrow> iv_name r = tID t \<and> iv_was_installed r) \<and> \<not> iv_is_pending r))
    \<and> b"
proof (intro conjI)
  from assms(1) saveInstalledVersions_cases [of E t corr updateModeCurrent h None h1]
  obtain rows where "installed_versions h1 = Some (recorded t corr updateModeCurrent rows)"
    by (auto simp: RegisterInstallationSuceeded_def)
  with recorded_current [of t corr rows] recorded_has [of updateModeCurrent t corr rows]
  show "\<exists>rows. installed_versions h1 = Some rows \<and> (\<exists>r \<in> set rows. iv_is_current r)
      \<and> (\<forall>r \<in> set rows. (iv_is_current r \<longrightarrow> iv_name r = tID t \<and> iv_was_installed r) \<and> \<not> iv_is_pending r)"
    by auto
next
  from assms(2) saveInstalledVersions_cases [of E t' corr' updateModeFailed h None h2]
  obtain rows where r: "installed_versions h2 = Some (recorded t' corr' updateModeFailed rows)"
    by (auto simp: RegisterInstallationFailed_def)
  from recorded_has [of updateModeFailed t' corr' rows]
  have "filter (\<lambda>r. iv_name r = tID t' \<and> \<not> iv_was_installed r) (recorded t' corr' updateModeFailed rows) \<noteq> []"
    by (auto simp: filter_empty_conv)
  with assms(3) r show b
    by (auto simp: IsFailingTarget_def split: prod.splits option.splits dest!: io_frame)
qed

theorem register_outcome_witness:
  defines "E \<equiv> (undefined :: unit env)\<lparr>x_io := \<lambda>op w. (None, w)\<rparr>"
  defines "h \<equiv> \<lparr>ext = (), fs = Map.empty, report_events = None, installed_versions = Some [], reqs = []\<rparr>"
  shows "\<exists>h1 h2 h3. RegisterInstallationSuceeded E UnknownTarget ''c'' h = (None, h1)
    \<and> RegisterInstallationFailed E UnknownTarget ''c'' h = (None, h2)
    \<and> IsFailingTarget E ''unknown'' h2 = (Inr True, h3)"
proof -
  note defs = RegisterInstallationSuceeded_def RegisterInstallationFailed_def saveInstalledVersions_def
    old_was_installed_def clear_marks_def write_version_def exec_versions_def latest_row_def io_def E_def h_def
  obtain h1 where 1: "RegisterInstallationSuceeded E UnknownTarget ''c'' h = (None, h1)" by (simp add: defs)
  have "\<exists>h2 rows. RegisterInstallationFailed E UnknownTarget ''c'' h = (None, h2) \<and> installed_versions h2 = Some rows"
    by (simp add: defs)
  then obtain h2 rows where 2: "RegisterInstallationFailed E UnknownTarget ''c'' h = (None, h2)"
    and t: "installed_versions h2 = Some rows" by blast
  have "\<exists>b h3. IsFailingTarget E (tID UnknownTarget) h2 = (Inr b, h3)"
    using t by (simp add: IsFailingTarget_def io_def E_def)
  then obtain b h3 where 3: "IsFailingTarget E (tID UnknownTarget) h2 = (Inr b, h3)" by blast
  with register_outcome [OF 1 2 3] 1 2 show ?thesis by (auto simp: UnknownTarget_def)
qed

text \<open>
  C40: a target that is recorded as installed in a row of its own is read back as the current
  target, with its identifier, version and apps.
\<close>
theorem current_target_roundtrip:
  assumes "rowid_order E" and "versions_inv h"
    and "\<forall>rows v. installed_versions h = Some rows \<and> latest_row rows = Some v \<longrightarrow> iv_name v \<noteq> tID t"
    and "tID t \<noteq> ''''" and "int_min \<le> tVersion t" and "tVersion t \<le> int_max"
    and "RegisterInstallationSuceeded E t corr h = (None, h1)" and "GetCurrentTarget E h1 = (Inr t', h2)"
  shows "t' = t"
proof -
  from assms(7) saveInstalledVersions_cases [of E t corr updateModeCurrent h None h1]
  obtain rows where r: "installed_versions h = Some rows"
    "installed_versions h1 = Some (recorded t corr updateModeCurrent rows)"
    by (auto simp: RegisterInstallationSuceeded_def)
  let ?c = "cleared updateModeCurrent rows"
  let ?new = "new_row t corr updateModeCurrent ?c"
  have "old_of t rows = None" using assms(3) r(1) by (auto simp: old_of_def split: option.splits)
  then have rec: "recorded t corr updateModeCurrent rows = ?c @ [?new]" by (simp add: recorded_def written_def)
  have "filter iv_is_current ?c = []" using cleared_marks(1) by (auto simp: filter_empty_conv)
  then have cur: "filter iv_is_current (?c @ [?new]) = [?new]" by (simp add: new_row_def)
  have sel: "select_rows E w (map (\<lambda>r. (iv_id r, r)) [?new]) = [(iv_id ?new, ?new)]" for w
    using assms(1) by (simp add: select_rows_def rowid_order_def List.map_filter_simps)
  have scan: "scan_current E [(i, ?new)] x h3 = (Inr y, h4) \<Longrightarrow> y = (tID t, JsonDoc (target_json t))" for i x h3 y h4
    by (auto simp: new_row_def split: prod.splits option.splits)
  from assms(8) show ?thesis
    using scan sel cur assms(4) unmarshal_target_json [OF assms(5,6)] r(2) rec
    by (auto simp: GetCurrentTarget_def split: prod.splits option.splits sum.splits if_splits
        dest!: io_frame simp del: filter_append scan_current.simps list.map)
qed

theorem current_target_roundtrip_witness:
  defines "E \<equiv> (undefined :: unit env)\<lparr>x_io := \<lambda>op w. (None, w), x_select_order := \<lambda>ids w. ids\<rparr>"
  defines "h \<equiv> \<lparr>ext = (), fs = Map.empty, report_events = None, installed_versions = Some [], reqs = []\<rparr>"
  shows "\<exists>h1 h2. RegisterInstallationSuceeded E UnknownTarget ''c'' h = (None, h1)
    \<and> GetCurrentTarget E h1 = (Inr UnknownTarget, h2)"
proof -
  let ?t = UnknownTarget
  let ?new = "new_row ?t ''c'' updateModeCurrent []"
  have r: "rowid_order E" by (simp add: rowid_order_def E_def)
  have v: "versions_inv h" by (simp add: versions_inv_def h_def versions_ok_def one_name_def)
  have range: "int_min \<le> tVersion ?t" "tVersion ?t \<le> int_max" "tID ?t \<noteq> ''''"
    by (simp_all add: UnknownTarget_def int_min_def int_max_def)
  have "\<exists>h1. RegisterInstallationSuceeded E ?t ''c'' h = (None, h1) \<and> installed_versions h1 = Some [?new]"
    by (simp add: RegisterInstallationSuceeded_def saveInstalledVersions_def old_was_installed_def clear_marks_def
        write_version_def exec_versions_def latest_row_def io_def E_def h_def new_row_def)
  then obtain h1 where s: "RegisterInstallationSuceeded E ?t ''c'' h = (None, h1)"
    and t: "installed_versions h1 = Some [?new]" by blast
  have "\<exists>t' h2. GetCurrentTarget E h1 = (Inr t', h2)"
    using t range unmarshal_target_json [OF range(1,2)]
    by (simp add: GetCurrentTarget_def io_def E_def new_row_def select_rows_def List.map_filter_simps)
  then obtain t' h2 where g: "GetCurrentTarget E h1 = (Inr t', h2)" by blast
  have fresh: "\<forall>rows v. installed_versions h = Some rows \<and> latest_row rows = Some v \<longrightarrow> iv_name v \<noteq> tID ?t"
    by (simp add: h_def latest_row_def)
  have "t' = ?t" by (rule current_target_roundtrip [OF r v fresh range(3,1,2) s g])
  with s g show ?thesis by blast
qed

text \<open>A target whose installation has only been started counts as failing, too.\<close>

lemma pending_counts_as_failing:
  defines "E \<equiv> (undefined :: unit env)\<lparr>x_io := \<lambda>op w. (None, w)\<rparr>"
  shows "\<exists>h1 h2. RegisterInstallationStarted E UnknownTarget ''c'' \<lparr>ext = (), fs = Map.empty, report_events = None,
       installed_versions = Some [], reqs = []\<rparr> = (None, h1)
    \<and> IsFailingTarget E ''unknown'' h1 = (Inr True, h2)"
  by (simp add: RegisterInstallationStarted_def saveInstalledVersions_def old_was_installed_def clear_marks_def
      write_version_def exec_versions_def latest_row_def io_def E_def IsFailingTarget_def UnknownTarget_def)

end
