(* ===== verification/Float64.thy ===== *)
theory Float64
  imports Complex_Main "HOL-Library.Log_Nat"
begin

text \<open>
  Go's \<open>float64\<close> as far as the download progress needs it: rounding of a rational number to 53
  significant bits, ties to even. Numbers below the normal range or above the largest one do not
  occur, since byte counts are 64-bit integers.
\<close>

definition rnd_even :: "rat \<Rightarrow> int" where
  "rnd_even x =
    (let n = \<lfloor>x\<rfloor>; d = x - of_int n
     in if d < 1/2 then n else if d > 1/2 then n + 1 else if even n then n else n + 1)"

text \<open>The exponent \<open>e\<close> of a positive number: \<open>2 powi e \<le> x < 2 powi (e + 1)\<close>.\<close>

definition exponent :: "rat \<Rightarrow> int" where
  "exponent x =
    (let (p, q) = quotient_of x;
         d = int (floorlog 2 (nat p)) - int (floorlog 2 (nat q))
     in if x < 2 powi d then d - 1 else d)"

definition f64 :: "rat \<Rightarrow> rat" where
  "f64 x =
    (if x \<le> 0 then (if x = 0 then 0 else - (let y = - x; s = 2 powi (52 - exponent y) in of_int (rnd_even (y * s)) / s))
     else let s = 2 powi (52 - exponent x) in of_int (rnd_even (x * s)) / s)"

text \<open>\<open>int((float64(part) / float64(whole)) * 100)\<close>, for a \<open>whole\<close> that is not 0.\<close>

definition trunc :: "rat \<Rightarrow> int" where
  "trunc x = (if x < 0 then - \<lfloor>- x\<rfloor> else \<lfloor>x\<rfloor>)"

definition percent :: "int \<Rightarrow> int \<Rightarrow> int" where
  "percent part whole = trunc (f64 (f64 (f64 (of_int part) / f64 (of_int whole)) * 100))"

section \<open>Rounding\<close>

lemma rnd_even_bounds: "of_int n \<le> x \<Longrightarrow> n \<le> rnd_even x" "x \<le> of_int n \<Longrightarrow> rnd_even x \<le> n"
proof -
  assume "of_int n \<le> x"
  then have "n \<le> \<lfloor>x\<rfloor>" by (simp add: le_floor_iff)
  then show "n \<le> rnd_even x" by (auto simp: rnd_even_def Let_def)
next
  assume a: "x \<le> of_int n"
  show "rnd_even x \<le> n"
  proof (cases "\<lfloor>x\<rfloor> < n")
    case True
    then show ?thesis by (auto simp: rnd_even_def Let_def)
  next
    case False
    with a have "x = of_int n" "\<lfloor>x\<rfloor> = n" by linarith+
    then show ?thesis by (simp add: rnd_even_def)
  qed
qed

lemma rnd_even_int [simp]: "rnd_even (of_int n) = n"
  by (simp add: rnd_even_def)

lemma rnd_even_mono:
  assumes "x \<le> y"
  shows "rnd_even x \<le> rnd_even y"
proof (cases "\<lfloor>x\<rfloor> = \<lfloor>y\<rfloor>")
  case True
  then show ?thesis using assms by (auto simp: rnd_even_def Let_def)
next
  case False
  with assms have "\<lfloor>x\<rfloor> + 1 \<le> \<lfloor>y\<rfloor>" using floor_mono by fastforce
  moreover have "rnd_even x \<le> \<lfloor>x\<rfloor> + 1" by (auto simp: rnd_even_def Let_def)
  moreover have "\<lfloor>y\<rfloor> \<le> rnd_even y" by (auto simp: rnd_even_def Let_def)
  ultimately show ?thesis by linarith
qed

lemma floorlog2_bounds:
  assumes "0 < n"
  shows "2 powi (int (floorlog 2 n) - 1) \<le> (of_nat n :: rat)" "(of_nat n :: rat) < 2 powi int (floorlog 2 n)"
proof -
  from floorlog_bounds [of n 2] assms have b: "2 ^ (floorlog 2 n - 1) \<le> n \<and> n < 2 ^ floorlog 2 n" by simp
  have "0 < floorlog 2 n" using assms by (simp add: floorlog_def)
  then have "(2::rat) powi (int (floorlog 2 n) - 1) = 2 ^ (floorlog 2 n - 1)"
    by (simp add: power_int_def nat_diff_distrib')
  moreover have "(2::rat) ^ (floorlog 2 n - 1) \<le> of_nat n"
    using b by (metis of_nat_le_iff of_nat_numeral of_nat_power)
  ultimately show "2 powi (int (floorlog 2 n) - 1) \<le> (of_nat n :: rat)" by simp
  have "(of_nat n :: rat) < 2 ^ floorlog 2 n" using b by (metis of_nat_less_iff of_nat_numeral of_nat_power)
  then show "(of_nat n :: rat) < 2 powi int (floorlog 2 n)" by (simp add: power_int_def)
qed

lemma exponent_bounds:
  assumes "0 < x"
  shows "2 powi exponent x \<le> x" "x < 2 powi (exponent x + 1)"
proof -
  obtain p q where pq: "quotient_of x = (p, q)" by fastforce
  have q: "0 < q" using quotient_of_denom_pos pq by blast
  have x: "x = of_int p / of_int q" by (rule quotient_of_div [OF pq])
  then have p: "0 < p" using assms q by (simp add: zero_less_divide_iff)
  let ?a = "int (floorlog 2 (nat p))" and ?b = "int (floorlog 2 (nat q))"
  have P: "2 powi (?a - 1) \<le> (of_int p :: rat)" "(of_int p :: rat) < 2 powi ?a"
    using floorlog2_bounds [of "nat p"] p by simp_all
  have Q: "2 powi (?b - 1) \<le> (of_int q :: rat)" "(of_int q :: rat) < 2 powi ?b"
    using floorlog2_bounds [of "nat q"] q by simp_all
  let ?d = "?a - ?b"
  have lo: "2 powi (?d - 1) \<le> x"
  proof -
    have "2 powi (?d - 1) * of_int q \<le> (2::rat) powi (?d - 1) * 2 powi ?b"
      using Q(2) by (intro mult_left_mono) simp_all
    also have "\<dots> = 2 powi (?a - 1)"
      using power_int_add [of "2::rat" "?d - 1" ?b] by simp
    also have "\<dots> \<le> of_int p" by (rule P(1))
    finally show ?thesis using q by (simp add: x pos_le_divide_eq)
  qed
  have hi: "x < 2 powi (?d + 1)"
  proof -
    have "of_int p < (2::rat) powi ?a" by (rule P(2))
    also have "\<dots> = 2 powi (?d + 1) * 2 powi (?b - 1)" by (simp flip: power_int_add)
    also have "\<dots> \<le> 2 powi (?d + 1) * of_int q" using Q(1) by (intro mult_left_mono) simp_all
    finally show ?thesis using q by (simp add: x pos_divide_less_eq)
  qed
  have e: "exponent x = (if x < 2 powi ?d then ?d - 1 else ?d)" by (simp add: exponent_def pq)
  show "2 powi exponent x \<le> x" using lo by (auto simp: e)
  show "x < 2 powi (exponent x + 1)" using hi by (auto simp: e)
qed

lemma f64_pos: "0 < x \<Longrightarrow> f64 x = of_int (rnd_even (x * 2 powi (52 - exponent x))) / 2 powi (52 - exponent x)"
  by (simp add: f64_def Let_def)

lemma f64_bounds:
  assumes "0 < x"
  shows "2 powi exponent x \<le> f64 x" "f64 x \<le> 2 powi (exponent x + 1)"
proof -
  let ?e = "exponent x" and ?s = "(2::rat) powi (52 - exponent x)"
  note b = exponent_bounds [OF assms]
  have "2 powi ?e * ?s = of_int (2 ^ 52)" by (simp flip: power_int_add)
  then have "of_int (2 ^ 52) \<le> x * ?s" using b(1) by (metis mult_right_mono zero_le_numeral zero_le_power_int)
  from rnd_even_bounds(1) [OF this] have "(of_int (2 ^ 52) :: rat) \<le> of_int (rnd_even (x * ?s))" by (simp only: of_int_le_iff)
  then have "2 powi ?e * ?s \<le> of_int (rnd_even (x * ?s))" using \<open>2 powi ?e * ?s = of_int (2 ^ 52)\<close> by simp
  then show "2 powi ?e \<le> f64 x" by (simp add: f64_pos [OF assms] pos_le_divide_eq)
  have "2 powi (?e + 1) * ?s = of_int (2 ^ 53)" by (simp flip: power_int_add)
  then have "x * ?s \<le> of_int (2 ^ 53)" using b(2)
    by (metis less_imp_le mult_right_mono zero_le_numeral zero_le_power_int)
  from rnd_even_bounds(2) [OF this] have "(of_int (rnd_even (x * ?s)) :: rat) \<le> of_int (2 ^ 53)" by (simp only: of_int_le_iff)
  then have "of_int (rnd_even (x * ?s)) \<le> 2 powi (?e + 1) * ?s" using \<open>2 powi (?e + 1) * ?s = of_int (2 ^ 53)\<close> by simp
  then show "f64 x \<le> 2 powi (?e + 1)" by (simp add: f64_pos [OF assms] pos_divide_le_eq)
qed

lemma f64_mono:
  assumes "0 \<le> x" and "x \<le> y"
  shows "f64 x \<le> f64 y"
proof (cases "x = 0")
  case True
  then show ?thesis
    using assms f64_bounds(1) [of y] by (cases "y = 0") (auto simp: f64_def intro: order_trans [rotated])
next
  case False
  then have pos: "0 < x" "0 < y" using assms by auto
  have "exponent x \<le> exponent y"
  proof (rule ccontr)
    assume "\<not> exponent x \<le> exponent y"
    then have "(2::rat) powi (exponent y + 1) \<le> 2 powi exponent x" by (intro power_int_increasing) auto
    with exponent_bounds(1) [OF pos(1)] exponent_bounds(2) [OF pos(2)] assms(2) show False by linarith
  qed
  then consider "exponent x = exponent y" | "exponent x + 1 \<le> exponent y" by linarith
  then show ?thesis
  proof cases
    case 1
    have "rnd_even (x * 2 powi (52 - exponent y)) \<le> rnd_even (y * 2 powi (52 - exponent y))"
      using assms(2) by (intro rnd_even_mono mult_right_mono) simp_all
    then show ?thesis by (simp add: f64_pos pos 1 divide_right_mono)
  next
    case 2
    then have "(2::rat) powi (exponent x + 1) \<le> 2 powi exponent y" by (intro power_int_increasing) auto
    with f64_bounds(2) [OF pos(1)] f64_bounds(1) [OF pos(2)] show ?thesis by linarith
  qed
qed

text \<open>Numbers with at most 53 significant bits are exact; 0, 1 and 100 are what is needed.\<close>

lemma f64_0 [simp]: "f64 0 = 0"
  by (simp add: f64_def)

lemma quotient_of_1: "quotient_of 1 = (1, 1)"
  by (simp add: rat_one_code)

lemma f64_int:
  assumes "0 < n" and "exponent (of_int n) \<le> 52"
  shows "f64 (of_int n) = of_int n"
proof -
  obtain k where k: "52 - exponent (of_int n) = int k" using assms(2) by (metis diff_ge_0_iff_ge zero_le_imp_eq_int)
  have "(of_int n :: rat) * 2 powi int k = of_int (n * 2 ^ k)" by simp
  then have "rnd_even (of_int n * 2 powi int k) = n * 2 ^ k" by (simp only: rnd_even_int)
  then show ?thesis using assms(1) by (simp add: f64_pos k)
qed

lemma exponent_le: "0 < x \<Longrightarrow> x < 2 powi (k + 1) \<Longrightarrow> exponent x \<le> k"
  using exponent_bounds(1) [of x] power_int_increasing [of "k + 1" "exponent x" "2::rat"] by force

lemma f64_1 [simp]: "f64 1 = 1"
  using f64_int [of 1] exponent_le [of 1 52] by simp

lemma f64_100 [simp]: "f64 100 = 100"
  using f64_int [of 100] exponent_le [of 100 52] by simp

lemma f64_nonneg: "0 \<le> x \<Longrightarrow> 0 \<le> f64 x"
  using f64_mono [of 0 x] by simp

lemma percent_range:
  assumes "0 \<le> part" and "part \<le> whole" and "0 < whole"
  shows "0 \<le> percent part whole \<and> percent part whole \<le> 100"
proof -
  let ?p = "f64 (of_int part)" and ?t = "f64 (of_int whole)"
  have p: "0 \<le> ?p" "?p \<le> ?t" using assms by (auto intro: f64_nonneg f64_mono)
  have "1 \<le> ?t" using f64_mono [of 1 "of_int whole"] assms(3) by simp
  then have "0 \<le> ?p / ?t" "?p / ?t \<le> 1" using p by (auto simp: divide_le_eq_1)
  then have q: "0 \<le> f64 (?p / ?t)" "f64 (?p / ?t) \<le> 1" using f64_mono [of "?p / ?t" 1] by (auto intro: f64_nonneg)
  then have "f64 (f64 (?p / ?t) * 100) \<le> f64 100" "0 \<le> f64 (f64 (?p / ?t) * 100)"
    by (intro f64_mono f64_nonneg; simp)+
  then show ?thesis by (auto simp: percent_def trunc_def floor_le_iff)
qed

end
