(* ===== verification/UpdateCtx.thy ===== *)
theory UpdateCtx
  imports Status TargetDb Float64
begin

text \<open>
  \<open>pkg/state/state.go\<close>: the context that the states of one update share, the details they attach
  to their events, and the events themselves. The event sender of the context is the table
  \<open>report_events\<close> of the host; the steps of its goroutine are in the theory \<open>EventSender\<close>.
\<close>

section \<open>Data\<close>

text \<open>The zero values of the string types \<open>UpdateMode\<close> and \<open>UpdateType\<close> are \<open>ModeUnset\<close>, \<open>TypeUnset\<close>.\<close>

datatype upd_mode = ModeUnset | UpdateModeNewUpdate | UpdateModeResume
datatype upd_type = TypeUnset | UpdateTypeUpdate | UpdateTypeSync

fun upd_type_text :: "upd_type \<Rightarrow> string" where
  "upd_type_text TypeUnset = ''''"
| "upd_type_text UpdateTypeUpdate = ''update''"
| "upd_type_text UpdateTypeSync = ''sync''"

record update_size =
  z_Bytes :: int
  z_Blobs :: int

record storage_stat =
  st_Size :: "64 word"
  st_Free :: "64 word"
  st_Reserved :: "64 word"
  st_Available :: "64 word"
  st_Required :: "64 word option"

record update_ctx =
  TotalStates :: int
  CurrentStateNum :: int
  CurrentState :: string
  FromTarget :: target
  ToTarget :: target
  Mode :: upd_mode
  Type :: upd_type
  Size :: update_size
  AppDiff :: app_diff
  CurrentStatus :: "current_status option"
  InitializedAt :: time
  FetchedAt :: time
  AlreadyFetched :: bool
  IsForcedUpdate :: bool
  Config :: config
  Client :: gw_client
  Targets :: targets
  StorageUsage :: "storage_stat option"
  UpdateRunner :: "runner option"

type_synonym 'w step = "update_ctx \<Rightarrow> 'w host \<Rightarrow> goerr option outcome \<times> update_ctx \<times> 'w host"

section \<open>Details of the events\<close>

definition app_status_json :: "app_status \<Rightarrow> json" where
  "app_status_json a =
    JObj [(''uri'', JStr (ap_URI a)), (''name'', JStr (ap_Name a)), (''fetched'', JBool (ap_Fetched a)),
          (''installed'', JBool (ap_Installed a)), (''running'', JBool (ap_Running a))]"

definition size_json :: "update_size \<Rightarrow> json" where
  "size_json z = JObj [(''bytes'', jint (z_Bytes z)), (''blobs'', jint (z_Blobs z))]"

definition storage_json :: "storage_stat \<Rightarrow> json" where
  "storage_json s =
    JObj ([(''size'', jint (uint (st_Size s))), (''free'', jint (uint (st_Free s))),
           (''reserved'', jint (uint (st_Reserved s))), (''available'', jint (uint (st_Available s)))]
      @ (case st_Required s of None \<Rightarrow> [] | Some r \<Rightarrow> [(''required'', jint (uint r))]))"

definition storage_field :: "storage_stat option \<Rightarrow> (string \<times> json) list" where
  "storage_field s = (case s of None \<Rightarrow> [] | Some st \<Rightarrow> [(''storage_stat'', storage_json st)])"

definition status_list_json :: "app_status list \<Rightarrow> (string \<times> json) list" where
  "status_list_json as = omit_if (as = []) ''current_status'' (JArr (map app_status_json as))"

definition status_list :: "'w env \<Rightarrow> 'w \<Rightarrow> update_ctx \<Rightarrow> app_status list" where
  "status_list E w u = (case CurrentStatus u of None \<Rightarrow> [] | Some s \<Rightarrow> AppStatusList E w s)"

definition sync_reason :: "update_ctx \<Rightarrow> string" where
  "sync_reason u =
    (if Type u = UpdateTypeUpdate then ''update to a new version''
     else if CurrentStatus u = None then ''user-forced sync of the current target''
     else ''sync the current target; one or more apps are out of sync - not fetched or not installed or not running,''
          @ '' see 'current_status' for details'')"

definition getUpdateInitStartedDetails :: "'w env \<Rightarrow> 'w \<Rightarrow> update_ctx \<Rightarrow> json" where
  "getUpdateInitStartedDetails E w u =
    JObj ([(''from_target'', JStr (tID (FromTarget u))), (''to_target'', JStr (tID (ToTarget u))),
           (''type'', JStr (upd_type_text (Type u)))]
      @ omit_if (sync_reason u = '''') ''reason'' (JStr (sync_reason u))
      @ [(''actions'', JObj
            [(''remove'', jstrs (URIs (dRemove (AppDiff u)))), (''add'', jstrs (URIs (dAdd (AppDiff u)))),
             (''sync'', jstrs (URIs (dSync (AppDiff u)))),
             (''update'', JObj [(''from'', jstrs (URIs (dUpdate (AppDiff u)))),
                              (''to'', jstrs (URIs (dUpdateTo (AppDiff u))))])])]
      @ status_list_json (status_list E w u))"

definition error_field :: "goerr option \<Rightarrow> (string \<times> json) list" where
  "error_field e =
    (case e of None \<Rightarrow> [] | Some err \<Rightarrow> omit_if (err_text err = '''') ''error'' (JStr (err_text err)))"

definition getUpdateInitCompletedDetails :: "update_ctx \<Rightarrow> goerr option \<Rightarrow> json" where
  "getUpdateInitCompletedDetails u e =
    (case e of None \<Rightarrow> JObj [(''total_to_fetch'', size_json (Size u))] | Some err \<Rightarrow> JObj (error_field e))"

text \<open>What has been fetched so far, and how much of the whole that is in percent.\<close>

definition progress :: "update_ctx \<Rightarrow> update_rec \<Rightarrow> int" where
  "progress u s =
    (if z_Bytes (Size u) = 0 then 100
     else if u_State s = StateFetching \<or> u_State s = StateFetched
     then percent (u_FetchedBytes s) (z_Bytes (Size u))
     else 0)"

definition getDownloadDetails :: "update_ctx \<Rightarrow> update_rec \<Rightarrow> (string \<times> json) list" where
  "getDownloadDetails u s =
    [(''fetched'', size_json \<lparr>z_Bytes = u_FetchedBytes s, z_Blobs = u_FetchedBlobs s\<rparr>),
     (''progress_percent'', jint (progress u s))]"

definition getDownloadStartedDetails :: "update_ctx \<Rightarrow> update_rec \<Rightarrow> json" where
  "getDownloadStartedDetails u s =
    JObj (storage_field (StorageUsage u) @ [(''total_to_be_fetched'', size_json (Size u))]
      @ getDownloadDetails u s)"

definition getDownloadCompletedDetails :: "update_ctx \<Rightarrow> update_rec \<Rightarrow> goerr option \<Rightarrow> json" where
  "getDownloadCompletedDetails u s e =
    JObj (error_field e @ storage_field (StorageUsage u) @ getDownloadDetails u s)"

definition getInstallationStartedDetails :: "update_ctx \<Rightarrow> json" where
  "getInstallationStartedDetails u =
    JObj [(''actions'', JObj
      [(''stop'', jstrs_nil (AppURIs (FromTarget u))), (''install'', jstrs_nil (AppURIs (ToTarget u))),
       (''prune'', jstrs (URIs (dRemove (AppDiff u)) @ URIs (dUpdate (AppDiff u))))])]"

definition getInstallationCompletedDetails :: "'w env \<Rightarrow> 'w \<Rightarrow> update_ctx \<Rightarrow> goerr option \<Rightarrow> json" where
  "getInstallationCompletedDetails E w u e =
    JObj (error_field e @ status_list_json (status_list E w u) @ storage_field (StorageUsage u))"

definition getUpdateDetails ::
  "'w env \<Rightarrow> 'w \<Rightarrow> update_ctx \<Rightarrow> update_rec \<Rightarrow> event_type \<Rightarrow> goerr option \<Rightarrow> string" where
  "getUpdateDetails E w u s t e =
    (case t of
       UpdateInitStarted \<Rightarrow> json_indent 0 (getUpdateInitStartedDetails E w u)
     | UpdateInitCompleted \<Rightarrow> json_indent 0 (getUpdateInitCompletedDetails u e)
     | DownloadStarted \<Rightarrow> json_indent 0 (getDownloadStartedDetails u s)
     | DownloadCompleted \<Rightarrow> json_indent 0 (getDownloadCompletedDetails u s e)
     | InstallationStarted \<Rightarrow> json_indent 0 (getInstallationStartedDetails u)
     | InstallationCompleted \<Rightarrow> json_indent 0 (getInstallationCompletedDetails E w u e)
     | _ \<Rightarrow> '''')"

section \<open>Sending an event\<close>

text \<open>
  \<open>SendEvent\<close> of a context whose runner is \<open>r\<close>. The optional argument is \<open>None\<close> when the call
  leaves it out, else \<open>Some\<close> of the error or its absence. An error of the queue is only logged.
\<close>

definition SendEvent ::
  "'w env \<Rightarrow> runner \<Rightarrow> event_type \<Rightarrow> goerr option option \<Rightarrow> update_ctx \<Rightarrow> 'w host \<Rightarrow> 'w host" where
  "SendEvent E r t eventErr u h =
    (let status_opts = (case eventErr of None \<Rightarrow> [] | Some e \<Rightarrow> [WithEventStatus (e = None)]);
         eventError = (case eventErr of None \<Rightarrow> None | Some e \<Rightarrow> e);
         details = getUpdateDetails E (ext h) u (x_Status E r (ext h)) t eventError;
         opts = status_opts @ (if details \<noteq> '''' then [WithEventDetails details] else []);
         (err, h) = EnqueueEvent E t (u_ID (x_Status E r (ext h))) (ToTarget u) opts h
     in h)"

definition getAndSetStorageUsageInfo :: "'w env \<Rightarrow> 'w \<Rightarrow> update_ctx \<Rightarrow> goerr option \<times> update_ctx" where
  "getAndSetStorageUsageInfo E w u =
    (case x_GetUsageInfo E (cc_StoreRoot (composeConfig (Config u))) (GetStorageUsageWatermark (Config u)) w of
       Inl err \<Rightarrow> (Some (errorf ''failed to get storage usage info'' err), u)
     | Inr ui \<Rightarrow>
         (None, u\<lparr>StorageUsage := Some \<lparr>st_Size = ui_Size ui, st_Free = ui_Free ui,
            st_Reserved = ui_Reserved ui, st_Available = ui_Available ui, st_Required = None\<rparr>\<rparr>))"

section \<open>The events that an operation queues\<close>

text \<open>
  \<open>sends h ts h'\<close>: between the two states the queue has grown by events of exactly these types, in
  this order. \<open>in_order lo hi\<close> says that these types are in the order of the protocol, none of them
  twice, and that their ranks lie between the two bounds.
\<close>

definition sends :: "'w host \<Rightarrow> event_type list \<Rightarrow> 'w host \<Rightarrow> bool" where
  "sends h ts h' \<longleftrightarrow> (queue_ok h \<longrightarrow> queue_ok h' \<and>
     (\<exists>evs. queued h' = queued h @ evs \<and> map (\<lambda>e. et_Id (ev_EventType e)) evs = map event_id ts))"

lemma sends_refl [intro, simp]: "sends h [] h"
  by (simp add: sends_def)

lemma sends_same: "report_events h' = report_events h \<Longrightarrow> sends h [] h'"
  by (simp add: sends_def queue_ok_def queued_def)

lemma sends_trans:
  assumes "sends h ts h1" and "sends h1 ts' h2"
  shows "sends h (ts @ ts') h2"
proof -
  have "queue_ok h2 \<and> (\<exists>evs. queued h2 = queued h @ evs \<and> map (\<lambda>e. et_Id (ev_EventType e)) evs = map event_id (ts @ ts'))"
    if q: "queue_ok h"
  proof -
    from assms(1) q obtain a where a: "queue_ok h1" "queued h1 = queued h @ a"
      "map (\<lambda>e. et_Id (ev_EventType e)) a = map event_id ts" by (auto simp: sends_def)
    with assms(2) obtain b where b: "queue_ok h2" "queued h2 = queued h1 @ b"
      "map (\<lambda>e. et_Id (ev_EventType e)) b = map event_id ts'" by (auto simp: sends_def)
    then show ?thesis using a by (intro conjI exI [of _ "a @ b"]) simp_all
  qed
  then show ?thesis by (simp add: sends_def)
qed

definition in_order :: "nat \<Rightarrow> nat \<Rightarrow> 'w host \<Rightarrow> 'w host \<Rightarrow> bool" where
  "in_order lo hi h h' \<longleftrightarrow>
     (\<exists>ts. sends h ts h' \<and> sorted_wrt (<) ts \<and> (\<forall>t \<in> set ts. lo \<le> event_rank t \<and> event_rank t < hi))"

lemma in_order_same: "report_events h' = report_events h \<Longrightarrow> in_order lo hi h h'"
  unfolding in_order_def using sends_same by fastforce

lemma in_order_refl [simp]: "in_order lo hi h h"
  by (simp add: in_order_same)

lemma in_order_trans:
  assumes "in_order a b h h1" and "in_order b c h1 h2" and "a \<le> b" and "b \<le> c"
  shows "in_order a c h h2"
proof -
  from assms(1) obtain ts where ts: "sends h ts h1" "sorted_wrt (<) ts"
    "\<forall>t \<in> set ts. a \<le> event_rank t \<and> event_rank t < b" by (auto simp: in_order_def)
  from assms(2) obtain us where us: "sends h1 us h2" "sorted_wrt (<) us"
    "\<forall>t \<in> set us. b \<le> event_rank t \<and> event_rank t < c" by (auto simp: in_order_def)
  have "sorted_wrt (<) (ts @ us)" using ts us by (fastforce simp: sorted_wrt_append event_order)
  moreover have "\<forall>t \<in> set (ts @ us). a \<le> event_rank t \<and> event_rank t < c" using ts(3) us(3) assms(3,4) by fastforce
  ultimately show ?thesis using sends_trans [OF ts(1) us(1)] by (auto simp: in_order_def)
qed

lemma in_order_mono: "in_order a b h h' \<Longrightarrow> a' \<le> a \<Longrightarrow> b \<le> b' \<Longrightarrow> in_order a' b' h h'"
  unfolding in_order_def by (meson le_less_trans le_trans less_le_trans)

lemma good_new_event [simp]: "good_event (new_event t i tgt o' uuid now)"
  by (simp add: good_event_def new_event_def int_min_def int_max_def)

lemma EnqueueEvent_sends:
  assumes "EnqueueEvent E t i tgt opts h = (e, h')"
  shows "in_order (event_rank t) (Suc (event_rank t)) h h' \<and> fs h' = fs h \<and> reqs h' = reqs h
    \<and> installed_versions h' = installed_versions h"
proof -
  obtain uuid w where u: "x_uuid E (ext h) = (uuid, w)" by fastforce
  let ?ev = "new_event t i tgt (fold (\<lambda>f x. f x) opts \<lparr>o_Success = None, o_Details = ''''\<rparr>) uuid (x_now E w)"
  obtain e1 h1 where s: "SaveEvent E ?ev (h\<lparr>ext := w\<rparr>) = (e1, h1)" by fastforce
  have h': "h' = h1" using assms u s by (auto simp: EnqueueEvent_def split: option.splits)
  have "sends h (if e1 = None then [t] else []) h1"
    using SaveEvent_queue [OF _ good_new_event s] u
    by (auto simp: sends_def queue_ok_def queued_def new_event_def)
  then have "in_order (event_rank t) (Suc (event_rank t)) h h1"
    unfolding in_order_def by (intro exI [of _ "if e1 = None then [t] else []"]) auto
  with h' SaveEvent_cases [OF s] show ?thesis by simp
qed

lemma SendEvent_in_order:
  "in_order (event_rank t) (Suc (event_rank t)) h (SendEvent E r t e u h)"
  "fs (SendEvent E r t e u h) = fs h" "reqs (SendEvent E r t e u h) = reqs h"
  "installed_versions (SendEvent E r t e u h) = installed_versions h"
  by (auto simp: SendEvent_def Let_def split: prod.splits dest!: EnqueueEvent_sends)

lemma SendEvent_step:
  "in_order a (event_rank t) h h1 \<Longrightarrow> a \<le> event_rank t \<Longrightarrow> Suc (event_rank t) \<le> b
     \<Longrightarrow> in_order a b h (SendEvent E r t e u h1)"
  by (rule in_order_trans [where b = "event_rank t"])
    (auto intro: in_order_mono [OF SendEvent_in_order(1)])

section \<open>What a state of the update promises\<close>

text \<open>
  The contract of \<open>ActionState\<close>: every execution sends its events in the order of the protocol; one
  that succeeds stays between the two ranks that belong to the state, so that the next state can
  go on from there; a failure or a panic may send what is left, because it ends the update. The
  configuration is never changed.
\<close>

locale action_state =
  fixes exec :: "update_ctx \<Rightarrow> 'w host \<Rightarrow> goerr option outcome \<times> update_ctx \<times> 'w host"
    and lo hi :: nat
  assumes success: "exec u h = (Ret None, u', h') \<Longrightarrow> in_order lo hi h h'"
    and ends: "exec u h = (out, u', h') \<Longrightarrow> in_order lo 8 h h'"
    and same_config: "exec u h = (out, u', h') \<Longrightarrow> Config u' = Config u"
    and bounds: "lo \<le> hi" "hi \<le> 8"
begin

lemma goes_on:
  "exec u h = (Ret None, u1, h1) \<Longrightarrow> in_order hi c h1 h2 \<Longrightarrow> hi \<le> c \<Longrightarrow> in_order lo c h h2"
  using success bounds in_order_trans by blast

lemma protocol_order:
  assumes "exec u h = (out, u', h')" and "queue_ok h"
  shows "\<exists>evs ts. queued h' = queued h @ evs \<and> map (\<lambda>e. et_Id (ev_EventType e)) evs = map event_id ts
    \<and> sorted_wrt (<) ts"
  using ends [OF assms(1)] assms(2) by (auto simp: in_order_def sends_def)

end

section \<open>Properties\<close>

text \<open>
  The download progress reported with an event is between 0 and 100 percent whenever the
  bytes fetched are between nothing and the whole, and it is 100 when there is nothing to fetch.
\<close>
theorem progress_range:
  assumes "0 \<le> u_FetchedBytes s" and "u_FetchedBytes s \<le> z_Bytes (Size u)"
  shows "0 \<le> progress u s \<and> progress u s \<le> 100 \<and> (z_Bytes (Size u) = 0 \<longrightarrow> progress u s = 100)"
  using assms percent_range [of "u_FetchedBytes s" "z_Bytes (Size u)"] by (auto simp: progress_def)

theorem progress_range_witness:
  "\<exists>u s. u_FetchedBytes s = 1 \<and> z_Bytes (Size u) = 3 \<and> progress u s \<le> 100"
proof -
  let ?u = "(undefined :: update_ctx)\<lparr>Size := \<lparr>z_Bytes = 3, z_Blobs = 1\<rparr>\<rparr>"
  let ?s = "(undefined :: update_rec)\<lparr>u_FetchedBytes := 1, u_State := StateFetching\<rparr>"
  have "progress ?u ?s \<le> 100" using progress_range [of ?s ?u] by simp
  then show ?thesis by (intro exI [of _ ?u] exI [of _ ?s]) simp
qed

end
