(* ===== verification/Steps.thy ===== *)
theory Steps
  imports UpdateCtx
begin

text \<open>
  \<open>pkg/state/init.go\<close>, \<open>fetch.go\<close>, \<open>stop.go\<close>, \<open>install.go\<close> and \<open>start.go\<close>: the states of an update
  after the check. Each looks at the state of the update that its runner handles, does its part
  through the composeapp library and sends the events that belong to it. A call of a method on the
  nil runner panics.
\<close>

section \<open>Init\<close>

definition with_new_runner :: "'w env \<Rightarrow> update_ctx \<Rightarrow> 'w host \<Rightarrow> update_ctx \<times> 'w host" where
  "with_new_runner E u h =
    (case UpdateRunner u of
       Some r \<Rightarrow> (u, h)
     | None \<Rightarrow>
         (case x_NewUpdate E (tID (ToTarget u)) (ext h) of
            (Inl err, w) \<Rightarrow> (u, h\<lparr>ext := w\<rparr>)
          | (Inr r, w) \<Rightarrow> (u\<lparr>UpdateRunner := Some r\<rparr>, h\<lparr>ext := w\<rparr>)))"

definition Init_Execute :: "'w env \<Rightarrow> bool \<Rightarrow> 'w step" where
  "Init_Execute E CheckState u h =
    (let (u, h) = with_new_runner E u h
     in case UpdateRunner u of
          None \<Rightarrow> (Panicked, u, h)
        | Some r \<Rightarrow>
            (let state = u_State (x_Status E r (ext h));
                 apps = (if state = StateCreated then AppURIs (ToTarget u) else []);
                 wasInitialized = (state = StateCreated \<or> state = StateInitializing);
                 (err, h) =
                   (if wasInitialized then
                      let h = SendEvent E r UpdateInitStarted None u h;
                          (e, w) = x_Init E r apps True CheckState (ext h)
                      in (e, h\<lparr>ext := w\<rparr>)
                    else (None, h));
                 status = x_Status E r (ext h);
                 u = u\<lparr>Size := \<lparr>z_Bytes = u_TotalBlobsBytes status, z_Blobs = int (length (u_Blobs status))\<rparr>,
                       FetchedAt := u_FetchTime status\<rparr>;
                 h = (if wasInitialized then SendEvent E r UpdateInitCompleted (Some err) u h else h)
             in (Ret (map_option (errorf2 ErrInitFailed) err), u, h)))"

section \<open>Fetch\<close>

definition required_bytes :: "'w env \<Rightarrow> 64 word \<Rightarrow> blob_info list \<Rightarrow> 64 word" where
  "required_bytes E blockSize blobs =
    foldl (\<lambda>acc b. acc + (b_StoreSize b - x_AlignToBlockSize E (b_BytesFetched b) blockSize) + b_RuntimeSize b)
      0 blobs"

definition no_space_text :: "'w env \<Rightarrow> storage_stat \<Rightarrow> string" where
  "no_space_text E st =
    ''not enough space for update: required ''
      @ x_FormatBytes E (case st_Required st of None \<Rightarrow> 0 | Some r \<Rightarrow> r)
      @ '', available '' @ x_FormatBytes E (st_Available st)
      @ ''; storage: size '' @ x_FormatBytes E (st_Size st)
      @ '', free '' @ x_FormatBytes E (st_Free st)
      @ '', reserved '' @ x_FormatBytes E (st_Reserved st)"

definition checkFreeSpace ::
  "'w env \<Rightarrow> runner \<Rightarrow> 'w \<Rightarrow> update_ctx \<Rightarrow> goerr option outcome \<times> update_ctx" where
  "checkFreeSpace E r w u =
    (let required = required_bytes E (cc_BlockSize (composeConfig (Config u))) (u_Blobs (x_Status E r w))
     in case StorageUsage u of
          None \<Rightarrow> (Panicked, u)
        | Some st \<Rightarrow>
            (let st = st\<lparr>st_Required := Some required\<rparr>; u = u\<lparr>StorageUsage := Some st\<rparr>
             in if required > st_Available st
                then (Ret (Some (ErrorString (no_space_text E st))), u)
                else (Ret None, u)))"

text \<open>The storage check before the download: skipped when the usage is not known.\<close>

definition space_check ::
  "'w env \<Rightarrow> runner \<Rightarrow> 'w \<Rightarrow> update_ctx \<Rightarrow> goerr option outcome \<times> update_ctx" where
  "space_check E r w u =
    (case getAndSetStorageUsageInfo E w u of
       (Some err, u) \<Rightarrow> (Ret None, u)
     | (None, u) \<Rightarrow>
         (case checkFreeSpace E r w u of
            (Panicked, u) \<Rightarrow> (Panicked, u)
          | (Ret e, u) \<Rightarrow> (Ret (map_option (errorf2 ErrFetchNoSpace) e), u)))"

definition Fetch_Execute :: "'w env \<Rightarrow> 'w step" where
  "Fetch_Execute E u h =
    (case UpdateRunner u of
       None \<Rightarrow> (Panicked, u, h)
     | Some r \<Rightarrow>
         (let state = u_State (x_Status E r (ext h))
          in if state = StateCreated \<or> state = StateInitializing then
               (Ret (Some (Wrapped (sentinel_text ErrInvalidActionForState @ '':  update not initialized, cannot fetch'')
                  [Sentinel ErrInvalidActionForState])), u, h)
             else if state = StateInitialized \<or> state = StateFetching then
               (case space_check E r (ext h) u of
                  (Panicked, u) \<Rightarrow> (Panicked, u, h)
                | (Ret err, u) \<Rightarrow>
                    (let h = SendEvent E r DownloadStarted None u h;
                         (err, u, h) =
                           (case err of
                              Some e \<Rightarrow> (Some e, u, h)
                            | None \<Rightarrow>
                                (let (e, w) = x_Fetch E r (ext h);
                                     h = h\<lparr>ext := w\<rparr>;
                                     (e2, u) = getAndSetStorageUsageInfo E (ext h) u
                                 in (map_option (errorf2 ErrFetchFailed) e, u, h)));
                         h = SendEvent E r DownloadCompleted (Some err) u h
                     in (Ret err, u, h)))
             else (Ret None, u\<lparr>AlreadyFetched := True\<rparr>, h)))"

section \<open>Stop\<close>

definition is_one_of :: "upd_state \<Rightarrow> upd_state list \<Rightarrow> bool" where
  "is_one_of s states \<longleftrightarrow> s \<in> set states"

definition installed_states :: "upd_state list" where
  "installed_states = [StateInstalled, StateStarting, StateStarted, StateCompleting]"

text \<open>The apps of a synced target that are to be stopped: those of the list that are not healthy.\<close>

fun unhealthy_apps :: "current_status option \<Rightarrow> app list \<Rightarrow> app list" where
  "unhealthy_apps cs [] = []"
| "unhealthy_apps cs (a # as) =
     (case cs of
        None \<Rightarrow> a # unhealthy_apps cs as
      | Some s \<Rightarrow>
          (case map_of (cs_AppStatuses s) (aURI a) of
             None \<Rightarrow> a # unhealthy_apps cs as
           | Some st \<Rightarrow>
               if \<not> ap_Running st \<or> \<not> ap_Installed st \<or> \<not> ap_Fetched st
               then a # unhealthy_apps cs as else unhealthy_apps cs as))"

definition apps_to_stop :: "update_ctx \<Rightarrow> app list" where
  "apps_to_stop u =
    (if Type u = UpdateTypeUpdate \<or> IsForcedUpdate u then tApps (FromTarget u)
     else dRemove (AppDiff u) @ unhealthy_apps (CurrentStatus u) (dSync (AppDiff u)))"

text \<open>The status after a failure is kept in the context when it can be had.\<close>

definition refresh_status :: "'w env \<Rightarrow> 'w \<Rightarrow> update_ctx \<Rightarrow> update_ctx" where
  "refresh_status E w u =
    (case GetCurrentStatus E w of Inr s \<Rightarrow> u\<lparr>CurrentStatus := Some s\<rparr> | Inl e \<Rightarrow> u)"

definition Stop_Execute :: "'w env \<Rightarrow> 'w step" where
  "Stop_Execute E u h =
    (case UpdateRunner u of
       None \<Rightarrow> (Panicked, u, h)
     | Some r \<Rightarrow>
         (let state = u_State (x_Status E r (ext h))
          in if is_one_of state installed_states then (Ret None, u, h)
             else if \<not> is_one_of state [StateFetched, StateInstalling] then
               (Ret (Some (errorf_msg ErrInvalidActionForState
                  (''invalid state '' @ x_StateString E state @ '' for stopping apps; must be in state ''
                   @ x_StateString E StateFetched @ '' or '' @ x_StateString E StateInstalling))), u, h)
             else
               (let h = SendEvent E r InstallationStarted None u h;
                    apps = apps_to_stop u;
                    (err, h) =
                      (if length apps > 0 then
                         let (e, w) = x_StopApps E (URIs apps) (ext h) in (e, h\<lparr>ext := w\<rparr>)
                       else (None, h))
                in case err of
                     None \<Rightarrow> (Ret None, u, h)
                   | Some e \<Rightarrow>
                       (let u = refresh_status E (ext h) u;
                            h = SendEvent E r InstallationCompleted (Some (Some e)) u h
                        in (Ret (Some (errorf2 ErrStopAppsFailed e)), u, h)))))"

section \<open>Install\<close>

definition Install_Execute :: "'w env \<Rightarrow> 'w step" where
  "Install_Execute E u h =
    (case UpdateRunner u of
       None \<Rightarrow> (Panicked, u, h)
     | Some r \<Rightarrow>
         (if is_one_of (u_State (x_Status E r (ext h))) installed_states then (Ret None, u, h)
          else
            (let (err, w) = x_Install E r (ext h);
                 h = h\<lparr>ext := w\<rparr>
             in case err of
                  None \<Rightarrow> (Ret None, u, SendEvent E r InstallationApplied None u h)
                | Some e \<Rightarrow>
                    (let u = refresh_status E (ext h) u;
                         h = SendEvent E r InstallationCompleted (Some (Some e)) u h
                     in (Ret (Some (errorf2 ErrInstallFailed e)), u, h)))))"

section \<open>Start\<close>

definition prune_mode :: "update_ctx \<Rightarrow> prune_type" where
  "prune_mode u = (if GetImagePruningFlag (Config u) then PruneTypeAllUnusedImages else PruneTypeOnlyAppImages)"

definition completeUpdate :: "'w env \<Rightarrow> runner \<Rightarrow> update_ctx \<Rightarrow> 'w \<Rightarrow> 'w" where
  "completeUpdate E r u w =
    (case x_Complete E r [CompleteWithPruning (prune_mode u)] w of
       (None, w) \<Rightarrow> w
     | (Some _, w) \<Rightarrow>
         (case x_Complete E r [CompleteWithPruning (prune_mode u)] w of
            (None, w) \<Rightarrow> w
          | (Some _, w) \<Rightarrow>
              (case x_Complete E r [] w of
                 (None, w) \<Rightarrow> w
               | (Some _, w) \<Rightarrow>
                   (case x_Complete E r [CompleteWithForce] w of
                      (None, w) \<Rightarrow> w
                    | (Some _, w) \<Rightarrow> w))))"

definition Start_Execute :: "'w env \<Rightarrow> 'w step" where
  "Start_Execute E u h =
    (case UpdateRunner u of
       None \<Rightarrow> (Panicked, u, h)
     | Some r \<Rightarrow>
         (let state = u_State (x_Status E r (ext h))
          in if \<not> is_one_of state installed_states then
               (Ret (Some (ErrorString (''cannot start or complete update in state '' @ x_StateString E state))), u, h)
             else
               (let (err, h) =
                      (if is_one_of state [StateInstalled, StateStarting] then
                         let (e, w) = x_Start E r (ext h) in (e, h\<lparr>ext := w\<rparr>)
                       else (None, h));
                    (err, u, h) =
                      (case err of
                         None \<Rightarrow>
                           (None,
                            u\<lparr>Client := UpdateHeaders (AppNames (ToTarget u)) (tID (ToTarget u)) (Client u)\<rparr>,
                            h\<lparr>ext := completeUpdate E r u (ext h)\<rparr>)
                       | Some e \<Rightarrow> (Some (errorf2 ErrStartFailed e), u, h));
                    u = refresh_status E (ext h) u;
                    (e2, u) = getAndSetStorageUsageInfo E (ext h) u;
                    h = SendEvent E r InstallationCompleted (Some err) u h
                in (Ret err, u, h))))"

section \<open>Lemmas\<close>

lemma storage_config: "getAndSetStorageUsageInfo E w u = (e, u') \<Longrightarrow> Config u' = Config u"
  by (auto simp: getAndSetStorageUsageInfo_def split: sum.splits)

lemma refresh_status_sel [simp]: "Config (refresh_status E w u) = Config u"
  "UpdateRunner (refresh_status E w u) = UpdateRunner u" "ToTarget (refresh_status E w u) = ToTarget u"
  by (auto simp: refresh_status_def split: sum.splits)

lemma checkFreeSpace_config: "checkFreeSpace E r w u = (e, u') \<Longrightarrow> Config u' = Config u"
  by (auto simp: checkFreeSpace_def Let_def split: option.splits if_splits)

lemma space_check_config: "space_check E r w u = (e, u') \<Longrightarrow> Config u' = Config u"
  by (auto simp: space_check_def split: prod.splits option.splits outcome.splits
      dest!: storage_config checkFreeSpace_config)

lemma with_new_runner_same:
  "with_new_runner E u h = (u', h') \<Longrightarrow> report_events h' = report_events h \<and> Config u' = Config u \<and> fs h' = fs h"
  by (auto simp: with_new_runner_def split: option.splits prod.splits sum.splits)

lemma in_order_ext [simp]: "in_order a b h (h1\<lparr>ext := w\<rparr>) = in_order a b h h1"
  unfolding in_order_def sends_def queue_ok_def queued_def by simp

lemma in_order_start: "report_events h1 = report_events h \<Longrightarrow> in_order a b h1 h' = in_order a b h h'"
  unfolding in_order_def sends_def queue_ok_def queued_def by simp

lemma in_order_ext_start [simp]: "in_order a b (h1\<lparr>ext := w\<rparr>) h' = in_order a b h1 h'"
  by (rule in_order_start) simp

text \<open>Two events one after the other.\<close>

lemma SendEvent_first: "a \<le> event_rank t \<Longrightarrow> Suc (event_rank t) \<le> b \<Longrightarrow> in_order a b h (SendEvent E r t e u h)"
  by (rule in_order_mono [OF SendEvent_in_order(1)])

lemma Init_in_order:
  assumes "Init_Execute E c u h = (out, u', h')"
  shows "in_order 1 3 h h' \<and> Config u' = Config u"
proof -
  obtain u1 h1 where n: "with_new_runner E u h = (u1, h1)" by fastforce
  note same = with_new_runner_same [OF n]
  show ?thesis
  proof (cases "UpdateRunner u1")
    case None
    with assms n same show ?thesis by (auto simp: Init_Execute_def in_order_same)
  next
    case (Some r)
    let ?state = "u_State (x_Status E r (ext h1))"
    show ?thesis
    proof (cases "?state = StateCreated \<or> ?state = StateInitializing")
      case True
      obtain e w where i: "x_Init E r (if ?state = StateCreated then AppURIs (ToTarget u1) else []) True c
          (ext (SendEvent E r UpdateInitStarted None u1 h1)) = (e, w)" by fastforce
      have "in_order 1 2 h1 (SendEvent E r UpdateInitStarted None u1 h1)" by (simp add: SendEvent_first)
      then have "in_order 1 3 h1 (SendEvent E r UpdateInitCompleted x v
          ((SendEvent E r UpdateInitStarted None u1 h1)\<lparr>ext := w\<rparr>))" for x v
        by (intro SendEvent_step) simp_all
      moreover have "in_order a b h1 x = in_order a b h x" for a b x
        by (rule in_order_start) (simp add: same)
      ultimately show ?thesis using assms n Some True i same
        by (auto simp: Init_Execute_def Let_def)
    next
      case False
      with assms n Some same show ?thesis by (auto simp: Init_Execute_def Let_def in_order_same)
    qed
  qed
qed

interpretation init: action_state "Init_Execute E c" 1 3
proof
  fix u h out u' h'
  assume "Init_Execute E c u h = (out, u', h')"
  from Init_in_order [OF this] show "in_order 1 8 h h'" by (auto elim: in_order_mono)
qed (auto dest: Init_in_order)

lemma Fetch_in_order:
  assumes "Fetch_Execute E u h = (out, u', h')"
  shows "in_order 3 5 h h' \<and> Config u' = Config u"
proof (cases "UpdateRunner u")
  case None
  with assms show ?thesis by (simp add: Fetch_Execute_def)
next
  case (Some r)
  let ?state = "u_State (x_Status E r (ext h))"
  consider "?state = StateCreated \<or> ?state = StateInitializing"
    | "?state = StateInitialized \<or> ?state = StateFetching"
    | "\<not> (?state = StateCreated \<or> ?state = StateInitializing)" "\<not> (?state = StateInitialized \<or> ?state = StateFetching)"
    by blast
  then show ?thesis
  proof cases
    case 2
    obtain sp u1 where sp: "space_check E r (ext h) u = (sp, u1)" by fastforce
    note c1 = space_check_config [OF sp]
    show ?thesis
    proof (cases sp)
      case Panicked
      with assms Some 2 sp c1 show ?thesis by (auto simp: Fetch_Execute_def)
    next
      case (Ret err)
      let ?h1 = "SendEvent E r DownloadStarted None u1 h"
      have first: "in_order 3 4 h ?h1" by (simp add: SendEvent_first)
      show ?thesis
      proof (cases err)
        case (Some e)
        have "h' = SendEvent E r DownloadCompleted (Some (Some e)) u1 ?h1" "u' = u1"
          using assms 2 sp Ret Some \<open>UpdateRunner u = Some r\<close> by (auto simp: Fetch_Execute_def Let_def)
        with first c1 show ?thesis by (auto intro!: SendEvent_step)
      next
        case None
        obtain e w where f: "x_Fetch E r (ext ?h1) = (e, w)" by fastforce
        obtain e2 u2 where g: "getAndSetStorageUsageInfo E w u1 = (e2, u2)" by fastforce
        have "h' = SendEvent E r DownloadCompleted (Some (map_option (errorf2 ErrFetchFailed) e)) u2 (?h1\<lparr>ext := w\<rparr>)"
          "u' = u2"
          using assms 2 sp Ret None f g \<open>UpdateRunner u = Some r\<close> by (auto simp: Fetch_Execute_def Let_def)
        with first c1 storage_config [OF g] show ?thesis by (auto intro!: SendEvent_step)
      qed
    qed
  qed (use assms Some in \<open>auto simp: Fetch_Execute_def\<close>)
qed

interpretation fetch: action_state "Fetch_Execute E" 3 5
proof
  fix u h out u' h'
  assume "Fetch_Execute E u h = (out, u', h')"
  from Fetch_in_order [OF this] show "in_order 3 8 h h'" by (auto elim: in_order_mono)
qed (auto dest: Fetch_in_order)

lemma Stop_in_order:
  assumes "Stop_Execute E u h = (out, u', h')"
  shows "in_order 5 8 h h' \<and> Config u' = Config u \<and> (out = Ret None \<longrightarrow> in_order 5 6 h h')"
proof (cases "UpdateRunner u")
  case None
  with assms show ?thesis by (auto simp: Stop_Execute_def)
next
  case (Some r)
  let ?state = "u_State (x_Status E r (ext h))"
  show ?thesis
  proof (cases "is_one_of ?state installed_states \<or> \<not> is_one_of ?state [StateFetched, StateInstalling]")
    case True
    with assms Some show ?thesis by (auto simp: Stop_Execute_def Let_def split: if_splits)
  next
    case False
    let ?h1 = "SendEvent E r InstallationStarted None u h"
    have first: "in_order 5 6 h ?h1" by (simp add: SendEvent_first)
    obtain e h2 where e: "(if length (apps_to_stop u) > 0 then
         let (e, w) = x_StopApps E (URIs (apps_to_stop u)) (ext ?h1) in (e, ?h1\<lparr>ext := w\<rparr>) else (None, ?h1)) = (e, h2)"
      by fastforce
    have second: "in_order 5 6 h h2" using e first by (auto split: if_splits prod.splits)
    show ?thesis
    proof (cases e)
      case None
      with assms Some False e second show ?thesis
        by (auto simp: Stop_Execute_def Let_def elim: in_order_mono)
    next
      case (Some x)
      have "h' = SendEvent E r InstallationCompleted (Some (Some x)) (refresh_status E (ext h2) u) h2"
        "u' = refresh_status E (ext h2) u" "out \<noteq> Ret None"
        using assms False e Some \<open>UpdateRunner u = Some r\<close> by (auto simp: Stop_Execute_def Let_def)
      then show ?thesis using in_order_mono [OF second, of 5 7] by (auto intro!: SendEvent_step)
    qed
  qed
qed

interpretation stop: action_state "Stop_Execute E" 5 6
  by unfold_locales (auto dest: Stop_in_order)

lemma Install_in_order:
  assumes "Install_Execute E u h = (out, u', h')"
  shows "in_order 6 8 h h' \<and> Config u' = Config u \<and> (out = Ret None \<longrightarrow> in_order 6 7 h h')"
proof (cases "UpdateRunner u")
  case None
  with assms show ?thesis by (auto simp: Install_Execute_def)
next
  case (Some r)
  show ?thesis
  proof (cases "is_one_of (u_State (x_Status E r (ext h))) installed_states")
    case True
    with assms Some show ?thesis by (auto simp: Install_Execute_def)
  next
    case False
    obtain e w where i: "x_Install E r (ext h) = (e, w)" by fastforce
    show ?thesis
    proof (cases e)
      case None
      have "in_order 6 7 h (SendEvent E r InstallationApplied None u (h\<lparr>ext := w\<rparr>))"
        using SendEvent_first [of 6 InstallationApplied 7 "h\<lparr>ext := w\<rparr>" E r None u] by simp
      with assms Some False i None show ?thesis
        by (auto simp: Install_Execute_def elim: in_order_mono)
    next
      case (Some x)
      have "in_order 6 8 h (SendEvent E r InstallationCompleted y v (h\<lparr>ext := w\<rparr>))" for y v
        using SendEvent_first [of 6 InstallationCompleted 8 "h\<lparr>ext := w\<rparr>" E r y v] by simp
      with assms False i Some \<open>UpdateRunner u = Some r\<close> show ?thesis
        by (auto simp: Install_Execute_def Let_def)
    qed
  qed
qed

interpretation install: action_state "Install_Execute E" 6 7
  by unfold_locales (auto dest: Install_in_order)

lemma Start_in_order:
  assumes "Start_Execute E u h = (out, u', h')"
  shows "in_order 7 8 h h' \<and> Config u' = Config u"
proof (cases "UpdateRunner u")
  case None
  with assms show ?thesis by (auto simp: Start_Execute_def)
next
  case (Some r)
  let ?state = "u_State (x_Status E r (ext h))"
  show ?thesis
  proof (cases "is_one_of ?state installed_states")
    case False
    with assms Some show ?thesis by (auto simp: Start_Execute_def)
  next
    case True
    obtain e0 h0 where e0: "(if is_one_of ?state [StateInstalled, StateStarting] then
         let (e, w) = x_Start E r (ext h) in (e, h\<lparr>ext := w\<rparr>) else (None, h)) = (e0, h0)" by fastforce
    obtain e1 u1 h1 where e1: "(case e0 of
         None \<Rightarrow> (None, u\<lparr>Client := UpdateHeaders (AppNames (ToTarget u)) (tID (ToTarget u)) (Client u)\<rparr>,
                  h0\<lparr>ext := completeUpdate E r u (ext h0)\<rparr>)
       | Some e \<Rightarrow> (Some (errorf2 ErrStartFailed e), u, h0)) = (e1, u1, h1)" by (metis prod_cases3)
    obtain e2 u2 where e2: "getAndSetStorageUsageInfo E (ext h1) (refresh_status E (ext h1) u1) = (e2, u2)" by fastforce
    have same: "report_events h1 = report_events h" "Config u1 = Config u"
      using e0 e1 by (auto split: if_splits prod.splits option.splits)
    have "h' = SendEvent E r InstallationCompleted (Some e1) u2 h1" "u' = u2"
      using assms Some True e0 e1 e2 by (auto simp: Start_Execute_def Let_def)
    moreover have "in_order 7 8 h1 (SendEvent E r InstallationCompleted (Some e1) u2 h1)" by (simp add: SendEvent_first)
    ultimately show ?thesis using in_order_start [OF same(1)] storage_config [OF e2] same(2) by simp
  qed
qed

interpretation start: action_state "Start_Execute E" 7 8
  by unfold_locales (auto dest: Start_in_order)

section \<open>Calls that a state does not make\<close>

text \<open>Sending an event uses a few calls of the environment only; the others do not matter.\<close>

lemma SendEvent_cong:
  assumes "x_io E' = x_io E" "x_uuid E' = x_uuid E" "x_now E' = x_now E" "x_map_order E' = x_map_order E"
    "x_Status E' = x_Status E"
  shows "SendEvent E' r t e u h = SendEvent E r t e u h"
proof -
  have io: "io E' = io E" by (simp add: io_def fun_eq_iff assms)
  have save: "SaveEvent E' = SaveEvent E" unfolding SaveEvent_def io ..
  have enq: "EnqueueEvent E' = EnqueueEvent E" unfolding EnqueueEvent_def assms save ..
  have list: "AppStatusList E' = AppStatusList E" by (simp add: AppStatusList_def range_map_def fun_eq_iff assms)
  have status: "status_list E' = status_list E" unfolding status_list_def list ..
  have det: "getUpdateDetails E' = getUpdateDetails E"
    unfolding getUpdateDetails_def getUpdateInitStartedDetails_def getInstallationCompletedDetails_def status ..
  show ?thesis unfolding SendEvent_def enq det assms ..
qed

lemma SendEvent_irrelevant:
  "SendEvent (E\<lparr>x_Fetch := f\<rparr>) = SendEvent E" "SendEvent (E\<lparr>x_StopApps := g\<rparr>) = SendEvent E"
  by (intro ext SendEvent_cong; simp)+

lemma space_check_irrelevant: "space_check (E\<lparr>x_Fetch := f\<rparr>) = space_check E"
proof -
  have req: "required_bytes (E\<lparr>x_Fetch := f\<rparr>) = required_bytes E" by (simp add: required_bytes_def fun_eq_iff)
  have msg: "no_space_text (E\<lparr>x_Fetch := f\<rparr>) = no_space_text E" by (simp add: no_space_text_def fun_eq_iff)
  have st: "x_Status (E\<lparr>x_Fetch := f\<rparr>) = x_Status E" by simp
  have chk: "checkFreeSpace (E\<lparr>x_Fetch := f\<rparr>) = checkFreeSpace E"
    unfolding checkFreeSpace_def req msg st ..
  have usg: "getAndSetStorageUsageInfo (E\<lparr>x_Fetch := f\<rparr>) = getAndSetStorageUsageInfo E"
    by (simp add: getAndSetStorageUsageInfo_def fun_eq_iff)
  show ?thesis unfolding space_check_def chk usg ..
qed

section \<open>The arithmetic of the storage check\<close>

definition blob_need :: "'w env \<Rightarrow> 64 word \<Rightarrow> blob_info \<Rightarrow> nat" where
  "blob_need E bs b =
    unat (b_StoreSize b) - unat (x_AlignToBlockSize E (b_BytesFetched b) bs) + unat (b_RuntimeSize b)"

lemma word_add_no_overflow: "unat a + unat b < 2 ^ 64 \<Longrightarrow> unat (a + b :: 64 word) = unat a + unat b"
  by (simp add: unat_word_ariths)

lemma word_sub_no_underflow: "unat b \<le> unat a \<Longrightarrow> unat (a - b :: 64 word) = unat a - unat b"
  by (simp add: unat_sub word_le_nat_alt)

lemma foldl_required:
  assumes "\<forall>b \<in> set blobs. unat (x_AlignToBlockSize E (b_BytesFetched b) bs) \<le> unat (b_StoreSize b)"
    and "unat acc + sum_list (map (blob_need E bs) blobs) < 2 ^ 64"
  shows "unat (foldl (\<lambda>acc b. acc + (b_StoreSize b - x_AlignToBlockSize E (b_BytesFetched b) bs) + b_RuntimeSize b) acc blobs)
    = unat acc + sum_list (map (blob_need E bs) blobs)"
  using assms
proof (induction blobs arbitrary: acc)
  case (Cons b blobs)
  let ?d = "b_StoreSize b - x_AlignToBlockSize E (b_BytesFetched b) bs"
  have d: "unat ?d = unat (b_StoreSize b) - unat (x_AlignToBlockSize E (b_BytesFetched b) bs)"
    using Cons.prems(1) by (intro word_sub_no_underflow) simp
  have bn: "blob_need E bs b = unat ?d + unat (b_RuntimeSize b)" by (simp add: blob_need_def d)
  have small: "unat acc + (unat ?d + unat (b_RuntimeSize b)) + sum_list (map (blob_need E bs) blobs) < 2 ^ 64"
    using Cons.prems(2) by (simp add: bn)
  then have 1: "unat (acc + ?d) = unat acc + unat ?d" by (intro word_add_no_overflow) linarith
  with small have 2: "unat (acc + ?d + b_RuntimeSize b) = unat acc + unat ?d + unat (b_RuntimeSize b)"
    using word_add_no_overflow [of "acc + ?d" "b_RuntimeSize b"] by simp
  have "unat (acc + ?d + b_RuntimeSize b) + sum_list (map (blob_need E bs) blobs) < 2 ^ 64"
    using small 2 by linarith
  with Cons.IH [of "acc + ?d + b_RuntimeSize b"] Cons.prems(1) 2 show ?case
    by (simp add: bn)
qed simp

lemma required_bytes_sum:
  "\<forall>b \<in> set blobs. unat (x_AlignToBlockSize E (b_BytesFetched b) bs) \<le> unat (b_StoreSize b)
    \<Longrightarrow> sum_list (map (blob_need E bs) blobs) < 2 ^ 64
    \<Longrightarrow> unat (required_bytes E bs blobs) = sum_list (map (blob_need E bs) blobs)"
  using foldl_required [of blobs E bs 0] by (simp add: required_bytes_def)

fun complete_until :: "'w env \<Rightarrow> runner \<Rightarrow> complete_opt list list \<Rightarrow> 'w \<Rightarrow> 'w" where
  "complete_until E r [] w = w"
| "complete_until E r (opts # rest) w =
     (case x_Complete E r opts w of (None, w) \<Rightarrow> w | (Some err, w) \<Rightarrow> complete_until E r rest w)"

lemma unhealthy_apps_filter:
  "unhealthy_apps cs as = filter (\<lambda>a. \<not> (\<exists>s st. cs = Some s \<and> map_of (cs_AppStatuses s) (aURI a) = Some st
     \<and> ap_Running st \<and> ap_Installed st \<and> ap_Fetched st)) as"
  by (induction cs as rule: unhealthy_apps.induct) (auto split: option.splits)

section \<open>Properties\<close>



text \<open>
  When the storage check finds too little space, fetching fails with that error and nothing is
  downloaded: the outcome does not depend on what the download would have done.
\<close>
theorem Fetch_no_space:
  assumes "UpdateRunner u = Some r" and "u_State (x_Status E r (ext h)) \<in> {StateInitialized, StateFetching}"
    and "space_check E r (ext h) u = (Ret (Some e), u1)"
  shows "errors_is e ErrFetchNoSpace \<and> fst (Fetch_Execute E u h) = Ret (Some e)
    \<and> Fetch_Execute (E\<lparr>x_Fetch := f\<rparr>) u h = Fetch_Execute E u h"
proof -
  have "errors_is e ErrFetchNoSpace"
    using assms(3) by (auto simp: space_check_def split: prod.splits option.splits outcome.splits)
  moreover have "Fetch_Execute E' u h = (Ret (Some e), u1, SendEvent E r DownloadCompleted (Some (Some e)) u1
      (SendEvent E r DownloadStarted None u1 h))"
    if "x_Status E' = x_Status E" "space_check E' = space_check E" "SendEvent E' = SendEvent E" for E'
    using assms that by (auto simp: Fetch_Execute_def Let_def)
  ultimately show ?thesis
    using SendEvent_irrelevant(1) [of f E] space_check_irrelevant [of f E] by simp
qed

theorem Fetch_no_space_witness:
  defines "E \<equiv> (undefined :: unit env)\<lparr>x_Status := \<lambda>r w. (undefined :: update_rec)\<lparr>u_State := StateInitialized,
       u_Blobs := [\<lparr>b_StoreSize = 10, b_RuntimeSize = 5, b_BytesFetched = 0\<rparr>]\<rparr>,
     x_GetUsageInfo := \<lambda>p n w. Inr \<lparr>ui_Size = 20, ui_Free = 9, ui_Reserved = 1, ui_Available = 8\<rparr>,
     x_AlignToBlockSize := \<lambda>n b. n, x_FormatBytes := \<lambda>n. ''n''\<rparr>"
  defines "u \<equiv> (undefined :: update_ctx)\<lparr>UpdateRunner := Some 1\<rparr>"
  defines "h \<equiv> \<lparr>ext = (), fs = Map.empty, report_events = None, installed_versions = None, reqs = []\<rparr>"
  shows "\<exists>e. fst (Fetch_Execute E u h) = Ret (Some e) \<and> errors_is e ErrFetchNoSpace"
proof -
  have E: "x_GetUsageInfo E p n w = Inr \<lparr>ui_Size = 20, ui_Free = 9, ui_Reserved = 1, ui_Available = 8\<rparr>"
    "x_AlignToBlockSize E a b = a" "u_Blobs (x_Status E r w) = [\<lparr>b_StoreSize = 10, b_RuntimeSize = 5, b_BytesFetched = 0\<rparr>]"
    "u_State (x_Status E r w) = StateInitialized" for p n w a b r
    by (simp_all add: E_def)
  have need: "required_bytes E bs [\<lparr>b_StoreSize = 10, b_RuntimeSize = 5, b_BytesFetched = 0\<rparr>] = 15" for bs
    by (simp add: required_bytes_def E)
  obtain c u1 where c: "space_check E 1 (ext h) u = (c, u1)" by fastforce
  then have "\<exists>e. c = Ret (Some e)"
    by (auto simp: space_check_def getAndSetStorageUsageInfo_def E checkFreeSpace_def need Let_def)
  with c obtain e where s: "space_check E 1 (ext h) u = (Ret (Some e), u1)" by blast
  show ?thesis using Fetch_no_space [OF _ _ s] by (auto simp: u_def E)
qed

text \<open>
  C29: the 64-bit arithmetic of the storage check. As long as no blob has more (aligned) bytes
  fetched than it has to store and the sum fits 64 bits, the bytes required are the sum over the
  blobs of what is left to store plus the runtime size, and the check passes exactly when that is
  at most what is available.
\<close>
theorem checkFreeSpace_exact:
  assumes "StorageUsage u = Some st" and "blobs = u_Blobs (x_Status E r w)"
    and "bs = cc_BlockSize (composeConfig (Config u))"
    and "\<forall>b \<in> set blobs. unat (x_AlignToBlockSize E (b_BytesFetched b) bs) \<le> unat (b_StoreSize b)"
    and "sum_list (map (blob_need E bs) blobs) < 2 ^ 64"
  shows "\<exists>u' req. StorageUsage u' = Some (st\<lparr>st_Required := Some req\<rparr>)
    \<and> unat req = sum_list (map (blob_need E bs) blobs)
    \<and> (if sum_list (map (blob_need E bs) blobs) \<le> unat (st_Available st)
       then checkFreeSpace E r w u = (Ret None, u')
       else \<exists>e. checkFreeSpace E r w u = (Ret (Some e), u'))"
proof -
  have "unat (required_bytes E bs blobs) = sum_list (map (blob_need E bs) blobs)"
    using assms(4,5) by (rule required_bytes_sum)
  then show ?thesis using assms(1,2,3)
    by (intro exI [of _ "u\<lparr>StorageUsage := Some (st\<lparr>st_Required := Some (required_bytes E bs blobs)\<rparr>)\<rparr>"]
        exI [of _ "required_bytes E bs blobs"])
      (auto simp: checkFreeSpace_def Let_def word_less_nat_alt)
qed

theorem checkFreeSpace_exact_witness:
  defines "E \<equiv> (undefined :: unit env)\<lparr>x_Status := \<lambda>r w. (undefined :: update_rec)\<lparr>
       u_Blobs := [\<lparr>b_StoreSize = 10, b_RuntimeSize = 5, b_BytesFetched = 4\<rparr>]\<rparr>,
     x_AlignToBlockSize := \<lambda>n b. n\<rparr>"
  defines "u \<equiv> (undefined :: update_ctx)\<lparr>StorageUsage := Some \<lparr>st_Size = 20, st_Free = 12, st_Reserved = 1,
     st_Available = 11, st_Required = None\<rparr>\<rparr>"
  shows "\<exists>u'. checkFreeSpace E 1 () u = (Ret None, u')"
proof -
  let ?st = "\<lparr>st_Size = 20, st_Free = 12, st_Reserved = 1, st_Available = 11, st_Required = None\<rparr>"
  let ?bs = "cc_BlockSize (composeConfig (Config u))"
  have b: "u_Blobs (x_Status E 1 ()) = [\<lparr>b_StoreSize = 10, b_RuntimeSize = 5, b_BytesFetched = 4\<rparr>]"
    by (simp add: E_def)
  have need: "sum_list (map (blob_need E ?bs) (u_Blobs (x_Status E 1 ()))) = 11"
    unfolding b by (simp add: blob_need_def E_def)
  have "\<forall>b \<in> set (u_Blobs (x_Status E 1 ())). unat (x_AlignToBlockSize E (b_BytesFetched b) ?bs) \<le> unat (b_StoreSize b)"
    unfolding b by (simp add: E_def)
  from checkFreeSpace_exact [OF _ refl refl this, of ?st] need show ?thesis by (auto simp: u_def)
qed

text \<open>
  The completion of an update that was started tries, until one succeeds, twice with pruning,
  then without, then by force; the start itself has succeeded whatever comes of it.
\<close>
theorem completeUpdate_attempts:
  "completeUpdate E r u w =
    complete_until E r [[CompleteWithPruning (prune_mode u)], [CompleteWithPruning (prune_mode u)], [], [CompleteWithForce]] w"
  by (auto simp: completeUpdate_def split: prod.splits option.splits)

text \<open>
  A sync that is not forced stops exactly the apps that are removed and those to be kept that
  are not fetched, installed and running; with nothing to stop the library is not called (it would
  stop every app when given an empty list).
\<close>
theorem Stop_apps:
  assumes "Type u = UpdateTypeSync" and "\<not> IsForcedUpdate u"
  shows "(a \<in> set (apps_to_stop u) \<longleftrightarrow> a \<in> set (dRemove (AppDiff u)) \<or>
      a \<in> set (dSync (AppDiff u)) \<and> \<not> (\<exists>s st. CurrentStatus u = Some s \<and> map_of (cs_AppStatuses s) (aURI a) = Some st
        \<and> ap_Running st \<and> ap_Installed st \<and> ap_Fetched st))
    \<and> (apps_to_stop u = [] \<longrightarrow> Stop_Execute (E\<lparr>x_StopApps := f\<rparr>) u h = Stop_Execute E u h)"
proof (intro conjI impI)
  show "a \<in> set (apps_to_stop u) \<longleftrightarrow> a \<in> set (dRemove (AppDiff u)) \<or>
      a \<in> set (dSync (AppDiff u)) \<and> \<not> (\<exists>s st. CurrentStatus u = Some s \<and> map_of (cs_AppStatuses s) (aURI a) = Some st
        \<and> ap_Running st \<and> ap_Installed st \<and> ap_Fetched st)"
    using assms by (simp add: apps_to_stop_def unhealthy_apps_filter)
next
  assume "apps_to_stop u = []"
  then show "Stop_Execute (E\<lparr>x_StopApps := f\<rparr>) u h = Stop_Execute E u h"
    by (simp add: Stop_Execute_def SendEvent_irrelevant Let_def cong: option.case_cong if_cong)
qed

theorem Stop_apps_witness:
  "\<lparr>aName = ''a'', aURI = ''r/a@1''\<rparr> \<in> set (apps_to_stop ((undefined :: update_ctx)\<lparr>Type := UpdateTypeSync,
     IsForcedUpdate := False, CurrentStatus := None, AppDiff := empty_diff\<lparr>dSync := [\<lparr>aName = ''a'', aURI = ''r/a@1''\<rparr>]\<rparr>\<rparr>))"
  by (subst Stop_apps [THEN conjunct1]) simp_all

text \<open>
  The initialization of a new update that cannot be created ends in a panic, because the error
  of the creation is not looked at; of an update that exists it hands the apps of the target to the
  library exactly when the update has just been created, and reports its failure as such.
\<close>
theorem Init_outcome:
  assumes "UpdateRunner u = None"
  shows "(x_NewUpdate E (tID (ToTarget u)) (ext h) = (Inl err, w) \<longrightarrow> Init_Execute E c u h = (Panicked, u, h\<lparr>ext := w\<rparr>))
    \<and> (x_NewUpdate E (tID (ToTarget u)) (ext h) = (Inr r, w) \<and> u_State (x_Status E r w) = StateCreated
        \<and> x_Init E r (AppURIs (ToTarget u)) True c
            (ext (SendEvent E r UpdateInitStarted None (u\<lparr>UpdateRunner := Some r\<rparr>) (h\<lparr>ext := w\<rparr>))) = (res, w')
       \<longrightarrow> (case res of
              None \<Rightarrow> fst (Init_Execute E c u h) = Ret None
            | Some e \<Rightarrow> \<exists>e'. fst (Init_Execute E c u h) = Ret (Some e') \<and> errors_is e' ErrInitFailed))"
  using assms by (cases res) (auto simp: Init_Execute_def with_new_runner_def Let_def)

theorem Init_outcome_witness:
  "\<exists>E :: unit env. \<exists>u h h'. Init_Execute E False u h = (Panicked, u, h')"
proof -
  let ?E = "(undefined :: unit env)\<lparr>x_NewUpdate := \<lambda>t w. (Inl (ErrorString ''disk full''), w)\<rparr>"
  let ?u = "(undefined :: update_ctx)\<lparr>UpdateRunner := None\<rparr>"
  let ?h = "\<lparr>ext = (), fs = Map.empty, report_events = None, installed_versions = None, reqs = []\<rparr>"
  have "Init_Execute ?E False ?u ?h = (Panicked, ?u, ?h\<lparr>ext := ()\<rparr>)"
    using Init_outcome [of ?u ?E ?h "ErrorString ''disk full''" "()" False undefined None "()"] by simp
  then show ?thesis by blast
qed

text \<open>
  A blob of which more bytes have been fetched than it has to store makes the requirement wrap
  around, and the check fails however much space there is.
\<close>
lemma required_bytes_wraps:
  "required_bytes ((undefined :: unit env)\<lparr>x_AlignToBlockSize := \<lambda>n b. 4096\<rparr>) 4096
     [\<lparr>b_StoreSize = 100, b_RuntimeSize = 0, b_BytesFetched = 100\<rparr>] = - 3996"
  by (simp add: required_bytes_def)

end
