(* ===== verification/CheckState.thy ===== *)
theory CheckState
  imports Steps
begin

text \<open>
  \<open>pkg/state/check.go\<close>: the first state of every update. It finds the update under way, loads the
  targets, determines the target the device runs and the one to go to, compares the two, and
  decides whether there is anything to do.
\<close>

section \<open>Targets out of an update record\<close>

definition extractTargetVersion :: "string \<Rightarrow> int result" where
  "extractTargetVersion targetID =
    (let parts = split_on (CHR ''-'') targetID
     in if length parts < 2 then Inl (ErrorString ''invalid target ID format'')
        else case atoi (parts ! (length parts - 1)) of
          (_, Some err) \<Rightarrow> Inl (errorf ''invalid version in target ID'' (ErrorString ''strconv.Atoi''))
        | (version, None) \<Rightarrow> Inr version)"

fun parseAppURIs :: "'w env \<Rightarrow> string list \<Rightarrow> app list \<Rightarrow> app list result" where
  "parseAppURIs E [] apps = Inr apps"
| "parseAppURIs E (uri # uris) apps =
     (case x_ParseAppRef E uri of
        Inl err \<Rightarrow> Inl (errorf (''failed to parse app URI '' @ json_quote uri) err)
      | Inr ref \<Rightarrow> parseAppURIs E uris (apps @ [\<lparr>aName = r_Name ref, aURI = r_String ref\<rparr>]))"

definition uri_list :: "string list option \<Rightarrow> string list" where
  "uri_list us = (case us of None \<Rightarrow> [] | Some xs \<Rightarrow> xs)"

definition getTargetOutOfUpdate :: "'w env \<Rightarrow> update_rec \<Rightarrow> target result" where
  "getTargetOutOfUpdate E s =
    (case extractTargetVersion (u_ClientRef s) of
       Inl err \<Rightarrow> Inl (errorf ''failed to extract target version from last successful update ClientRef'' err)
     | Inr version \<Rightarrow>
         (case parseAppURIs E (uri_list (u_URIs s)) [] of
            Inl err \<Rightarrow> Inl (errorf ''failed to parse app URIs from last successful update'' err)
          | Inr apps \<Rightarrow> Inr \<lparr>tID = u_ClientRef s, tVersion = version, tApps = apps\<rparr>))"

definition getAndSetCurrentTarget :: "'w env \<Rightarrow> 'w \<Rightarrow> update_ctx \<Rightarrow> goerr option \<times> update_ctx" where
  "getAndSetCurrentTarget E w u =
    (let u = u\<lparr>FromTarget := UnknownTarget\<rparr>
     in case x_GetLastSuccessfulUpdate E w of
          Inl err \<Rightarrow> (Some (errorf ''no last successful update found'' err), u)
        | Inr lastUpdate \<Rightarrow>
            (let t = GetTargetByID (Targets u) (u_ClientRef lastUpdate)
             in if \<not> IsUnknown t then (None, u\<lparr>FromTarget := ShortlistAppsByURI (u_URIs lastUpdate) t\<rparr>)
                else case getTargetOutOfUpdate E lastUpdate of
                  Inr t \<Rightarrow> (None, u\<lparr>FromTarget := t\<rparr>)
                | Inl err \<Rightarrow>
                    (Some (errorf ''failed to compose current target from last successful update'' err), u)))"

definition getOngoingUpdateTarget :: "'w env \<Rightarrow> runner \<Rightarrow> 'w \<Rightarrow> update_ctx \<Rightarrow> target result" where
  "getOngoingUpdateTarget E r w u =
    (let ongoing = x_Status E r w;
         t = GetTargetByID (Targets u) (u_ClientRef ongoing)
     in if \<not> IsUnknown t then Inr (ShortlistAppsByURI (u_URIs ongoing) t)
        else case getTargetOutOfUpdate E ongoing of
          Inl err \<Rightarrow> Inl (errorf ''failed to compose ongoing update target from ongoing update'' err)
        | Inr t \<Rightarrow> Inr t)"

section \<open>Selecting the target to go to\<close>

record check =
  UpdateTargets :: bool
  AllowNewUpdate :: bool
  Force :: bool
  Action :: string
  AllowedStates :: "upd_state list"
  ToVersion :: int
  SyncCurrent :: bool
  MaxAttempts :: int
  RequireLatest :: bool
  EnableTUF :: bool

definition getSyncTarget :: "update_ctx \<Rightarrow> target" where
  "getSyncTarget u =
    (let t = GetTargetByVersion (Targets u) (tVersion (FromTarget u))
     in if tID t \<noteq> tID UnknownTarget then t else FromTarget u)"

text \<open>The attempts made so far may turn the latest target down in favour of the current one.\<close>

definition limit_attempts :: "'w env \<Rightarrow> check \<Rightarrow> 'w \<Rightarrow> update_ctx \<Rightarrow> update_ctx" where
  "limit_attempts E s w u =
    (if MaxAttempts s > 0 then
       (case x_CountFailedUpdates E (tID (ToTarget u)) w of
          Inl err \<Rightarrow> u
        | Inr n \<Rightarrow> if n \<ge> MaxAttempts s then u\<lparr>ToTarget := getSyncTarget u\<rparr> else u)
     else u)"

definition selectToTarget ::
  "'w env \<Rightarrow> check \<Rightarrow> 'w \<Rightarrow> update_ctx \<Rightarrow> goerr option outcome \<times> update_ctx" where
  "selectToTarget E s w u =
    (if Mode u = UpdateModeResume then
       (case UpdateRunner u of
          None \<Rightarrow> (Panicked, u)
        | Some r \<Rightarrow>
            (case getOngoingUpdateTarget E r w u of
               Inl err \<Rightarrow> (Ret (Some (errorf2 ErrInvalidOngoingUpdate err)), u)
             | Inr t \<Rightarrow>
                 (let u = u\<lparr>ToTarget := t\<rparr>
                  in if ToVersion s \<noteq> -1 then
                       (if tVersion (ToTarget u) \<noteq> ToVersion s
                        then (Ret (Some (errorf_msg ErrInvalidActionForState
                                (''cannot start or resume update to version '' @ itoa (ToVersion s)
                                 @ '' since there is an ongoing update to version '' @ itoa (tVersion (ToTarget u))))), u)
                        else (Ret None, u))
                     else if RequireLatest s then
                       (if tID (GetLatestTarget E w (Targets u)) \<noteq> tID (ToTarget u)
                        then (Ret (Some (Sentinel ErrNewerVersionIsAvailable)), u)
                        else (Ret None, u))
                     else (Ret None, u))))
     else if ToVersion s = -1 then
       (if SyncCurrent s then
          (let u = u\<lparr>ToTarget := getSyncTarget u\<rparr>
           in if tID (ToTarget u) = tID UnknownTarget
              then (Ret (Some (errorf_msg ErrTargetNotFound ''could not find current target to be synced'')), u)
              else (Ret None, limit_attempts E s w u))
        else
          (let u = u\<lparr>ToTarget := GetLatestTarget E w (Targets u)\<rparr>
           in if tID (ToTarget u) = tID UnknownTarget
              then (Ret (Some (errorf_msg ErrTargetNotFound ''could not find latest target'')), u)
              else (Ret None, limit_attempts E s w u)))
     else
       (let u = u\<lparr>ToTarget := GetTargetByVersion (Targets u) (ToVersion s)\<rparr>
        in if tID (ToTarget u) = tID UnknownTarget
           then (Ret (Some (errorf_msg ErrTargetNotFound (''could not find target with version '' @ itoa (ToVersion s)))), u)
           else (Ret None, u)))"

section \<open>Is there anything to do?\<close>

definition checkAppDiff :: "update_ctx \<Rightarrow> bool" where
  "checkAppDiff u \<longleftrightarrow> dAdd (AppDiff u) \<noteq> [] \<or> dRemove (AppDiff u) \<noteq> [] \<or> dUpdate (AppDiff u) \<noteq> []"

fun all_running :: "current_status \<Rightarrow> string list \<Rightarrow> bool" where
  "all_running cs [] = True"
| "all_running cs (uri # uris) =
     (case map_of (cs_AppStatuses cs) uri of
        None \<Rightarrow> False
      | Some st \<Rightarrow>
          if \<not> ap_Fetched st then False
          else if \<not> ap_Installed st then False
          else if \<not> ap_Running st then False
          else all_running cs uris)"

definition isTargetInSync :: "'w env \<Rightarrow> 'w \<Rightarrow> update_ctx \<Rightarrow> bool result \<times> update_ctx" where
  "isTargetInSync E w u =
    (let hasAppListChanged = checkAppDiff u
     in if hasAppListChanged \<and> length (dSync (AppDiff u)) = 0 then (Inr False, u)
        else case GetCurrentStatus E w of
          Inl err \<Rightarrow> (Inl (errorf ''error checking apps status'' err), u\<lparr>CurrentStatus := None\<rparr>)
        | Inr cs \<Rightarrow>
            (let u = u\<lparr>CurrentStatus := Some cs\<rparr>
             in if hasAppListChanged then (Inr False, u)
                else (Inr (all_running cs (AppURIs (ToTarget u))), u)))"

definition isUpdateRequired :: "'w env \<Rightarrow> 'w \<Rightarrow> update_ctx \<Rightarrow> bool \<times> update_ctx" where
  "isUpdateRequired E w u =
    (if Type u \<noteq> UpdateTypeSync \<or> Mode u \<noteq> UpdateModeNewUpdate then (True, u)
     else case isTargetInSync E w u of
       (Inl err, u) \<Rightarrow> (True, u)
     | (Inr running, u) \<Rightarrow> (\<not> running, u))"

section \<open>The event of the metadata update\<close>

definition metadata_details :: "int \<Rightarrow> int \<Rightarrow> goerr option \<Rightarrow> json" where
  "metadata_details cur new e =
    (case e of
       Some err \<Rightarrow> JObj [(''current_version'', jint cur), (''error'', JStr (err_text err))]
     | None \<Rightarrow>
         if new \<noteq> -1 then JObj [(''from_version'', jint cur), (''to_version'', jint new)] else JNull)"

definition sendMetadataUpdateCompletedEvent ::
  "'w env \<Rightarrow> int \<Rightarrow> int \<Rightarrow> goerr option \<Rightarrow> update_ctx \<Rightarrow> 'w host \<Rightarrow> 'w host" where
  "sendMetadataUpdateCompletedEvent E cur new e u h =
    (case x_ulid E (ext h) of
       (Inl err, w) \<Rightarrow> h\<lparr>ext := w\<rparr>
     | (Inr i, w) \<Rightarrow>
         snd (EnqueueEvent E MetadataUpdateCompleted (''meta-'' @ i) (ToTarget u)
           [WithEventStatus (e = None), WithEventDetails (json_compact (metadata_details cur new e))]
           (h\<lparr>ext := w\<rparr>)))"

section \<open>The check\<close>

definition new_repo :: "'w env \<Rightarrow> check \<Rightarrow> update_ctx \<Rightarrow> 'w \<Rightarrow> repo result" where
  "new_repo E s u w =
    (if EnableTUF s then
       (case NewTufRepo E w (GetHardwareID (Config u)) of Inl err \<Rightarrow> Inl err | Inr r \<Rightarrow> Inr (TufRepo r))
     else Inr (PlainRepo (NewPlainRepo (GetTargetsFilepath (Config u)) (GetHardwareID (Config u)))))"

text \<open>
  Loading the targets: the result is what the function returns early, if it does, with the error
  variable that the deferred call sees, the targets, and the old and the new version.
\<close>

definition load_targets ::
  "'w env \<Rightarrow> check \<Rightarrow> gw_client \<Rightarrow> repo \<Rightarrow> 'w host
   \<Rightarrow> (goerr option \<times> goerr option) \<times> targets \<times> int \<times> int \<times> 'w host" where
  "load_targets E s c repo h =
    (let (res, repo, h) = LoadTargets E c False repo h;
         (ts, cur, err) = (case res of Inr (ts, v) \<Rightarrow> (ts, v, None) | Inl e \<Rightarrow> ([], -1, Some e))
     in case err of
          Some e \<Rightarrow>
            if \<not> errors_is e ErrNotExist
            then ((Some (errorf2 ErrMetaUpdateFailed e), Some e), ts, cur, -1, h)
            else if UpdateTargets s then
              (case LoadTargets E c True repo h of
                 (Inl e, repo, h) \<Rightarrow> ((Some (errorf2 ErrMetaUpdateFailed e), Some e), [], cur, -1, h)
               | (Inr (ts, v), repo, h) \<Rightarrow> ((None, None), ts, cur, v, h))
            else ((None, Some e), ts, cur, -1, h)
        | None \<Rightarrow>
            if UpdateTargets s then
              (case LoadTargets E c True repo h of
                 (Inl e, repo, h) \<Rightarrow> ((Some (errorf2 ErrMetaUpdateFailed e), Some e), [], cur, -1, h)
               | (Inr (ts, v), repo, h) \<Rightarrow> ((None, None), ts, cur, v, h))
            else ((None, None), ts, cur, -1, h))"

text \<open>
  From the loaded targets to the decision. The second error is the variable \<open>err\<close> at the return,
  which the deferred call looks at: the answer \<open>ErrCheckNoUpdate\<close> does not go through it.
\<close>

definition decide ::
  "'w env \<Rightarrow> check \<Rightarrow> 'w \<Rightarrow> update_ctx \<Rightarrow> goerr option outcome \<times> goerr option \<times> update_ctx" where
  "decide E s w u =
    (let (err, u) = getAndSetCurrentTarget E w u;
         u = (if err = None
              then u\<lparr>Client := UpdateHeaders (AppNames (FromTarget u)) (tID (FromTarget u)) (Client u)\<rparr> else u)
     in case selectToTarget E s w u of
          (Panicked, u) \<Rightarrow> (Panicked, err, u)
        | (Ret (Some e), u) \<Rightarrow> (Ret (Some e), Some e, u)
        | (Ret None, u) \<Rightarrow>
            (let u = u\<lparr>ToTarget := ShortlistApps (GetEnabledApps (Config u)) (ToTarget u)\<rparr>;
                 u = u\<lparr>Type := (if tID (ToTarget u) = tID (FromTarget u) then UpdateTypeSync else UpdateTypeUpdate)\<rparr>;
                 u = u\<lparr>AppDiff := Diff E w (FromTarget u) (ToTarget u)\<rparr>;
                 u = (case UpdateRunner u of
                        None \<Rightarrow> u | Some r \<Rightarrow> u\<lparr>InitializedAt := u_InitTime (x_Status E r w)\<rparr>)
             in if Force s then (Ret None, None, u)
                else (let (required, u) = isUpdateRequired E w u
                      in if \<not> required then (Ret (Some (Sentinel ErrCheckNoUpdate)), None, u)
                         else (Ret None, None, u))))"

text \<open>The deferred function; in a panic \<open>err\<close> is what it was before.\<close>

definition deferred ::
  "'w env \<Rightarrow> int \<Rightarrow> int \<Rightarrow> goerr option \<Rightarrow> update_ctx \<Rightarrow> 'w host \<Rightarrow> 'w host" where
  "deferred E cur new err u h =
    (if err \<noteq> None \<or> new \<noteq> -1 \<and> new \<noteq> cur
     then sendMetadataUpdateCompletedEvent E cur new err u h else h)"

definition quoted :: "string \<Rightarrow> string" where
  "quoted s = json_quote s"

definition check_targets :: "'w env \<Rightarrow> check \<Rightarrow> 'w step" where
  "check_targets E s u h =
    (case new_repo E s u (ext h) of
       Inl e \<Rightarrow> (Ret (Some (errorf2 ErrMetaUpdateFailed e)), u, h)
     | Inr repo \<Rightarrow>
         (let ((early, err), ts, cur, new, h) = load_targets E s (Client u) repo h
          in case early of
               Some e \<Rightarrow> (Ret (Some e), u, deferred E cur new err u h)
             | None \<Rightarrow>
                 (let (out, err, u) = decide E s (ext h) (u\<lparr>Targets := ts\<rparr>)
                  in (out, u, deferred E cur new err u h))))"

definition Check_Execute :: "'w env \<Rightarrow> check \<Rightarrow> 'w step" where
  "Check_Execute E s u h =
    (let u = u\<lparr>IsForcedUpdate := Force s\<rparr>
     in case x_GetCurrentUpdate E (ext h) of
          Inl e \<Rightarrow>
            (let u = u\<lparr>UpdateRunner := None\<rparr>
             in if errors_is e ErrUpdateNotFound then
                  (if \<not> AllowNewUpdate s then
                     (Ret (Some (errorf_msg ErrNoUpdateInProgress
                        (''no update in progress to '' @ Action s @ ''; please run '' @ quoted ''fioup update''
                         @ '' or '' @ quoted ''fioup fetch'' @ '' first''))), u, h)
                   else
                     (let u = u\<lparr>Mode := UpdateModeNewUpdate\<rparr>
                      in if AllowedStates s \<noteq> [] then (Panicked, u, h) else check_targets E s u h))
                else (Ret (Some (errorf ''failed to get info about current update'' e)),
                      u\<lparr>Mode := UpdateModeResume\<rparr>, h))
        | Inr r \<Rightarrow>
            (let u = u\<lparr>UpdateRunner := Some r, Mode := UpdateModeResume\<rparr>;
                 currentState = u_State (x_Status E r (ext h))
             in if AllowedStates s \<noteq> [] \<and> \<not> is_one_of currentState (AllowedStates s) then
                  (Ret (Some (errorf_msg ErrInvalidActionForState
                     (''cannot '' @ Action s @ '' current update if it is in state ''
                      @ quoted (x_StateString E currentState)))), u, h)
                else check_targets E s u h))"

section \<open>The check keeps to the protocol\<close>

lemma deferred_in_order: "in_order 0 1 h (deferred E cur new err u h)"
proof -
  have "in_order 0 1 h (snd (EnqueueEvent E MetadataUpdateCompleted i t opts (h\<lparr>ext := w\<rparr>)))" for i t opts w
    by (cases "EnqueueEvent E MetadataUpdateCompleted i t opts (h\<lparr>ext := w\<rparr>)")
      (auto dest: EnqueueEvent_sends)
  then show ?thesis
    by (auto simp: deferred_def sendMetadataUpdateCompletedEvent_def split: prod.splits sum.splits)
qed

lemma load_targets_tables:
  "load_targets E s c repo h = (r, ts, cur, new, h') \<Longrightarrow>
     report_events h' = report_events h \<and> installed_versions h' = installed_versions h"
  by (auto simp: load_targets_def Let_def split: prod.splits sum.splits option.splits if_splits
      dest!: any_repo.same_tables)

text \<open>What the single operations of the check leave in the context.\<close>

lemma getAndSetCurrentTarget_sel:
  assumes "getAndSetCurrentTarget E w u = (e, u')"
  shows "Config u' = Config u \<and> Targets u' = Targets u \<and> Mode u' = Mode u \<and> UpdateRunner u' = UpdateRunner u
    \<and> IsForcedUpdate u' = IsForcedUpdate u"
  using assms by (auto simp: getAndSetCurrentTarget_def Let_def split: sum.splits if_splits)

lemma limit_attempts_sel:
  "Config (limit_attempts E s w u) = Config u" "Targets (limit_attempts E s w u) = Targets u"
  "Mode (limit_attempts E s w u) = Mode u" "UpdateRunner (limit_attempts E s w u) = UpdateRunner u"
  "IsForcedUpdate (limit_attempts E s w u) = IsForcedUpdate u"
  "FromTarget (limit_attempts E s w u) = FromTarget u"
  by (auto simp: limit_attempts_def split: sum.splits)

lemma selectToTarget_sel:
  assumes "selectToTarget E s w u = (out, u')"
  shows "Config u' = Config u \<and> Targets u' = Targets u \<and> Mode u' = Mode u \<and> UpdateRunner u' = UpdateRunner u
    \<and> IsForcedUpdate u' = IsForcedUpdate u \<and> FromTarget u' = FromTarget u"
  using assms
  by (auto simp: selectToTarget_def Let_def limit_attempts_sel split: sum.splits option.splits if_splits)

lemma status_unchanged: "\<exists>c. u = u\<lparr>CurrentStatus := c\<rparr>"
  by (rule exI [of _ "CurrentStatus u"]) simp

lemma isUpdateRequired_sel:
  assumes "isUpdateRequired E w u = (b, u')"
  shows "\<exists>c. u' = u\<lparr>CurrentStatus := c\<rparr>"
  using assms status_unchanged [of u]
  by (auto simp: isUpdateRequired_def isTargetInSync_def Let_def split: sum.splits prod.splits if_splits)

text \<open>The context that \<open>decide\<close> compares and looks at, once a target has been selected.\<close>

definition compared :: "'w env \<Rightarrow> 'w \<Rightarrow> update_ctx \<Rightarrow> update_ctx" where
  "compared E w u =
    (let u = u\<lparr>ToTarget := ShortlistApps (GetEnabledApps (Config u)) (ToTarget u)\<rparr>;
         u = u\<lparr>Type := (if tID (ToTarget u) = tID (FromTarget u) then UpdateTypeSync else UpdateTypeUpdate)\<rparr>;
         u = u\<lparr>AppDiff := Diff E w (FromTarget u) (ToTarget u)\<rparr>
     in case UpdateRunner u of None \<Rightarrow> u | Some r \<Rightarrow> u\<lparr>InitializedAt := u_InitTime (x_Status E r w)\<rparr>)"

lemma compared_sel:
  "Config (compared E w u) = Config u" "Targets (compared E w u) = Targets u" "Mode (compared E w u) = Mode u"
  "UpdateRunner (compared E w u) = UpdateRunner u" "IsForcedUpdate (compared E w u) = IsForcedUpdate u"
  "FromTarget (compared E w u) = FromTarget u"
  "ToTarget (compared E w u) = ShortlistApps (GetEnabledApps (Config u)) (ToTarget u)"
  "Type (compared E w u) = (if tID (ToTarget u) = tID (FromTarget u) then UpdateTypeSync else UpdateTypeUpdate)"
  "AppDiff (compared E w u) = Diff E w (FromTarget u) (ShortlistApps (GetEnabledApps (Config u)) (ToTarget u))"
  by (auto simp: compared_def Let_def split: option.splits)

definition with_current :: "'w env \<Rightarrow> 'w \<Rightarrow> update_ctx \<Rightarrow> goerr option \<times> update_ctx" where
  "with_current E w u =
    (let (err, u) = getAndSetCurrentTarget E w u
     in (err, if err = None
              then u\<lparr>Client := UpdateHeaders (AppNames (FromTarget u)) (tID (FromTarget u)) (Client u)\<rparr> else u))"

lemma with_current_sel:
  assumes "with_current E w u = (e, u')"
  shows "Config u' = Config u \<and> Targets u' = Targets u \<and> Mode u' = Mode u \<and> UpdateRunner u' = UpdateRunner u
    \<and> IsForcedUpdate u' = IsForcedUpdate u"
  using assms by (auto simp: with_current_def split: prod.splits if_splits dest!: getAndSetCurrentTarget_sel)

lemma decide_alt:
  "decide E s w u =
    (let (err, u) = with_current E w u
     in case selectToTarget E s w u of
          (Panicked, u) \<Rightarrow> (Panicked, err, u)
        | (Ret (Some e), u) \<Rightarrow> (Ret (Some e), Some e, u)
        | (Ret None, u) \<Rightarrow>
            if Force s then (Ret None, None, compared E w u)
            else (let (required, u) = isUpdateRequired E w (compared E w u)
                  in if \<not> required then (Ret (Some (Sentinel ErrCheckNoUpdate)), None, u) else (Ret None, None, u)))"
  unfolding decide_def with_current_def compared_def Let_def by (simp only: case_prod_beta fst_conv snd_conv)

text \<open>The ways in which a decision comes out.\<close>

lemma decide_cases:
  assumes "decide E s w u = (out, err, u')"
  obtains (panic) "out = Panicked" "Config u' = Config u"
  | (selection) e where "out = Ret (Some e)" "err = Some e" "Config u' = Config u"
      "e \<noteq> Sentinel ErrCheckNoUpdate"
  | (proceeds) e1 u1 u2 c where "with_current E w u = (e1, u1)" "selectToTarget E s w u1 = (Ret None, u2)"
      "out = Ret None" "err = None" "u' = (compared E w u2)\<lparr>CurrentStatus := c\<rparr>"
  | (running) e1 u1 u2 where "with_current E w u = (e1, u1)" "selectToTarget E s w u1 = (Ret None, u2)"
      "out = Ret (Some (Sentinel ErrCheckNoUpdate))" "err = None" "\<not> Force s"
      "isUpdateRequired E w (compared E w u2) = (False, u')"
proof -
  obtain e1 u1 where c: "with_current E w u = (e1, u1)" by fastforce
  obtain sel u2 where sel: "selectToTarget E s w u1 = (sel, u2)" by fastforce
  note cfg = with_current_sel [OF c] selectToTarget_sel [OF sel]
  show thesis
  proof (cases sel)
    case Panicked
    with assms c sel cfg panic show thesis by (auto simp: decide_alt)
  next
    case (Ret r)
    show thesis
    proof (cases r)
      case (Some e)
      have "e \<noteq> Sentinel ErrCheckNoUpdate"
        using sel Ret Some
        by (auto simp: selectToTarget_def Let_def errorf2_def errorf_msg_def split: sum.splits option.splits if_splits)
      with assms c sel Ret Some cfg selection show thesis by (auto simp: decide_alt)
    next
      case None
      obtain b u3 where q: "isUpdateRequired E w (compared E w u2) = (b, u3)" by fastforce
      show thesis
      proof (cases "Force s")
        case True
        then show thesis using assms c sel Ret None
          by (intro proceeds [of e1 u1 u2 "CurrentStatus (compared E w u2)"]) (auto simp: decide_alt)
      next
        case False
        show thesis
        proof (cases b)
          case True
          obtain cs where "u3 = (compared E w u2)\<lparr>CurrentStatus := cs\<rparr>"
            using isUpdateRequired_sel [OF q] by blast
          then show thesis using assms c sel Ret None False q True
            by (intro proceeds [of e1 u1 u2 cs]) (auto simp: decide_alt)
        next
          case False
          then show thesis using assms c sel Ret None \<open>\<not> Force s\<close> q
            by (intro running [of e1 u1 u2]) (auto simp: decide_alt)
        qed
      qed
    qed
  qed
qed

lemma decide_config:
  assumes "decide E s w u = (out, err, u')"
  shows "Config u' = Config u"
  using assms
proof (cases rule: decide_cases)
  case (proceeds e1 u1 u2 c)
  then show ?thesis using with_current_sel [OF proceeds(1)] selectToTarget_sel [OF proceeds(2)]
    by (simp add: compared_sel)
next
  case (running e1 u1 u2)
  obtain c where "u' = (compared E w u2)\<lparr>CurrentStatus := c\<rparr>" using isUpdateRequired_sel [OF running(6)] by blast
  then show ?thesis using with_current_sel [OF running(1)] selectToTarget_sel [OF running(2)]
    by (simp add: compared_sel)
qed simp_all

lemma check_targets_in_order:
  assumes "check_targets E s u h = (out, u', h')"
  shows "in_order 0 1 h h' \<and> Config u' = Config u"
proof (cases "new_repo E s u (ext h)")
  case (Inl e)
  with assms show ?thesis by (simp add: check_targets_def)
next
  case (Inr repo)
  obtain early err ts cur new h1 where l: "load_targets E s (Client u) repo h = ((early, err), ts, cur, new, h1)"
    by (metis prod_cases5 prod.collapse)
  have start: "in_order 0 1 h1 x = in_order 0 1 h x" for x
    using load_targets_tables [OF l] by (intro in_order_start) simp
  show ?thesis
  proof (cases early)
    case (Some e)
    then have "u' = u \<and> h' = deferred E cur new err u h1" using assms Inr l by (auto simp: check_targets_def)
    with deferred_in_order show ?thesis by (metis start)
  next
    case None
    obtain o1 e1 u1 where d: "decide E s (ext h1) (u\<lparr>Targets := ts\<rparr>) = (o1, e1, u1)" by (metis prod_cases3)
    then have "u' = u1 \<and> h' = deferred E cur new e1 u1 h1" using assms Inr l None by (auto simp: check_targets_def)
    moreover have "in_order 0 1 h (deferred E cur new e1 u1 h1)" using deferred_in_order by (metis start)
    ultimately show ?thesis using decide_config [OF d] by simp
  qed
qed

lemma Check_in_order:
  assumes "Check_Execute E s u h = (out, u', h')"
  shows "in_order 0 1 h h' \<and> Config u' = Config u"
  using assms
  by (auto simp: Check_Execute_def Let_def split: sum.splits if_splits dest!: check_targets_in_order)

interpretation check: action_state "Check_Execute E s" 0 1
proof
  fix u h out u' h'
  assume "Check_Execute E s u h = (out, u', h')"
  from Check_in_order [OF this] show "in_order 0 8 h h'" by (auto elim: in_order_mono)
qed (auto dest: Check_in_order)

section \<open>Lemmas on the selection\<close>

lemma all_running_iff:
  "all_running cs uris \<longleftrightarrow>
     (\<forall>uri \<in> set uris. \<exists>st. map_of (cs_AppStatuses cs) uri = Some st \<and> ap_Fetched st \<and> ap_Installed st \<and> ap_Running st)"
  by (induction cs uris rule: all_running.induct) (auto split: option.splits)

lemma getOngoingUpdateTarget_ID:
  assumes "getOngoingUpdateTarget E r w u = Inr t"
  shows "tID t = u_ClientRef (x_Status E r w)"
proof -
  let ?ref = "u_ClientRef (x_Status E r w)"
  have known: "tID (GetTargetByID (Targets u) ?ref) = ?ref" if "\<not> IsUnknown (GetTargetByID (Targets u) ?ref)"
    using that by (cases rule: GetTargetByID_cases [of "Targets u" ?ref]) (auto simp: IsUnknown_def)
  show ?thesis
    using assms known
    by (auto simp: getOngoingUpdateTarget_def getTargetOutOfUpdate_def Let_def split: if_splits sum.splits)
qed

text \<open>What is selected when the selection succeeds.\<close>

definition selected :: "'w env \<Rightarrow> check \<Rightarrow> 'w \<Rightarrow> update_ctx \<Rightarrow> target \<Rightarrow> bool" where
  "selected E s w u t \<longleftrightarrow>
    (case (Mode u, UpdateRunner u) of
       (UpdateModeResume, Some r) \<Rightarrow>
         tID t = u_ClientRef (x_Status E r w) \<and> (ToVersion s \<noteq> -1 \<longrightarrow> tVersion t = ToVersion s)
         \<and> (ToVersion s = -1 \<and> RequireLatest s \<longrightarrow> tID t = tID (GetLatestTarget E w (Targets u)))
     | _ \<Rightarrow>
         (ToVersion s \<noteq> -1 \<longrightarrow> t \<in> set (Targets u) \<and> tVersion t = ToVersion s \<and> tID t \<noteq> ''unknown'')
         \<and> (ToVersion s = -1 \<and> \<not> SyncCurrent s \<and> MaxAttempts s \<le> 0 \<longrightarrow>
              t = GetLatestTarget E w (Targets u) \<and> tID t \<noteq> ''unknown'')
         \<and> (ToVersion s = -1 \<and> SyncCurrent s \<longrightarrow> t = getSyncTarget u))"

lemma limit_attempts_off: "MaxAttempts s \<le> 0 \<Longrightarrow> limit_attempts E s w u = u"
  by (simp add: limit_attempts_def)

lemma limit_attempts_sync:
  "ToTarget u = getSyncTarget u \<Longrightarrow> ToTarget (limit_attempts E s w u) = getSyncTarget u"
  by (auto simp: limit_attempts_def split: sum.splits)

lemma selectToTarget_selected:
  assumes "selectToTarget E s w u = (Ret None, u')" and "Mode u = UpdateModeResume \<longrightarrow> UpdateRunner u \<noteq> None"
  shows "selected E s w u (ToTarget u')"
proof (cases "Mode u = UpdateModeResume")
  case True
  with assms(2) obtain r where r: "UpdateRunner u = Some r" by blast
  with True assms(1) obtain t where t: "getOngoingUpdateTarget E r w u = Inr t"
    by (auto simp: selectToTarget_def split: sum.splits)
  with True assms(1) r getOngoingUpdateTarget_ID [OF t] show ?thesis
    by (auto simp: selected_def selectToTarget_def Let_def split: if_splits)
next
  case False
  show ?thesis
  proof (cases "ToVersion s = -1")
    case v: True
    have sync: "getSyncTarget (u\<lparr>ToTarget := t\<rparr>) = getSyncTarget u" for t by (simp add: getSyncTarget_def Let_def)
    show ?thesis
    proof (cases "SyncCurrent s")
      case True
      with assms(1) False v have "u' = limit_attempts E s w (u\<lparr>ToTarget := getSyncTarget u\<rparr>)"
        by (auto simp: selectToTarget_def Let_def split: if_splits)
      then have "ToTarget u' = getSyncTarget u"
        using limit_attempts_sync [of "u\<lparr>ToTarget := getSyncTarget u\<rparr>" E s w] by (simp add: sync)
      with True v False show ?thesis by (cases "Mode u") (auto simp: selected_def)
    next
      case False
      with assms(1) \<open>Mode u \<noteq> UpdateModeResume\<close> v show ?thesis
        by (cases "Mode u")
          (auto simp: selected_def selectToTarget_def Let_def limit_attempts_off UnknownTarget_def split: if_splits)
    qed
  next
    case nv: False
    show ?thesis
      by (cases rule: GetTargetByVersion_cases [of "Targets u" "ToVersion s"])
        (use assms(1) False nv in \<open>cases "Mode u"; auto simp: selected_def selectToTarget_def Let_def UnknownTarget_def split: if_splits\<close>)+
  qed
qed

text \<open>A check that succeeds, or finds nothing to do, has come to a decision.\<close>

lemma check_targets_decides:
  assumes "check_targets E s u h = (out, u', h')"
    and "out = Ret None \<or> out = Ret (Some (Sentinel ErrCheckNoUpdate))"
  shows "\<exists>w ts err. decide E s w (u\<lparr>Targets := ts\<rparr>) = (out, err, u')"
proof (cases "new_repo E s u (ext h)")
  case (Inl e)
  with assms show ?thesis by (auto simp: check_targets_def errorf2_def)
next
  case (Inr repo)
  obtain early err ts cur new h1 where l: "load_targets E s (Client u) repo h = ((early, err), ts, cur, new, h1)"
    by (metis prod_cases5 prod.collapse)
  show ?thesis
  proof (cases early)
    case (Some e)
    have "\<exists>x. e = errorf2 ErrMetaUpdateFailed x"
      using l Some by (auto simp: load_targets_def Let_def split: prod.splits sum.splits option.splits if_splits)
    with assms Inr l Some show ?thesis by (auto simp: check_targets_def errorf2_def)
  next
    case None
    obtain o1 e1 u1 where d: "decide E s (ext h1) (u\<lparr>Targets := ts\<rparr>) = (o1, e1, u1)" by (metis prod_cases3)
    with assms(1) Inr l None have "o1 = out \<and> u1 = u'" by (simp add: check_targets_def)
    with d show ?thesis by blast
  qed
qed

lemma Check_decides:
  assumes "Check_Execute E s u h = (out, u', h')"
    and "out = Ret None \<or> out = Ret (Some (Sentinel ErrCheckNoUpdate))"
  shows "\<exists>w u0 err. decide E s w u0 = (out, err, u') \<and> Config u0 = Config u
    \<and> (case x_GetCurrentUpdate E (ext h) of
         Inr r \<Rightarrow> Mode u0 = UpdateModeResume \<and> UpdateRunner u0 = Some r
       | Inl e \<Rightarrow> errors_is e ErrUpdateNotFound \<and> AllowNewUpdate s \<and> Mode u0 = UpdateModeNewUpdate
           \<and> UpdateRunner u0 = None)"
proof (cases "x_GetCurrentUpdate E (ext h)")
  case (Inl e)
  let ?u = "u\<lparr>IsForcedUpdate := Force s, UpdateRunner := None, Mode := UpdateModeNewUpdate\<rparr>"
  have c: "errors_is e ErrUpdateNotFound" "AllowNewUpdate s" "check_targets E s ?u h = (out, u', h')"
    using assms Inl by (auto simp: Check_Execute_def Let_def errorf_msg_def errorf_def split: if_splits)
  from check_targets_decides [OF c(3) assms(2)] obtain w ts err where
    d: "decide E s w (?u\<lparr>Targets := ts\<rparr>) = (out, err, u')" by blast
  show ?thesis
    by (rule exI [of _ w], rule exI [of _ "?u\<lparr>Targets := ts\<rparr>"], rule exI [of _ err]) (use d c Inl in simp)
next
  case (Inr r)
  let ?u = "u\<lparr>IsForcedUpdate := Force s, UpdateRunner := Some r, Mode := UpdateModeResume\<rparr>"
  have c: "check_targets E s ?u h = (out, u', h')"
    using assms Inr by (auto simp: Check_Execute_def errorf_msg_def Let_def split: if_splits)
  from check_targets_decides [OF c assms(2)] obtain w ts err where
    d: "decide E s w (?u\<lparr>Targets := ts\<rparr>) = (out, err, u')" by blast
  show ?thesis
    by (rule exI [of _ w], rule exI [of _ "?u\<lparr>Targets := ts\<rparr>"], rule exI [of _ err]) (use d Inr in simp)
qed

section \<open>Lemmas on the event of the metadata update\<close>

lemma EnqueueEvent_adds:
  assumes "queue_ok h" and "EnqueueEvent E t i tgt opts h = (e, h')"
  shows "\<exists>evs. queued h' = queued h @ evs \<and> length evs \<le> 1 \<and> (\<forall>ev \<in> set evs.
    et_Id (ev_EventType ev) = event_id t \<and> TargetName (ev_Event ev) = tID tgt
    \<and> Success (ev_Event ev) = o_Success (fold (\<lambda>f x. f x) opts \<lparr>o_Success = None, o_Details = ''''\<rparr>))"
proof -
  obtain uuid w where u: "x_uuid E (ext h) = (uuid, w)" by fastforce
  let ?ev = "new_event t i tgt (fold (\<lambda>f x. f x) opts \<lparr>o_Success = None, o_Details = ''''\<rparr>) uuid (x_now E w)"
  obtain e1 h1 where s: "SaveEvent E ?ev (h\<lparr>ext := w\<rparr>) = (e1, h1)" by fastforce
  have "h' = h1" using assms(2) u s by (auto simp: EnqueueEvent_def split: option.splits)
  moreover have "queued h1 = (if e1 = None then queued h @ [?ev] else queued h)"
    using SaveEvent_queue [OF _ good_new_event s] assms(1) by (simp add: queue_ok_def queued_def)
  ultimately show ?thesis
    by (intro exI [of _ "if e1 = None then [?ev] else []"]) (simp add: new_event_def)
qed

lemma deferred_adds:
  assumes "queue_ok h"
  shows "\<exists>evs. queued (deferred E cur new err u h) = queued h @ evs \<and> length evs \<le> 1
    \<and> (\<forall>ev \<in> set evs. et_Id (ev_EventType ev) = event_id MetadataUpdateCompleted
         \<and> TargetName (ev_Event ev) = tID (ToTarget u) \<and> Success (ev_Event ev) = Some (err = None))
    \<and> (err = None \<and> (new = -1 \<or> new = cur) \<longrightarrow> evs = [])"
proof (cases "err \<noteq> None \<or> new \<noteq> -1 \<and> new \<noteq> cur")
  case False
  then show ?thesis by (auto simp: deferred_def)
next
  case True
  show ?thesis
  proof (cases "x_ulid E (ext h)")
    case (Pair i w)
    have q: "queue_ok (h\<lparr>ext := w\<rparr>)" "queued (h\<lparr>ext := w\<rparr>) = queued h"
      using assms by (simp_all add: queue_ok_def queued_def)
    show ?thesis
    proof (cases i)
      case (Inl x)
      with True Pair q show ?thesis by (auto simp: deferred_def sendMetadataUpdateCompletedEvent_def)
    next
      case (Inr n)
      obtain e h' where enq: "EnqueueEvent E MetadataUpdateCompleted (''meta-'' @ n) (ToTarget u)
          [WithEventStatus (err = None), WithEventDetails (json_compact (metadata_details cur new err))]
          (h\<lparr>ext := w\<rparr>) = (e, h')" by fastforce
      have h': "deferred E cur new err u h = h'"
        using True Pair Inr enq by (simp add: deferred_def sendMetadataUpdateCompletedEvent_def)
      from EnqueueEvent_adds [OF q(1) enq] q(2) True show ?thesis
        unfolding h' by (auto simp: WithEventStatus_def WithEventDetails_def)
    qed
  qed
qed

lemma decide_err:
  "decide E s w u = (out, err, u') \<Longrightarrow> out \<noteq> Panicked \<Longrightarrow>
     (err = None) = (out = Ret None \<or> out = Ret (Some (Sentinel ErrCheckNoUpdate)))"
  by (erule decide_cases) auto

lemma load_targets_early:
  "load_targets E s c repo h = ((early, err), ts, cur, new, h') \<Longrightarrow>
     (early \<noteq> None \<longrightarrow> err \<noteq> None \<and> early \<noteq> Some (Sentinel ErrCheckNoUpdate)) \<and> (\<not> UpdateTargets s \<longrightarrow> new = -1)"
  by (auto simp: load_targets_def Let_def errorf2_def split: prod.splits sum.splits option.splits if_splits)

text \<open>A number that the witnesses read.\<close>

lemma atoi_seven: "atoi ''7'' = (7, None)"
proof -
  have "itoa 7 = ''7''" by (simp add: itoa_def nat_digits.simps digit_char_def)
  then show ?thesis using atoi_itoa [of 7] by (simp add: int_min_def int_max_def)
qed

section \<open>Properties\<close>

text \<open>
  The version is read back from a target identifier made of a name, a hyphen and the version,
  whatever hyphens the name has.
\<close>
theorem extractTargetVersion_roundtrip:
  assumes "0 \<le> v" and "v \<le> int_max"
  shows "extractTargetVersion (name @ ''-'' @ itoa v) = Inr v"
proof -
  have "CHR ''-'' \<notin> set (itoa v)" using assms(1) by (auto simp: itoa_def dest: nat_digits_set [THEN subsetD])
  then have "split_on (CHR ''-'') (name @ CHR ''-'' # itoa v) = split_on (CHR ''-'') name @ [itoa v]"
    by (simp add: split_on_append_sep split_on_no_sep)
  moreover have "length (split_on (CHR ''-'') name) \<ge> 1"
    using split_on_nonempty [of "CHR ''-''" name] by (cases "split_on (CHR ''-'') name") simp_all
  moreover have "atoi (itoa v) = (v, None)" using assms by (intro atoi_itoa) (simp_all add: int_min_def)
  ultimately show ?thesis by (simp add: extractTargetVersion_def nth_append)
qed

theorem extractTargetVersion_roundtrip_witness:
  "extractTargetVersion (''raspberrypi4-64-lmp'' @ ''-'' @ itoa 1042) = Inr 1042"
  by (rule extractTargetVersion_roundtrip) (simp_all add: int_max_def)



text \<open>
  C13: the answer that there is nothing to do is given only for a new update that is not forced,
  whose target is the current one with no app to add, remove or change, and only after every app of
  it has been found fetched, installed and running.
\<close>
theorem Check_no_update:
  assumes "Check_Execute E s u h = (Ret (Some (Sentinel ErrCheckNoUpdate)), u', h')"
  shows "\<not> Force s \<and> Type u' = UpdateTypeSync \<and> Mode u' = UpdateModeNewUpdate \<and> UpdateRunner u' = None
    \<and> dAdd (AppDiff u') = [] \<and> dRemove (AppDiff u') = [] \<and> dUpdate (AppDiff u') = []
    \<and> (\<exists>cs. CurrentStatus u' = Some cs \<and> (\<forall>a \<in> set (tApps (ToTarget u')).
         \<exists>st. map_of (cs_AppStatuses cs) (aURI a) = Some st \<and> ap_Fetched st \<and> ap_Installed st \<and> ap_Running st))"
proof -
  from Check_decides [OF assms] obtain w ui err where d: "decide E s w ui = (Ret (Some (Sentinel ErrCheckNoUpdate)), err, u')"
    and mode: "case x_GetCurrentUpdate E (ext h) of
         Inr r \<Rightarrow> Mode ui = UpdateModeResume \<and> UpdateRunner ui = Some r
       | Inl e \<Rightarrow> errors_is e ErrUpdateNotFound \<and> AllowNewUpdate s \<and> Mode ui = UpdateModeNewUpdate \<and> UpdateRunner ui = None"
    by auto
  from d show ?thesis
  proof (cases rule: decide_cases)
    case (running e1 u1 u2)
    note s1 = with_current_sel [OF running(1)] and s2 = selectToTarget_sel [OF running(2)]
    from running(6) have q: "Type (compared E w u2) = UpdateTypeSync" "Mode (compared E w u2) = UpdateModeNewUpdate"
      "isTargetInSync E w (compared E w u2) = (Inr True, u')"
      by (auto simp: isUpdateRequired_def split: if_splits prod.splits sum.splits)
    from q(3) obtain cs where cs: "\<not> checkAppDiff (compared E w u2)" "u' = (compared E w u2)\<lparr>CurrentStatus := Some cs\<rparr>"
      "all_running cs (AppURIs (ToTarget (compared E w u2)))"
      by (auto simp: isTargetInSync_def Let_def split: if_splits sum.splits)
    have "Mode ui = UpdateModeNewUpdate" using q(2) s1 s2 by (simp add: compared_sel)
    then have "UpdateRunner ui = None" using mode by (auto split: sum.splits)
    then show ?thesis using cs q(1,2) running(5) s1 s2
      by (simp add: checkAppDiff_def all_running_iff AppURIs_def compared_sel(4))
  qed simp_all
qed

theorem Check_no_update_witness:
  defines "E \<equiv> (undefined :: unit env)\<lparr>x_GetCurrentUpdate := \<lambda>w. Inl (Sentinel ErrUpdateNotFound),
     x_GetLastSuccessfulUpdate := \<lambda>w. Inr ((undefined :: update_rec)\<lparr>u_ClientRef := ''t-7'', u_URIs := None\<rparr>),
     x_CheckAppsStatus := \<lambda>us os w. Inr ((undefined :: apps_status)\<lparr>as_Apps := []\<rparr>),
     x_map_order := \<lambda>ks w. ks, x_io := \<lambda>p w. (None, w)\<rparr>"
  defines "cfg \<equiv> (undefined :: config)\<lparr>tomlConfig := \<lparr>t_Has = \<lambda>k. False, t_Get = \<lambda>k. ''hw'', t_GetDefault = \<lambda>k d. d\<rparr>\<rparr>"
  defines "s \<equiv> \<lparr>UpdateTargets = False, AllowNewUpdate = True, Force = False, Action = ''update'', AllowedStates = [],
     ToVersion = -1, SyncCurrent = True, MaxAttempts = 0, RequireLatest = False, EnableTUF = False\<rparr>"
  defines "h \<equiv> \<lparr>ext = (), fs = (\<lambda>p. Some (JsonDoc (JObj []))), report_events = None, installed_versions = None, reqs = []\<rparr>"
  shows "\<exists>u'. \<exists>h'. Check_Execute E s ((undefined :: update_ctx)\<lparr>Config := cfg\<rparr>) h
      = (Ret (Some (Sentinel ErrCheckNoUpdate)), u', h') \<and> Type u' = UpdateTypeSync"
proof -
  let ?u = "(undefined :: update_ctx)\<lparr>Config := cfg\<rparr>"
  have E: "x_GetCurrentUpdate E w = Inl (Sentinel ErrUpdateNotFound)" "x_io E p w = (None, w)"
    "x_GetLastSuccessfulUpdate E w = Inr ((undefined :: update_rec)\<lparr>u_ClientRef := ''t-7'', u_URIs := None\<rparr>)"
    "x_CheckAppsStatus E us os w = Inr ((undefined :: apps_status)\<lparr>as_Apps := []\<rparr>)"
    "x_map_order E ks w = ks" for w p us os ks
    by (simp_all add: E_def)
  have v: "extractTargetVersion ''t-7'' = Inr 7" by (simp add: extractTargetVersion_def atoi_seven)
  have p: "unmarshal_file (JsonDoc (JObj [])) = Inr zero_file" by (simp add: unmarshal_file_def)
  have ts: "plain_LoadTargets E c False r h = (Inr ([], 0), r\<lparr>p_targets := [], p_version := 0\<rparr>, h)" for c r
    by (simp add: plain_LoadTargets_def plain_readTargets_def read_file_def io_def E h_def plain_loadTargets_def p
        zero_file_def range_map_def List.map_filter_simps)
  have en: "GetEnabledApps cfg = None" by (simp add: GetEnabledApps_def cfg_def)
  obtain res u' h' where r: "Check_Execute E s ?u h = (res, u', h')" by (metis prod_cases3)
  have "res = Ret (Some (Sentinel ErrCheckNoUpdate))"
    using r
    by (auto simp: Check_Execute_def E s_def check_targets_def new_repo_def load_targets_def ts Let_def en
        decide_def getAndSetCurrentTarget_def selectToTarget_def GetTargetByID_def GetTargetByVersion_def getSyncTarget_def
        getTargetOutOfUpdate_def v uri_list_def IsUnknown_def UnknownTarget_def limit_attempts_def ShortlistApps_def
        isUpdateRequired_def isTargetInSync_def checkAppDiff_def Diff_def app_map_def empty_diff_def range_map_def
        List.map_filter_simps GetCurrentStatus_def AppURIs_def split: prod.splits if_splits)
  with r have c: "Check_Execute E s ?u h = (Ret (Some (Sentinel ErrCheckNoUpdate)), u', h')" by simp
  from Check_no_update [OF c] c show ?thesis by blast
qed

text \<open>
  The check queues at most one event of its own. It names the target that was selected last,
  and says success exactly when the check succeeds or finds nothing to do: any other error, also one
  that has nothing to do with the metadata, is reported as a failure of the metadata update. A check
  that does not update the targets and succeeds queues none.
\<close>
theorem check_event:
  assumes "queue_ok h" and "check_targets E s u h = (out, u', h')" and "out \<noteq> Panicked"
  shows "\<exists>evs. queued h' = queued h @ evs \<and> length evs \<le> 1
    \<and> (\<forall>ev \<in> set evs. et_Id (ev_EventType ev) = event_id MetadataUpdateCompleted
         \<and> TargetName (ev_Event ev) = tID (ToTarget u')
         \<and> Success (ev_Event ev) = Some (out = Ret None \<or> out = Ret (Some (Sentinel ErrCheckNoUpdate))))
    \<and> (\<not> UpdateTargets s \<and> out = Ret None \<longrightarrow> evs = [])"
proof (cases "new_repo E s u (ext h)")
  case (Inl e)
  with assms show ?thesis by (auto simp: check_targets_def)
next
  case (Inr repo)
  obtain early err ts cur new h1 where l: "load_targets E s (Client u) repo h = ((early, err), ts, cur, new, h1)"
    by (metis prod_cases5 prod.collapse)
  have q: "queue_ok h1" "queued h1 = queued h"
    using load_targets_tables [OF l] assms(1) by (simp_all add: queue_ok_def queued_def)
  note early = load_targets_early [OF l]
  show ?thesis
  proof (cases early)
    case (Some e)
    then have "out = Ret (Some e)" "u' = u" "h' = deferred E cur new err u h1"
      using assms(2) Inr l by (auto simp: check_targets_def)
    with deferred_adds [OF q(1), of E cur new err u] early Some q(2) show ?thesis by auto
  next
    case None
    obtain o1 e1 u1 where d: "decide E s (ext h1) (u\<lparr>Targets := ts\<rparr>) = (o1, e1, u1)" by (metis prod_cases3)
    then have eq: "o1 = out" "u' = u1" "h' = deferred E cur new e1 u1 h1"
      using assms(2) Inr l None by (auto simp: check_targets_def)
    have e1: "(e1 = None) = (out = Ret None \<or> out = Ret (Some (Sentinel ErrCheckNoUpdate)))"
      using decide_err [OF d] assms(3) eq(1) by simp
    from deferred_adds [OF q(1), of E cur new e1 u1] obtain evs where
      "queued h' = queued h @ evs" "length evs \<le> 1"
      "\<forall>ev \<in> set evs. et_Id (ev_EventType ev) = event_id MetadataUpdateCompleted
         \<and> TargetName (ev_Event ev) = tID (ToTarget u1) \<and> Success (ev_Event ev) = Some (e1 = None)"
      "e1 = None \<and> (new = -1 \<or> new = cur) \<longrightarrow> evs = []"
      unfolding eq(3) q(2) by blast
    then show ?thesis using e1 early eq(2) by (intro exI [of _ evs]) auto
  qed
qed

theorem check_event_witness:
  defines "E \<equiv> (undefined :: unit env)\<lparr>x_TufNew := \<lambda>w. Some (ErrorString ''no root'')\<rparr>"
  defines "s \<equiv> (undefined :: check)\<lparr>EnableTUF := True\<rparr>"
  defines "h \<equiv> \<lparr>ext = (), fs = Map.empty, report_events = Some [], installed_versions = None, reqs = []\<rparr>"
  shows "\<exists>e u' h'. check_targets E s undefined h = (Ret (Some e), u', h') \<and> length (queued h') \<le> 1"
proof -
  have "\<exists>e u' h'. check_targets E s undefined h = (Ret (Some e), u', h')"
    by (simp add: check_targets_def new_repo_def NewTufRepo_def E_def s_def)
  then obtain e u' h' where c: "check_targets E s undefined h = (Ret (Some e), u', h')" by blast
  have "queue_ok h" by (simp add: queue_ok_def h_def rows_ok_def)
  from check_event [OF this c] c show ?thesis by (auto simp: queued_def h_def)
qed

text \<open>
  Turning the latest target down for too many failed attempts selects the current target without
  looking whether there is one: on a device without a current target the unknown target is selected.
\<close>
lemma attempts_select_unknown:
  assumes "FromTarget u = UnknownTarget" and "\<forall>t \<in> set (Targets u). tVersion t \<noteq> -1"
    and "x_CountFailedUpdates E (tID (ToTarget u)) w = Inr n" and "0 < MaxAttempts s" and "MaxAttempts s \<le> n"
  shows "ToTarget (limit_attempts E s w u) = UnknownTarget"
proof -
  have "find (\<lambda>t. tVersion t = -1) (Targets u) = None" using assms(2) by (simp add: find_None_all)
  then have "GetTargetByVersion (Targets u) (-1) = UnknownTarget" by (simp add: GetTargetByVersion_def)
  with assms show ?thesis by (simp add: limit_attempts_def getSyncTarget_def UnknownTarget_def)
qed

end
