(* ===== verification/Runner.thy ===== *)
theory Runner
  imports EventSender CheckState
begin

text \<open>
  \<open>pkg/api/update_runner.go\<close> and the operations of the API that are lists of states
  (\<open>update.go\<close>, \<open>fetch.go\<close>, \<open>install.go\<close>, \<open>start.go\<close>, \<open>check.go\<close>, \<open>cancel.go\<close>). A run sets up the
  gateway client, the database and the event sender, reports the system, and executes the states
  one after the other until one fails. The goroutine of the event sender is present as a schedule:
  before each state, and when the sender is stopped, it flushes the queue some number of times. Its
  finer interleavings are those of the theory \<open>EventSender\<close>.
\<close>

section \<open>States and options\<close>

datatype action =
  Checking check | Initializing bool | Fetching | Stopping | Installing | Starting

fun action_name :: "action \<Rightarrow> string" where
  "action_name (Checking s) = ''Checking''"
| "action_name (Initializing c) = ''Initializing''"
| "action_name Fetching = ''Fetching''"
| "action_name Stopping = ''Stopping''"
| "action_name Installing = ''Installing''"
| "action_name Starting = ''Starting''"

fun Execute :: "'w env \<Rightarrow> action \<Rightarrow> 'w step" where
  "Execute E (Checking s) = Check_Execute E s"
| "Execute E (Initializing c) = Init_Execute E c"
| "Execute E Fetching = Fetch_Execute E"
| "Execute E Stopping = Stop_Execute E"
| "Execute E Installing = Install_Execute E"
| "Execute E Starting = Start_Execute E"

text \<open>
  The handlers are told the name of the state and the information on the update; they act on the
  outside world only (those of the program print). \<open>ro_EventSender\<close> says whether a sender was given.
\<close>

type_synonym 'w handler = "string \<Rightarrow> update_ctx \<Rightarrow> 'w \<Rightarrow> 'w"

record 'w runner_opts =
  ro_EventSender :: bool
  ro_GatewayClient :: "gw_client option"
  ro_PreStateHandler :: "'w handler option"
  ro_PostStateHandler :: "'w handler option"

record 'w update_opts = "'w runner_opts" +
  uo_EnableTUF :: bool
  uo_Force :: bool
  uo_SyncCurrent :: bool
  uo_MaxAttempts :: int
  uo_RequireLatest :: bool

record 'w update_runner =
  sm_opts :: "'w runner_opts"
  sm_states :: "action list"

definition WithTUF :: "bool \<Rightarrow> 'w update_opts \<Rightarrow> 'w update_opts" where
  "WithTUF b o' = o'\<lparr>uo_EnableTUF := b\<rparr>"
definition WithForceUpdate :: "bool \<Rightarrow> 'w update_opts \<Rightarrow> 'w update_opts" where
  "WithForceUpdate b o' = o'\<lparr>uo_Force := b\<rparr>"
definition WithSyncCurrent :: "bool \<Rightarrow> 'w update_opts \<Rightarrow> 'w update_opts" where
  "WithSyncCurrent b o' = o'\<lparr>uo_SyncCurrent := b\<rparr>"
definition WithRequireLatest :: "bool \<Rightarrow> 'w update_opts \<Rightarrow> 'w update_opts" where
  "WithRequireLatest b o' = o'\<lparr>uo_RequireLatest := b\<rparr>"
definition WithMaxAttempts :: "int \<Rightarrow> 'w update_opts \<Rightarrow> 'w update_opts" where
  "WithMaxAttempts n o' = o'\<lparr>uo_MaxAttempts := n\<rparr>"
definition WithPreStateHandler :: "'w handler \<Rightarrow> 'w update_opts \<Rightarrow> 'w update_opts" where
  "WithPreStateHandler f o' = o'\<lparr>ro_PreStateHandler := Some f\<rparr>"
definition WithPostStateHandler :: "'w handler \<Rightarrow> 'w update_opts \<Rightarrow> 'w update_opts" where
  "WithPostStateHandler f o' = o'\<lparr>ro_PostStateHandler := Some f\<rparr>"
definition WithEventSender :: "'w update_opts \<Rightarrow> 'w update_opts" where
  "WithEventSender o' = o'\<lparr>ro_EventSender := True\<rparr>"
definition WithGatewayClient :: "gw_client \<Rightarrow> 'w update_opts \<Rightarrow> 'w update_opts" where
  "WithGatewayClient c o' = o'\<lparr>ro_GatewayClient := Some c\<rparr>"

definition zero_opts :: "'w update_opts" where
  "zero_opts = \<lparr>ro_EventSender = False, ro_GatewayClient = None, ro_PreStateHandler = None,
     ro_PostStateHandler = None, uo_EnableTUF = False, uo_Force = False, uo_SyncCurrent = False,
     uo_MaxAttempts = 0, uo_RequireLatest = False\<rparr>"

definition getUpdateOpts :: "('w update_opts \<Rightarrow> 'w update_opts) list \<Rightarrow> 'w update_opts" where
  "getUpdateOpts options = fold (\<lambda>f o'. f o') options zero_opts"

definition updateOptsToRunnerOpt :: "'w update_opts \<Rightarrow> 'w runner_opts" where
  "updateOptsToRunnerOpt o' = runner_opts.truncate o'"

definition newUpdateRunner :: "action list \<Rightarrow> 'w runner_opts \<Rightarrow> 'w update_runner" where
  "newUpdateRunner states opts = \<lparr>sm_opts = opts, sm_states = states\<rparr>"

section \<open>The run\<close>

text \<open>\<open>n\<close> flushes by the goroutine of the sender, which only logs their errors.\<close>

fun flushes :: "'w env \<Rightarrow> gw_client \<Rightarrow> nat \<Rightarrow> 'w host \<Rightarrow> 'w host" where
  "flushes E c 0 h = h"
| "flushes E c (Suc n) h = flushes E c n (snd (FlushEvents E c h))"

definition call_handler :: "'w handler option \<Rightarrow> string \<Rightarrow> update_ctx \<Rightarrow> 'w host \<Rightarrow> 'w host" where
  "call_handler f name u h = (case f of None \<Rightarrow> h | Some g \<Rightarrow> h\<lparr>ext := g name u (ext h)\<rparr>)"

fun run_states :: "'w env \<Rightarrow> 'w runner_opts \<Rightarrow> (nat \<Rightarrow> nat) \<Rightarrow> action list \<Rightarrow> 'w step" where
  "run_states E o' sched [] u h = (Ret None, u, h)"
| "run_states E o' sched (s # ss) u h =
     (let u = u\<lparr>CurrentState := action_name s\<rparr>;
          h = call_handler (ro_PreStateHandler o') (action_name s) u h;
          h = flushes E (Client u) (sched (nat (CurrentStateNum u))) h
      in case Execute E s u h of
           (Panicked, u, h) \<Rightarrow> (Panicked, u, h)
         | (Ret (Some err), u, h) \<Rightarrow> (Ret (Some (errorf (''failed at state '' @ action_name s) err)), u, h)
         | (Ret None, u, h) \<Rightarrow>
             (let h = call_handler (ro_PostStateHandler o') (action_name s) u h;
                  u = u\<lparr>CurrentStateNum := CurrentStateNum u + 1\<rparr>
              in run_states E o' sched ss u h))"

text \<open>The context before the first state: Go's zero values but for the four fields set.\<close>

definition initial_ctx :: "config \<Rightarrow> gw_client \<Rightarrow> nat \<Rightarrow> update_ctx" where
  "initial_ctx cfg c n =
    \<lparr>TotalStates = int n, CurrentStateNum = 1, CurrentState = '''',
     FromTarget = zero_target, ToTarget = zero_target, Mode = ModeUnset, Type = TypeUnset,
     Size = \<lparr>z_Bytes = 0, z_Blobs = 0\<rparr>, AppDiff = empty_diff, CurrentStatus = None, InitializedAt = 0,
     FetchedAt = 0, AlreadyFetched = False, IsForcedUpdate = False, Config = cfg, Client = c,
     Targets = [], StorageUsage = None, UpdateRunner = None\<rparr>"

text \<open>From the start of the sender to the return, then the deferred stop of a sender of its own.\<close>

definition run_session ::
  "'w env \<Rightarrow> (nat \<Rightarrow> nat) \<Rightarrow> 'w update_runner \<Rightarrow> config \<Rightarrow> gw_client \<Rightarrow> 'w step" where
  "run_session E sched sm cfg c u h =
    (case PutSysInfo E c h of
       (Panicked, c, h) \<Rightarrow> (Panicked, u, h)
     | (Ret _, c, h) \<Rightarrow>
         (let (_, c, h) = ReportAppStates E c h
          in case run_states E (sm_opts sm) sched (sm_states sm) (u\<lparr>Client := c\<rparr>) h of
               (Ret None, u, h) \<Rightarrow>
                 (let (_, c, h) = ReportAppStates E (Client u) h in (Ret None, u\<lparr>Client := c\<rparr>, h))
             | r \<Rightarrow> r))"

definition Run ::
  "'w env \<Rightarrow> (nat \<Rightarrow> nat) \<Rightarrow> 'w update_runner \<Rightarrow> config \<Rightarrow> 'w host
   \<Rightarrow> goerr option outcome \<times> update_ctx option \<times> 'w host" where
  "Run E sched sm cfg h =
    (let (client, cfg, h) =
       (case ro_GatewayClient (sm_opts sm) of
          Some c \<Rightarrow> (Ret (Inr c), cfg, h)
        | None \<Rightarrow> NewGatewayClient E cfg None '''' h)
     in case client of
          Panicked \<Rightarrow> (Panicked, None, h)
        | Ret (Inl err) \<Rightarrow> (Ret (Some (errorf ''failed to create gateway client'' err)), None, h)
        | Ret (Inr c) \<Rightarrow>
            (let u = initial_ctx cfg c (length (sm_states sm))
             in case InitializeDatabase E h of
                  (Some err, h) \<Rightarrow> (Ret (Some err), Some u, h)
                | (None, h) \<Rightarrow>
                    (let (out, u, h) = run_session E sched sm cfg c u h
                     in (out, Some u,
                         if ro_EventSender (sm_opts sm) then h else flushes E (Client u) (sched 0) h))))"

section \<open>The operations\<close>

definition update_states :: "int \<Rightarrow> 'w update_opts \<Rightarrow> action list" where
  "update_states toVersion o' =
    [Checking \<lparr>UpdateTargets = True, AllowNewUpdate = True, Force = uo_Force o', Action = ''update'',
       AllowedStates = [], ToVersion = toVersion, SyncCurrent = uo_SyncCurrent o',
       MaxAttempts = uo_MaxAttempts o', RequireLatest = uo_RequireLatest o', EnableTUF = uo_EnableTUF o'\<rparr>,
     Initializing False, Fetching, Stopping, Installing, Starting]"

definition Update ::
  "'w env \<Rightarrow> (nat \<Rightarrow> nat) \<Rightarrow> config \<Rightarrow> int \<Rightarrow> ('w update_opts \<Rightarrow> 'w update_opts) list \<Rightarrow> 'w host
   \<Rightarrow> goerr option outcome \<times> update_ctx option \<times> 'w host" where
  "Update E sched cfg toVersion options h =
    (let o' = getUpdateOpts options
     in Run E sched (newUpdateRunner (update_states toVersion o') (updateOptsToRunnerOpt o')) cfg h)"

definition fetch_states :: "int \<Rightarrow> 'w update_opts \<Rightarrow> action list" where
  "fetch_states toVersion o' =
    [Checking \<lparr>UpdateTargets = False, AllowNewUpdate = True, Force = True, Action = ''fetch'',
       AllowedStates = [], ToVersion = toVersion, SyncCurrent = False, MaxAttempts = 0,
       RequireLatest = False, EnableTUF = uo_EnableTUF o'\<rparr>,
     Initializing False, Fetching]"

definition Fetch ::
  "'w env \<Rightarrow> (nat \<Rightarrow> nat) \<Rightarrow> config \<Rightarrow> int \<Rightarrow> ('w update_opts \<Rightarrow> 'w update_opts) list \<Rightarrow> 'w host
   \<Rightarrow> goerr option outcome \<times> update_ctx option \<times> 'w host" where
  "Fetch E sched cfg toVersion options h =
    (let o' = getUpdateOpts options
     in Run E sched (newUpdateRunner (fetch_states toVersion o') (updateOptsToRunnerOpt o')) cfg h)"

text \<open>The check of an operation that goes on with an update under way in one of the given states.\<close>

definition resume_check :: "string \<Rightarrow> upd_state list \<Rightarrow> bool \<Rightarrow> check" where
  "resume_check name states tuf =
    \<lparr>UpdateTargets = False, AllowNewUpdate = False, Force = False, Action = name,
     AllowedStates = states, ToVersion = -1, SyncCurrent = False, MaxAttempts = 0,
     RequireLatest = False, EnableTUF = tuf\<rparr>"

definition install_states :: "'w update_opts \<Rightarrow> action list" where
  "install_states o' =
    [Checking (resume_check ''install'' [StateFetched, StateInstalling] (uo_EnableTUF o')),
     Initializing False, Fetching, Stopping, Installing]"

definition Install ::
  "'w env \<Rightarrow> (nat \<Rightarrow> nat) \<Rightarrow> config \<Rightarrow> ('w update_opts \<Rightarrow> 'w update_opts) list \<Rightarrow> 'w host
   \<Rightarrow> goerr option outcome \<times> update_ctx option \<times> 'w host" where
  "Install E sched cfg options h =
    (let o' = getUpdateOpts options
     in Run E sched (newUpdateRunner (install_states o') (updateOptsToRunnerOpt o')) cfg h)"

definition start_states :: "'w update_opts \<Rightarrow> action list" where
  "start_states o' =
    [Checking (resume_check ''start'' [StateInstalled, StateStarting, StateStarted, StateCompleting]
       (uo_EnableTUF o')),
     Initializing False, Fetching, Stopping, Installing, Starting]"

definition Start ::
  "'w env \<Rightarrow> (nat \<Rightarrow> nat) \<Rightarrow> config \<Rightarrow> ('w update_opts \<Rightarrow> 'w update_opts) list \<Rightarrow> 'w host
   \<Rightarrow> goerr option outcome \<times> update_ctx option \<times> 'w host" where
  "Start E sched cfg options h =
    (let o' = getUpdateOpts options
     in Run E sched (newUpdateRunner (start_states o') (updateOptsToRunnerOpt o')) cfg h)"

definition check_states :: "'w update_opts \<Rightarrow> action list" where
  "check_states o' =
    [Checking \<lparr>UpdateTargets = True, AllowNewUpdate = True, Force = True, Action = ''update'',
       AllowedStates = [], ToVersion = -1, SyncCurrent = uo_SyncCurrent o',
       MaxAttempts = uo_MaxAttempts o', RequireLatest = uo_RequireLatest o', EnableTUF = uo_EnableTUF o'\<rparr>]"

text \<open>\<open>Check\<close> answers with the targets and the current status, which it asks for when the run has not.\<close>

definition Check ::
  "'w env \<Rightarrow> (nat \<Rightarrow> nat) \<Rightarrow> config \<Rightarrow> ('w update_opts \<Rightarrow> 'w update_opts) list \<Rightarrow> 'w host
   \<Rightarrow> (targets \<times> current_status) result outcome \<times> 'w host" where
  "Check E sched cfg options h =
    (let o' = getUpdateOpts options;
         (out, u, h) = Run E sched (newUpdateRunner (check_states o') (updateOptsToRunnerOpt o')) cfg h;
         ts = (case u of None \<Rightarrow> [] | Some u \<Rightarrow> Targets u);
         known = (case u of None \<Rightarrow> None | Some u \<Rightarrow> CurrentStatus u);
         answer = (case known of
             Some s \<Rightarrow> Inr (ts, s)
           | None \<Rightarrow>
               (case GetCurrentStatus E (ext h) of
                  Inr s \<Rightarrow> Inr (ts, s)
                | Inl err \<Rightarrow> Inl (errorf ''failed to get current status'' err)))
     in case out of
          Panicked \<Rightarrow> (Panicked, h)
        | Ret None \<Rightarrow> (Ret answer, h)
        | Ret (Some err) \<Rightarrow>
            if errors_is err ErrCheckNoUpdate then (Ret answer, h) else (Ret (Inl err), h))"

text \<open>\<open>Cancel\<close>: the identifier of the cancelled target is read before the update is cancelled.\<close>

definition Cancel :: "'w env \<Rightarrow> 'w host \<Rightarrow> (string \<times> goerr option) \<times> 'w host" where
  "Cancel E h =
    (case x_GetCurrentUpdate E (ext h) of
       Inl err \<Rightarrow> (('''', Some err), h)
     | Inr r \<Rightarrow>
         (let (e, w) = x_Cancel E r (ext h)
          in ((u_ClientRef (x_Status E r (ext h)), e), h\<lparr>ext := w\<rparr>)))"

section \<open>Delivery\<close>

text \<open>
  \<open>delivers E c lo hi h h'\<close>: between the two states requests were only added; events of types in
  the order of the protocol were queued, none twice, with ranks between the bounds; and of all the
  events in the queue and those queued, a front part has been posted to the gateway and the rest is
  what the queue now holds.
\<close>

definition delivers :: "'w env \<Rightarrow> gw_client \<Rightarrow> nat \<Rightarrow> nat \<Rightarrow> 'w host \<Rightarrow> 'w host \<Rightarrow> bool" where
  "delivers E c lo hi h h' \<longleftrightarrow> (\<exists>qs. reqs h' = reqs h @ qs) \<and>
     (queue_ok h \<longrightarrow> queue_ok h' \<and>
       (\<exists>sent evs ts. queued h @ evs = sent @ queued h' \<and> set sent \<subseteq> set (posted E c h')
          \<and> map (\<lambda>e. et_Id (ev_EventType e)) evs = map event_id ts \<and> sorted_wrt (<) ts
          \<and> (\<forall>t \<in> set ts. lo \<le> event_rank t \<and> event_rank t < hi)))"

lemma posted_mono: "reqs h' = reqs h @ qs \<Longrightarrow> set (posted E c h) \<subseteq> set (posted E c h')"
  by (auto simp: posted_def)

lemma posted_url: "BaseURL c = BaseURL c' \<Longrightarrow> posted E c h = posted E c' h"
  by (simp add: posted_def)

lemma delivers_url: "BaseURL c = BaseURL c' \<Longrightarrow> delivers E c lo hi h h' = delivers E c' lo hi h h'"
  by (simp add: delivers_def posted_url [of c c'])

lemma delivers_queue: "delivers E c lo hi h h' \<Longrightarrow> queue_ok h \<Longrightarrow> queue_ok h'"
  by (simp add: delivers_def)

lemma deliversI:
  assumes "reqs h' = reqs h @ qs"
    and "queue_ok h \<Longrightarrow> queue_ok h' \<and> (\<exists>sent evs. queued h @ evs = sent @ queued h'
      \<and> set sent \<subseteq> set (posted E c h') \<and> map (\<lambda>e. et_Id (ev_EventType e)) evs = map event_id ts)"
    and "sorted_wrt (<) ts" and "\<forall>t \<in> set ts. lo \<le> event_rank t \<and> event_rank t < hi"
  shows "delivers E c lo hi h h'"
  using assms by (auto simp: delivers_def)

lemma delivers_in_order:
  assumes "in_order lo hi h h'" and "reqs h' = reqs h @ qs"
  shows "delivers E c lo hi h h'"
proof -
  from assms(1) obtain ts where ts: "sends h ts h'" "sorted_wrt (<) ts"
    "\<forall>t \<in> set ts. lo \<le> event_rank t \<and> event_rank t < hi" by (auto simp: in_order_def)
  have "queue_ok h' \<and> (\<exists>sent evs. queued h @ evs = sent @ queued h' \<and> set sent \<subseteq> set (posted E c h')
      \<and> map (\<lambda>e. et_Id (ev_EventType e)) evs = map event_id ts)" if q: "queue_ok h"
  proof -
    from ts(1) q obtain evs where "queue_ok h'" "queued h' = queued h @ evs"
      "map (\<lambda>e. et_Id (ev_EventType e)) evs = map event_id ts" by (auto simp: sends_def)
    then show ?thesis by (intro conjI exI [of _ "[]"] exI [of _ evs]) simp_all
  qed
  from deliversI [OF assms(2) this ts(2,3)] show ?thesis .
qed

lemma delivers_same: "report_events h' = report_events h \<Longrightarrow> reqs h' = reqs h @ qs \<Longrightarrow> delivers E c lo hi h h'"
  by (rule delivers_in_order [OF in_order_same])

lemma delivers_refl [simp]: "delivers E c lo hi h h"
  by (rule delivers_same [where qs = "[]"]) simp_all

lemma delivers_mono: "delivers E c a b h h' \<Longrightarrow> a' \<le> a \<Longrightarrow> b \<le> b' \<Longrightarrow> delivers E c a' b' h h'"
  unfolding delivers_def by (meson le_less_trans le_trans less_le_trans)

lemma delivers_trans:
  assumes "delivers E c lo m h h1" and "delivers E c m hi h1 h2" and "lo \<le> m" and "m \<le> hi"
  shows "delivers E c lo hi h h2"
proof -
  obtain qs where qs: "reqs h2 = reqs h1 @ qs" using assms(2) by (auto simp: delivers_def)
  have "\<exists>qs. reqs h2 = reqs h @ qs" using assms(1,2) by (auto simp: delivers_def)
  moreover have "queue_ok h2 \<and> (\<exists>sent evs ts. queued h @ evs = sent @ queued h2
      \<and> set sent \<subseteq> set (posted E c h2) \<and> map (\<lambda>e. et_Id (ev_EventType e)) evs = map event_id ts
      \<and> sorted_wrt (<) ts \<and> (\<forall>t \<in> set ts. lo \<le> event_rank t \<and> event_rank t < hi))" if q: "queue_ok h"
  proof -
    from assms(1) q obtain s1 e1 t1 where 1: "queue_ok h1" "queued h @ e1 = s1 @ queued h1"
      "set s1 \<subseteq> set (posted E c h1)" "map (\<lambda>e. et_Id (ev_EventType e)) e1 = map event_id t1"
      "sorted_wrt (<) t1" "\<forall>t \<in> set t1. lo \<le> event_rank t \<and> event_rank t < m"
      by (auto simp: delivers_def)
    from assms(2) 1(1) obtain s2 e2 t2 where 2: "queue_ok h2" "queued h1 @ e2 = s2 @ queued h2"
      "set s2 \<subseteq> set (posted E c h2)" "map (\<lambda>e. et_Id (ev_EventType e)) e2 = map event_id t2"
      "sorted_wrt (<) t2" "\<forall>t \<in> set t2. m \<le> event_rank t \<and> event_rank t < hi"
      by (auto simp: delivers_def)
    have "queued h @ e1 @ e2 = (s1 @ s2) @ queued h2" using 1(2) 2(2) by (metis append.assoc)
    moreover have "set (s1 @ s2) \<subseteq> set (posted E c h2)" using 1(3) 2(3) posted_mono [OF qs] by fastforce
    moreover have "sorted_wrt (<) (t1 @ t2)" using 1(5,6) 2(5,6) by (fastforce simp: sorted_wrt_append event_order)
    moreover have "\<forall>t \<in> set (t1 @ t2). lo \<le> event_rank t \<and> event_rank t < hi"
      using 1(6) 2(6) assms(3,4) by fastforce
    ultimately show ?thesis using 1(4) 2(1,4)
      by (intro conjI exI [of _ "s1 @ s2"] exI [of _ "e1 @ e2"] exI [of _ "t1 @ t2"]) simp_all
  qed
  ultimately show ?thesis by (simp add: delivers_def)
qed

text \<open>The flushes of the goroutine deliver, and queue nothing.\<close>

lemma FlushEvents_reqs: "FlushEvents E c h = (e, h') \<Longrightarrow> \<exists>qs. reqs h' = reqs h @ qs"
  by (auto simp: FlushEvents_def split: prod.splits sum.splits option.splits if_splits
      dest!: GetEvents_frame sendEvent_frame DeleteEvents_cases)

lemma FlushEvents_delivers:
  assumes "rowid_order E" and "FlushEvents E c h = (e, h')"
  shows "delivers E c lo lo h h'"
proof -
  obtain qs where qs: "reqs h' = reqs h @ qs" using FlushEvents_reqs [OF assms(2)] by blast
  have "queue_ok h' \<and> (\<exists>sent evs. queued h @ evs = sent @ queued h' \<and> set sent \<subseteq> set (posted E c h')
      \<and> map (\<lambda>e. et_Id (ev_EventType e)) evs = map event_id [])" if "queue_ok h"
  proof (cases "e = None")
    case True
    then show ?thesis using FlushEvents_cases [OF assms(1) that assms(2)]
      by (intro conjI exI [of _ "take max_events (queued h)"] exI [of _ "[]"]) simp_all
  next
    case False
    then show ?thesis using FlushEvents_cases [OF assms(1) that assms(2)]
      by (intro conjI exI [of _ "[]"]) simp_all
  qed
  from deliversI [OF qs this] show ?thesis by simp
qed

lemma flushes_delivers: "rowid_order E \<Longrightarrow> delivers E c lo lo h (flushes E c n h)"
proof (induction n arbitrary: h)
  case (Suc n)
  obtain e h' where f: "FlushEvents E c h = (e, h')" by fastforce
  have "delivers E c lo lo h (flushes E c n h')"
    by (rule delivers_trans [OF FlushEvents_delivers [OF Suc.prems f] Suc.IH [OF Suc.prems]]) simp_all
  with f show ?case by simp
qed simp

section \<open>States that keep their client\<close>

text \<open>
  The contract of a state extended by what the event sender needs: the gateway stays the same, and
  requests are only added. Every execution then delivers.
\<close>

locale posting_state = action_state exec lo hi
  for exec :: "update_ctx \<Rightarrow> 'w host \<Rightarrow> goerr option outcome \<times> update_ctx \<times> 'w host" and lo hi :: nat +
  assumes same_gateway: "exec u h = (out, u', h') \<Longrightarrow> BaseURL (Client u') = BaseURL (Client u)"
    and adds_requests: "exec u h = (out, u', h') \<Longrightarrow> \<exists>qs. reqs h' = reqs h @ qs"
begin

lemma delivers_success: "exec u h = (Ret None, u', h') \<Longrightarrow> delivers E c lo hi h h'"
  using success adds_requests delivers_in_order by blast

lemma delivers_end: "exec u h = (out, u', h') \<Longrightarrow> delivers E c lo 8 h h'"
  using ends adds_requests delivers_in_order by blast

end

definition keeps_gateway :: "update_ctx \<Rightarrow> 'w host \<Rightarrow> update_ctx \<Rightarrow> 'w host \<Rightarrow> bool" where
  "keeps_gateway u h u' h' \<longleftrightarrow> BaseURL (Client u') = BaseURL (Client u) \<and> (\<exists>qs. reqs h' = reqs h @ qs)"

lemma refresh_status_client [simp]: "Client (refresh_status E w u) = Client u"
  by (auto simp: refresh_status_def split: sum.splits)

lemma storage_client: "getAndSetStorageUsageInfo E w u = (e, u') \<Longrightarrow> Client u' = Client u"
  by (auto simp: getAndSetStorageUsageInfo_def split: sum.splits)

lemma space_check_client: "space_check E r w u = (e, u') \<Longrightarrow> Client u' = Client u"
  by (auto simp: space_check_def checkFreeSpace_def Let_def
      split: prod.splits option.splits outcome.splits if_splits dest!: storage_client)

lemma with_new_runner_client: "with_new_runner E u h = (u', h') \<Longrightarrow> Client u' = Client u \<and> reqs h' = reqs h"
  by (auto simp: with_new_runner_def split: option.splits prod.splits sum.splits)

lemma UpdateHeaders_url [simp]: "BaseURL (UpdateHeaders as t c) = BaseURL c"
  by (simp add: UpdateHeaders_def)

lemma Init_gateway: "Init_Execute E c u h = (out, u', h') \<Longrightarrow> keeps_gateway u h u' h'"
  by (auto simp: Init_Execute_def keeps_gateway_def Let_def SendEvent_in_order
      split: prod.splits option.splits if_splits dest!: with_new_runner_client)

lemma Fetch_gateway: "Fetch_Execute E u h = (out, u', h') \<Longrightarrow> keeps_gateway u h u' h'"
  by (auto simp: Fetch_Execute_def keeps_gateway_def Let_def SendEvent_in_order
      split: prod.splits option.splits outcome.splits if_splits dest!: space_check_client storage_client)

lemma Stop_gateway: "Stop_Execute E u h = (out, u', h') \<Longrightarrow> keeps_gateway u h u' h'"
  by (auto simp: Stop_Execute_def keeps_gateway_def Let_def SendEvent_in_order
      split: prod.splits option.splits if_splits)

lemma Install_gateway: "Install_Execute E u h = (out, u', h') \<Longrightarrow> keeps_gateway u h u' h'"
  by (auto simp: Install_Execute_def keeps_gateway_def Let_def SendEvent_in_order
      split: prod.splits option.splits if_splits)

lemma Start_gateway: "Start_Execute E u h = (out, u', h') \<Longrightarrow> keeps_gateway u h u' h'"
  by (auto simp: Start_Execute_def keeps_gateway_def Let_def SendEvent_in_order
      split: prod.splits option.splits if_splits dest!: storage_client)

lemma LoadTargets_reqs: "LoadTargets E c b repo h = (r, repo', h') \<Longrightarrow> \<exists>qs. reqs h' = reqs h @ qs"
  by (cases repo)
    (auto simp: plain_LoadTargets_def tuf_LoadTargets_def plain_update_def plain_readTargets_def tuf_update_def
      plain_loadTargets_def tuf_loadTargets_def Get_def Let_def
      split: prod.splits sum.splits option.splits if_splits dest!: read_file_frame write_file_frame http_frame)

lemma load_targets_reqs:
  assumes "load_targets E s c repo h = (r, ts, cur, new, h')"
  shows "\<exists>qs. reqs h' = reqs h @ qs"
proof -
  obtain r1 repo1 h1 where 1: "LoadTargets E c False repo h = (r1, repo1, h1)" by (metis prod_cases3)
  obtain r2 repo2 h2 where 2: "LoadTargets E c True repo1 h1 = (r2, repo2, h2)" by (metis prod_cases3)
  from 1 2 have "h' = h1 \<or> h' = h2" using assms
    by (auto simp: load_targets_def Let_def split: sum.splits option.splits if_splits)
  with LoadTargets_reqs [OF 1] LoadTargets_reqs [OF 2] show ?thesis by auto
qed

lemma deferred_reqs [simp]: "reqs (deferred E cur new err u h) = reqs h"
proof -
  have "reqs (snd (EnqueueEvent E MetadataUpdateCompleted i t opts (h\<lparr>ext := w\<rparr>))) = reqs h" for i t opts w
    by (cases "EnqueueEvent E MetadataUpdateCompleted i t opts (h\<lparr>ext := w\<rparr>)") (auto dest: EnqueueEvent_sends)
  then show ?thesis
    by (auto simp: deferred_def sendMetadataUpdateCompletedEvent_def split: prod.splits sum.splits)
qed

lemma with_current_url: "with_current E w u = (e, u') \<Longrightarrow> BaseURL (Client u') = BaseURL (Client u)"
  by (auto simp: with_current_def getAndSetCurrentTarget_def Let_def split: prod.splits sum.splits if_splits)

lemma limit_attempts_client [simp]: "Client (limit_attempts E s w u) = Client u"
  by (auto simp: limit_attempts_def split: sum.splits)

lemma selectToTarget_client: "selectToTarget E s w u = (out, u') \<Longrightarrow> Client u' = Client u"
  by (auto simp: selectToTarget_def Let_def split: sum.splits option.splits if_splits)

lemma compared_client [simp]: "Client (compared E w u) = Client u"
  by (auto simp: compared_def Let_def split: option.splits)

lemma decide_url: "decide E s w u = (out, err, u') \<Longrightarrow> BaseURL (Client u') = BaseURL (Client u)"
  by (auto simp: decide_alt split: prod.splits outcome.splits option.splits if_splits
      dest!: with_current_url selectToTarget_client isUpdateRequired_sel)

lemma check_targets_gateway:
  assumes "check_targets E s u h = (out, u', h')"
  shows "keeps_gateway u h u' h'"
proof (cases "new_repo E s u (ext h)")
  case (Inl e)
  with assms show ?thesis by (auto simp: check_targets_def keeps_gateway_def)
next
  case (Inr repo)
  obtain early err ts cur new h1 where l: "load_targets E s (Client u) repo h = ((early, err), ts, cur, new, h1)"
    by (metis prod_cases5 prod.collapse)
  obtain o1 e1 u1 where d: "decide E s (ext h1) (u\<lparr>Targets := ts\<rparr>) = (o1, e1, u1)" by (metis prod_cases3)
  from assms Inr l d load_targets_reqs [OF l] decide_url [OF d] show ?thesis
    by (auto simp: check_targets_def keeps_gateway_def split: option.splits)
qed

lemma Check_gateway: "Check_Execute E s u h = (out, u', h') \<Longrightarrow> keeps_gateway u h u' h'"
  by (auto simp: Check_Execute_def Let_def split: sum.splits if_splits dest!: check_targets_gateway)
    (auto simp: keeps_gateway_def)

interpretation checks: posting_state "Check_Execute E s" 0 1
  by unfold_locales (auto dest!: Check_gateway simp: keeps_gateway_def)

interpretation inits: posting_state "Init_Execute E c" 1 3
  by unfold_locales (auto dest!: Init_gateway simp: keeps_gateway_def)

interpretation fetches: posting_state "Fetch_Execute E" 3 5
  by unfold_locales (auto dest!: Fetch_gateway simp: keeps_gateway_def)

interpretation stops: posting_state "Stop_Execute E" 5 6
  by unfold_locales (auto dest!: Stop_gateway simp: keeps_gateway_def)

interpretation installs: posting_state "Install_Execute E" 6 7
  by unfold_locales (auto dest!: Install_gateway simp: keeps_gateway_def)

interpretation starts: posting_state "Start_Execute E" 7 8
  by unfold_locales (auto dest!: Start_gateway simp: keeps_gateway_def)

section \<open>The states of a run in order\<close>

text \<open>The ranks of the events of a state, and lists of states whose ranks do not decrease.\<close>

fun action_lo :: "action \<Rightarrow> nat" where
  "action_lo (Checking s) = 0"
| "action_lo (Initializing c) = 1"
| "action_lo Fetching = 3"
| "action_lo Stopping = 5"
| "action_lo Installing = 6"
| "action_lo Starting = 7"

fun action_hi :: "action \<Rightarrow> nat" where
  "action_hi (Checking s) = 1"
| "action_hi (Initializing c) = 3"
| "action_hi Fetching = 5"
| "action_hi Stopping = 6"
| "action_hi Installing = 7"
| "action_hi Starting = 8"

fun protocol :: "nat \<Rightarrow> action list \<Rightarrow> bool" where
  "protocol lo [] = (lo \<le> 8)"
| "protocol lo (s # ss) = (lo \<le> action_lo s \<and> protocol (action_hi s) ss)"

lemma Execute_success: "Execute E s u h = (Ret None, u', h') \<Longrightarrow> delivers E c (action_lo s) (action_hi s) h h'"
  by (cases s) (auto dest: checks.delivers_success inits.delivers_success fetches.delivers_success
      stops.delivers_success installs.delivers_success starts.delivers_success simp del: One_nat_def)

lemma Execute_end: "Execute E s u h = (out, u', h') \<Longrightarrow> delivers E c (action_lo s) 8 h h'"
  by (cases s) (auto dest: checks.delivers_end inits.delivers_end fetches.delivers_end
      stops.delivers_end installs.delivers_end starts.delivers_end simp del: One_nat_def)

lemma Execute_gateway: "Execute E s u h = (out, u', h') \<Longrightarrow> BaseURL (Client u') = BaseURL (Client u)"
  by (cases s) (auto dest: checks.same_gateway inits.same_gateway fetches.same_gateway
      stops.same_gateway installs.same_gateway starts.same_gateway)

lemma action_ranks: "action_lo s \<le> action_hi s" "action_lo s \<le> 8" "action_hi s \<le> 8"
  by (cases s; simp)+

lemma protocol_bound: "protocol lo ss \<Longrightarrow> lo \<le> 8"
  by (cases ss) (auto intro: le_trans [OF _ action_ranks(2)])

lemma call_handler_sel [simp]: "report_events (call_handler f n u h) = report_events h"
  "reqs (call_handler f n u h) = reqs h" "fs (call_handler f n u h) = fs h"
  "installed_versions (call_handler f n u h) = installed_versions h"
  by (simp_all add: call_handler_def split: option.splits)

lemma call_handler_delivers: "delivers E c lo hi h (call_handler f n u h)"
  by (rule delivers_same [where qs = "[]"]) simp_all

text \<open>One state of a run, up to the execution itself.\<close>

definition before_state :: "'w env \<Rightarrow> 'w runner_opts \<Rightarrow> (nat \<Rightarrow> nat) \<Rightarrow> action \<Rightarrow> update_ctx \<Rightarrow> 'w host \<Rightarrow> 'w host" where
  "before_state E o' sched s u h =
    flushes E (Client u) (sched (nat (CurrentStateNum u)))
      (call_handler (ro_PreStateHandler o') (action_name s) (u\<lparr>CurrentState := action_name s\<rparr>) h)"

lemma run_states_Cons:
  "run_states E o' sched (s # ss) u h =
    (case Execute E s (u\<lparr>CurrentState := action_name s\<rparr>) (before_state E o' sched s u h) of
       (Panicked, u, h) \<Rightarrow> (Panicked, u, h)
     | (Ret (Some err), u, h) \<Rightarrow> (Ret (Some (errorf (''failed at state '' @ action_name s) err)), u, h)
     | (Ret None, u, h) \<Rightarrow>
         run_states E o' sched ss (u\<lparr>CurrentStateNum := CurrentStateNum u + 1\<rparr>)
           (call_handler (ro_PostStateHandler o') (action_name s) u h))"
  unfolding run_states.simps before_state_def Let_def
  by (auto split: prod.splits outcome.splits option.splits)

declare run_states.simps(2) [simp del]

lemma before_state_delivers:
  assumes "rowid_order E" and "BaseURL c = BaseURL (Client u)"
  shows "delivers E c lo lo h (before_state E o' sched s u h)"
  unfolding before_state_def delivers_url [OF assms(2)]
  by (rule delivers_trans [OF call_handler_delivers flushes_delivers [OF assms(1)]]) simp_all

lemma run_states_delivers:
  assumes "rowid_order E" and "protocol lo ss" and "BaseURL c = BaseURL (Client u)"
    and "run_states E o' sched ss u h = (out, u', h')"
  shows "delivers E c lo 8 h h' \<and> BaseURL (Client u') = BaseURL c"
  using assms(2-4)
proof (induction ss arbitrary: lo u h)
  case (Cons s ss)
  let ?h = "before_state E o' sched s u h" and ?u = "u\<lparr>CurrentState := action_name s\<rparr>"
  have lo: "lo \<le> action_lo s" using Cons.prems(1) by simp
  have pre: "delivers E c lo (action_lo s) h ?h"
    by (rule delivers_mono [OF before_state_delivers [OF assms(1) Cons.prems(2)] _ lo]) simp
  obtain r u1 h1 where x: "Execute E s ?u ?h = (r, u1, h1)" by (metis prod_cases3)
  have url: "BaseURL (Client u1) = BaseURL c" using Execute_gateway [OF x] Cons.prems(2) by simp
  have fin: "delivers E c lo 8 h h1"
    by (rule delivers_trans [OF pre Execute_end [OF x] lo action_ranks(2)])
  show ?case
  proof (cases "r = Ret None")
    case True
    let ?h2 = "call_handler (ro_PostStateHandler o') (action_name s) u1 h1"
      and ?u2 = "u1\<lparr>CurrentStateNum := CurrentStateNum u1 + 1\<rparr>"
    have run: "run_states E o' sched ss ?u2 ?h2 = (out, u', h')"
      using Cons.prems(3) x True by (simp add: run_states_Cons)
    have 1: "delivers E c lo (action_hi s) h h1"
      by (rule delivers_trans [OF pre Execute_success [OF x [unfolded True]] lo action_ranks(1)])
    have "delivers E c lo (action_hi s) h ?h2"
      by (rule delivers_trans [OF 1 call_handler_delivers]) (auto intro: le_trans [OF lo action_ranks(1)])
    moreover have "delivers E c (action_hi s) 8 ?h2 h' \<and> BaseURL (Client u') = BaseURL c"
      using Cons.IH [of "action_hi s", OF _ _ run] Cons.prems(1) url by simp
    ultimately show ?thesis
      using delivers_trans lo action_ranks(1,3) le_trans by blast
  next
    case False
    then have "h' = h1 \<and> u' = u1"
      using Cons.prems(3) x by (auto simp: run_states_Cons split: outcome.splits option.splits)
    with fin url show ?thesis by simp
  qed
qed (auto simp: protocol_bound)

text \<open>A list of states behaves as its front followed, if that succeeds, by the rest.\<close>

lemma run_states_append:
  "run_states E o' sched (ss @ rest) u h =
    (case run_states E o' sched ss u h of
       (Ret None, u, h) \<Rightarrow> run_states E o' sched rest u h
     | r \<Rightarrow> r)"
  by (induction ss arbitrary: u h)
    (auto simp: run_states_Cons split: prod.splits outcome.splits option.splits)

section \<open>The whole run\<close>

lemma uploadNetInfo_reqs: "uploadNetInfo E c h = (r, h') \<Longrightarrow> \<exists>qs. reqs h' = reqs h @ qs"
  by (auto simp: uploadNetInfo_def Let_def split: sum.splits outcome.splits prod.splits if_splits
      dest!: read_file_frame Put_frame write_file_frame)

lemma uploadSotaToml_reqs:
  "uploadSotaToml E c h = (r, c', h') \<Longrightarrow> BaseURL c' = BaseURL c \<and> (\<exists>qs. reqs h' = reqs h @ qs)"
  by (auto simp: uploadSotaToml_def Let_def split: sum.splits option.splits prod.splits if_splits
      dest!: Put_frame write_file_frame)

lemma uploadHwinfo_reqs:
  "uploadHwinfo E c h = (r, c', h') \<Longrightarrow> BaseURL c' = BaseURL c \<and> (\<exists>qs. reqs h' = reqs h @ qs)"
  by (auto simp: uploadHwinfo_def Let_def split: sum.splits option.splits prod.splits if_splits
      dest!: http_frame write_file_frame)

lemma PutSysInfo_reqs:
  assumes "PutSysInfo E c h = (r, c', h')"
  shows "BaseURL c' = BaseURL c \<and> (\<exists>qs. reqs h' = reqs h @ qs)"
proof -
  obtain r1 h1 where 1: "uploadNetInfo E c h = (r1, h1)" by fastforce
  obtain e2 c2 h2 where 2: "uploadSotaToml E c h1 = (e2, c2, h2)" by (metis prod_cases3)
  obtain e3 c3 h3 where 3: "uploadHwinfo E c2 h2 = (e3, c3, h3)" by (metis prod_cases3)
  from assms 1 2 3 uploadNetInfo_reqs [OF 1] uploadSotaToml_reqs [OF 2] uploadHwinfo_reqs [OF 3]
  show ?thesis by (auto simp: PutSysInfo_def split: outcome.splits)
qed

lemma ReportAppStates_reqs:
  "ReportAppStates E c h = (r, c', h') \<Longrightarrow> BaseURL c' = BaseURL c \<and> (\<exists>qs. reqs h' = reqs h @ qs)"
  by (auto simp: ReportAppStates_def Let_def split: sum.splits prod.splits if_splits
      dest!: Post_frame write_file_frame)

lemma PutSysInfo_delivers: "PutSysInfo E c h = (r, c', h') \<Longrightarrow> delivers E d lo hi h h'"
  using PutSysInfo_reqs PutSysInfo_db delivers_same by metis

lemma ReportAppStates_delivers: "ReportAppStates E c h = (r, c', h') \<Longrightarrow> delivers E d lo hi h h'"
  using ReportAppStates_reqs ReportAppStates_db delivers_same by metis

lemma run_session_delivers:
  assumes "rowid_order E" and "protocol 0 (sm_states sm)"
    and "Client u = c" and "run_session E sched sm cfg c u h = (out, u', h')"
  shows "delivers E c 0 8 h h' \<and> BaseURL (Client u') = BaseURL c"
proof -
  obtain r1 c1 h1 where 1: "PutSysInfo E c h = (r1, c1, h1)" by (metis prod_cases3)
  obtain r2 c2 h2 where 2: "ReportAppStates E c1 h1 = (r2, c2, h2)" by (metis prod_cases3)
  obtain r3 u3 h3 where 3: "run_states E (sm_opts sm) sched (sm_states sm) (u\<lparr>Client := c2\<rparr>) h2 = (r3, u3, h3)"
    by (metis prod_cases3)
  obtain r4 c4 h4 where 4: "ReportAppStates E (Client u3) h3 = (r4, c4, h4)" by (metis prod_cases3)
  have url: "BaseURL c1 = BaseURL c" "BaseURL c2 = BaseURL c"
    using PutSysInfo_reqs [OF 1] ReportAppStates_reqs [OF 2] by simp_all
  note d1 = PutSysInfo_delivers [OF 1, of c 0 0] and d2 = ReportAppStates_delivers [OF 2, of c 0 0]
  have d12: "delivers E c 0 0 h h2" by (rule delivers_trans [OF d1 d2]) simp_all
  have d3: "delivers E c 0 8 h2 h3 \<and> BaseURL (Client u3) = BaseURL c"
    using run_states_delivers [OF assms(1,2) _ 3, of c] url by simp
  have d123: "delivers E c 0 8 h h3" using delivers_trans [OF d12 _, of 8 h3] d3 by simp
  have "delivers E c 0 8 h h4"
    by (rule delivers_trans [OF d123 ReportAppStates_delivers [OF 4, of c 8 8]]) simp_all
  moreover have "BaseURL c4 = BaseURL c" using ReportAppStates_reqs [OF 4] d3 by simp
  moreover have "delivers E c 0 8 h h1" using d1 by (rule delivers_mono) simp_all
  ultimately show ?thesis using assms(3,4) 1 2 3 4 d123 d3
    by (auto simp: run_session_def split: outcome.splits option.splits)
qed

lemma remove_file_frame: "remove_file E p h = (e, h') \<Longrightarrow> report_events h' = report_events h \<and> reqs h' = reqs h"
  by (auto simp: remove_file_def Let_def split: prod.splits option.splits dest!: io_frame)

lemma remove_files_frame: "report_events (remove_files E ps h) = report_events h \<and> reqs (remove_files E ps h) = reqs h"
  by (induction ps arbitrary: h) (auto split: prod.splits dest!: remove_file_frame)

lemma cleanup_frame: "report_events (cleanupLastStateIfRequire E cfg c h) = report_events h
    \<and> reqs (cleanupLastStateIfRequire E cfg c h) = reqs h"
  unfolding cleanupLastStateIfRequire_def Let_def
  by (auto split: prod.splits option.splits simp del: remove_files.simps simp: remove_files_frame dest!: io_frame)

lemma initSota_frame: "initSota E t c h = (c', h') \<Longrightarrow> report_events h' = report_events h \<and> reqs h' = reqs h"
  by (auto simp: initSota_def Let_def split: sum.splits prod.splits if_splits dest!: read_file_frame)

lemma initHwinfo_frame: "initHwinfo E c h = (r, c', h') \<Longrightarrow> report_events h' = report_events h \<and> reqs h' = reqs h"
  by (auto simp: initHwinfo_def Let_def split: sum.splits option.splits outcome.splits prod.splits if_splits
      dest!: read_file_frame)

lemma initAppStateReporter_frame:
  "initAppStateReporter E c h = (c', h') \<Longrightarrow> report_events h' = report_events h \<and> reqs h' = reqs h"
  by (auto simp: initAppStateReporter_def Let_def split: content.splits sum.splits option.splits prod.splits if_splits
      dest!: read_file_frame)

lemma NewGatewayClient_frame:
  assumes "NewGatewayClient E cfg apps t h = (r, cfg', h')" and "r \<noteq> Panicked"
  shows "report_events h' = report_events h \<and> reqs h' = reqs h"
  using assms
  by (auto simp: NewGatewayClient_def Let_def cleanup_frame split: option.splits prod.splits outcome.splits
      dest!: initSota_frame initHwinfo_frame initAppStateReporter_frame)

lemma CreateTargetsTable_frame: "CreateTargetsTable E h = (e, h') \<Longrightarrow> report_events h' = report_events h \<and> reqs h' = reqs h"
  by (auto simp: CreateTargetsTable_def split: prod.splits option.splits dest!: io_frame)

text \<open>After its initialization the queue is there, with what it held before.\<close>

lemma InitializeDatabase_queue:
  assumes "InitializeDatabase E h = (e, h')" and "report_events h = None \<or> queue_ok h"
  shows "reqs h' = reqs h \<and> queued h' = queued h \<and> (e = None \<longrightarrow> queue_ok h')"
  using assms
  by (auto simp: InitializeDatabase_def queued_def queue_ok_def rows_ok_def
      split: prod.splits option.splits dest!: CreateTargetsTable_frame CreateEventsTable_frame)

text \<open>The check of an operation that only goes on with an update.\<close>

lemma resume_check_refuses:
  assumes "states \<noteq> []"
    and "case x_GetCurrentUpdate E (ext h) of
        Inl e \<Rightarrow> errors_is e ErrUpdateNotFound \<and> expected = ErrNoUpdateInProgress
      | Inr r \<Rightarrow> u_State (x_Status E r (ext h)) \<notin> set states \<and> expected = ErrInvalidActionForState"
  shows "\<exists>e u'. Check_Execute E (resume_check name states tuf) u h = (Ret (Some e), u', h)
    \<and> (\<forall>x. errors_is e x \<longleftrightarrow> x = expected)"
  using assms
  by (cases "x_GetCurrentUpdate E (ext h)") (auto simp: Check_Execute_def resume_check_def is_one_of_def Let_def)

text \<open>So the operations built on it stop there.\<close>

lemma resume_refused:
  assumes "ss = install_states o' \<or> ss = start_states o'"
    and "h1 = before_state E ro sched (hd ss) u h"
    and "case x_GetCurrentUpdate E (ext h1) of
        Inl e \<Rightarrow> errors_is e ErrUpdateNotFound \<and> expected = ErrNoUpdateInProgress
      | Inr r \<Rightarrow> expected = ErrInvalidActionForState \<and> u_State (x_Status E r (ext h1)) \<notin>
          (if ss = install_states o' then {StateFetched, StateInstalling}
           else {StateInstalled, StateStarting, StateStarted, StateCompleting})"
  shows "\<exists>e u'. run_states E ro sched ss u h = (Ret (Some e), u', h1) \<and> (\<forall>x. errors_is e x \<longleftrightarrow> x = expected)"
proof -
  have ne: "install_states o' \<noteq> start_states o'" by (simp add: install_states_def start_states_def)
  obtain name states rest where ss: "ss = Checking (resume_check name states (uo_EnableTUF o')) # rest"
    and ok: "(if ss = install_states o' then {StateFetched, StateInstalling}
           else {StateInstalled, StateStarting, StateStarted, StateCompleting}) = set states" "states \<noteq> []"
    using assms(1) ne by (elim disjE) (simp_all add: install_states_def start_states_def)
  from assms(3) obtain e u' where
    "Check_Execute E (resume_check name states (uo_EnableTUF o')) (u\<lparr>CurrentState := ''Checking''\<rparr>) h1 = (Ret (Some e), u', h1)"
    "\<forall>x. errors_is e x \<longleftrightarrow> x = expected"
    using resume_check_refuses [OF ok(2), where E = E and h = h1 and expected = expected and name = name and tuf = "uo_EnableTUF o'"
        and u = "u\<lparr>CurrentState := ''Checking''\<rparr>"]
    unfolding ok(1) by (auto split: sum.splits)
  then show ?thesis using assms(2) unfolding ss by (simp add: run_states_Cons)
qed

text \<open>With a client of its own caller a run always gets as far as to a context.\<close>

lemma Run_has_context:
  "ro_GatewayClient (sm_opts sm) = Some c \<Longrightarrow> \<exists>out u' h'. Run E sched sm cfg h = (out, Some u', h')"
  by (auto simp: Run_def Let_def split: prod.splits option.splits)

definition quiet_opts :: "gw_client \<Rightarrow> 'w runner_opts" where
  "quiet_opts c = \<lparr>ro_EventSender = False, ro_GatewayClient = Some c, ro_PreStateHandler = None, ro_PostStateHandler = None\<rparr>"

lemma before_state_quiet [simp]: "before_state E (quiet_opts c) (\<lambda>n. 0) s u h = h"
  by (simp add: before_state_def quiet_opts_def call_handler_def)

section \<open>Properties\<close>

lemma operations_protocol:
  "ss \<in> {update_states v o', fetch_states v o', install_states o', start_states o', check_states o'} \<Longrightarrow> protocol 0 ss"
  by (auto simp: update_states_def fetch_states_def install_states_def start_states_def check_states_def)



text \<open>
  C15: a run stops at the first state that fails. Its answer is that state's error with the name of
  the state in front (so that \<open>errors.Is\<close> finds the same causes in it), the host is left as that
  state left it, and the states behind it are not executed; a panic ends the run the same way.
\<close>

theorem run_stops:
  assumes "run_states E o' sched front u h = (Ret None, u1, h1)"
    and "Execute E s (u1\<lparr>CurrentState := action_name s\<rparr>) (before_state E o' sched s u1 h1) = (out, u2, h2)"
    and "out \<noteq> Ret None"
  shows "\<exists>out'. run_states E o' sched (front @ s # rest) u h = (out', u2, h2)
    \<and> (case out of
         Panicked \<Rightarrow> out' = Panicked
       | Ret None \<Rightarrow> False
       | Ret (Some e) \<Rightarrow> \<exists>e'. out' = Ret (Some e') \<and> (\<forall>x. errors_is e' x = errors_is e x)
           \<and> err_text e' = ''failed at state '' @ action_name s @ '': '' @ err_text e)"
  using assms by (auto simp: run_states_append run_states_Cons errorf_def split: outcome.splits option.splits)

theorem run_stops_witness:
  defines "E \<equiv> (undefined :: unit env)\<lparr>x_Status := \<lambda>r w. (undefined :: update_rec)\<lparr>u_State := StateFetched\<rparr>,
     x_StateString := \<lambda>s. ''fetched''\<rparr>"
  defines "u \<equiv> (initial_ctx undefined undefined 2)\<lparr>UpdateRunner := Some 1\<rparr>"
  defines "h \<equiv> \<lparr>ext = (), fs = Map.empty, report_events = None, installed_versions = None, reqs = []\<rparr>"
  shows "\<exists>e u' h'. run_states E (quiet_opts undefined) (\<lambda>n. 0) ([] @ Starting # [Fetching]) u h = (Ret (Some e), u', h')
    \<and> err_text e = ''failed at state Starting: cannot start or complete update in state fetched''"
proof -
  have x: "Execute E Starting (u\<lparr>CurrentState := action_name Starting\<rparr>)
      (before_state E (quiet_opts undefined) (\<lambda>n. 0) Starting u h)
    = (Ret (Some (ErrorString ''cannot start or complete update in state fetched'')), u\<lparr>CurrentState := ''Starting''\<rparr>, h)"
    by (simp add: Start_Execute_def E_def u_def initial_ctx_def is_one_of_def installed_states_def)
  have "run_states E (quiet_opts undefined) (\<lambda>n. 0) [] u h = (Ret None, u, h)" by simp
  from run_stops [OF this x, of "[Fetching]"] show ?thesis by auto
qed

text \<open>
  C16: \<open>Install\<close> and \<open>Start\<close> never begin an update. When none is under way, or the one under way is
  in a state that is not theirs, they end with the error for that, and no other cause, and leave the host as the check
  found it: nothing is queued, requested or handed to the library.
\<close>

theorem resume_only:
  assumes "ss = install_states o' \<or> ss = start_states o'"
    and "h1 = before_state E ro sched (hd ss) u h"
    and "case x_GetCurrentUpdate E (ext h1) of
        Inl e \<Rightarrow> errors_is e ErrUpdateNotFound \<and> expected = ErrNoUpdateInProgress
      | Inr r \<Rightarrow> expected = ErrInvalidActionForState \<and> u_State (x_Status E r (ext h1)) \<notin>
          (if ss = install_states o' then {StateFetched, StateInstalling}
           else {StateInstalled, StateStarting, StateStarted, StateCompleting})"
  shows "\<exists>e u'. run_states E ro sched ss u h = (Ret (Some e), u', h1) \<and> (\<forall>x. errors_is e x \<longleftrightarrow> x = expected)"
  using assms by (rule resume_refused)

theorem resume_only_witness:
  defines "E \<equiv> (undefined :: unit env)\<lparr>x_GetCurrentUpdate := \<lambda>w. Inl (Sentinel ErrUpdateNotFound)\<rparr>"
  defines "h \<equiv> \<lparr>ext = (), fs = Map.empty, report_events = None, installed_versions = None, reqs = []\<rparr>"
  shows "\<exists>e u'. run_states E (quiet_opts undefined) (\<lambda>n. 0) (install_states (zero_opts :: unit update_opts)) (initial_ctx undefined undefined 5) h
      = (Ret (Some e), u', h) \<and> errors_is e ErrNoUpdateInProgress"
proof -
  have "\<exists>e u'. run_states E (quiet_opts undefined) (\<lambda>n. 0) (install_states (zero_opts :: unit update_opts)) (initial_ctx undefined undefined 5) h
      = (Ret (Some e), u', before_state E (quiet_opts undefined) (\<lambda>n. 0) (hd (install_states (zero_opts :: unit update_opts))) (initial_ctx undefined undefined 5) h)
      \<and> errors_is e ErrNoUpdateInProgress"
    by (rule exE [OF resume_only [where ss = "install_states zero_opts" and o' = "zero_opts :: unit update_opts" and E = E
          and ro = "quiet_opts undefined" and sched = "\<lambda>n. 0" and u = "initial_ctx undefined undefined 5" and h = h
          and expected = ErrNoUpdateInProgress, OF disjI1 [OF refl] refl]]) (auto simp: E_def)
  then show ?thesis by simp
qed

end
