(* ===== verification/Daemon.thy ===== *)
theory Daemon
  imports Runner
begin

text \<open>
  The daemon of the command line: \<open>cmd/fioup/error.go\<close> (exit codes), \<open>config_check.go\<close> (the check-in
  of the device configuration) and \<open>daemon.go\<close> (the loop that polls for updates). Leaving the process
  is a value, \<open>Exit\<close> with its code or \<open>Crash\<close>; the loop, which has no other end, runs for a given
  number of rounds.
\<close>

section \<open>Exit codes\<close>

definition errorsMap :: "(sentinel \<times> int) list" where
  "errorsMap =
    [(ErrInvalidActionForState, 10), (ErrMetaUpdateFailed, 20), (ErrNoMatchingTarget, 21),
     (ErrTargetNotFound, 22), (ErrInvalidOngoingUpdate, 23), (ErrNoUpdateInProgress, 24),
     (ErrCheckNoUpdate, 25), (ErrNewerVersionIsAvailable, 26), (ErrInitFailed, 30),
     (ErrFetchFailed, 40), (ErrFetchNoSpace, 41), (ErrStopAppsFailed, 50), (ErrInstallFailed, 60),
     (ErrStartFailed, 70)]"

text \<open>The first argument is the order in which the Go map is ranged over.\<close>

fun errorToExitCode :: "(sentinel \<times> int) list \<Rightarrow> goerr option \<Rightarrow> int" where
  "errorToExitCode order None = 0"
| "errorToExitCode order (Some err) =
     (case find (\<lambda>(s, code). errors_is err s) order of None \<Rightarrow> 1 | Some (s, code) \<Rightarrow> code)"

datatype 'a exit = Go 'a | Exit int | Crash

section \<open>The environment of the daemon\<close>

text \<open>
  Beside the environment of the updates the daemon has the fioconfig library, a wait that ends with
  an interrupt, a SIGHUP or the time, and the handlers that print. \<open>y_order\<close> is the order of the
  map of the exit codes, \<open>y_sched\<close> the schedule of the flushes in the run of an update, \<open>y_last\<close> the
  number of flushes of the sender until it has stopped.
\<close>

datatype wake = Interrupted | HangUp | TimedOut

record 'w daemon_env =
  y_wait :: "int \<Rightarrow> 'w \<Rightarrow> wake \<times> 'w"
  y_MkdirAll :: "string \<Rightarrow> 'w \<Rightarrow> goerr option \<times> 'w"
  y_NewApp :: "toml \<Rightarrow> string \<Rightarrow> bool \<Rightarrow> 'w \<Rightarrow> goerr option"
  y_Extract :: "'w \<Rightarrow> (bool \<times> goerr option) \<times> 'w"
  y_CheckIn :: "'w \<Rightarrow> (bool \<times> goerr option) \<times> 'w"
  y_order :: "(sentinel \<times> int) list"
  y_sched :: "'w \<Rightarrow> nat \<Rightarrow> nat"
  y_last :: "'w \<Rightarrow> nat"
  y_pre :: "'w handler"
  y_post :: "'w handler"

definition DieNotNil :: "'w daemon_env \<Rightarrow> goerr option \<Rightarrow> 'a \<Rightarrow> 'a exit" where
  "DieNotNil D e x = (if e = None then Go x else Exit (errorToExitCode (y_order D) e))"

section \<open>The device configuration\<close>

record fioconfig_opts =
  secretsDir :: string
  unsafeHandlers :: bool
  configExtracted :: bool

text \<open>The secrets directory is there, or is made, and a file can be written in it.\<close>

definition AssertCanExtract ::
  "'w env \<Rightarrow> 'w daemon_env \<Rightarrow> fioconfig_opts \<Rightarrow> 'w host \<Rightarrow> unit exit \<times> 'w host" where
  "AssertCanExtract E D opts h =
    (if secretsDir opts = [] then (DieNotNil D (Some (ErrorString ''`secrets-dir` not configured'')) (), h)
     else
       (let (made, h) =
          (case x_Stat E (secretsDir opts) (ext h) of
             Inl err \<Rightarrow>
               if errors_is err ErrNotExist
               then (let (e, w) = y_MkdirAll D (secretsDir opts) (ext h) in (e, h\<lparr>ext := w\<rparr>))
               else (None, h)
           | Inr info \<Rightarrow> (None, h))
        in case DieNotNil D made () of
             Go _ \<Rightarrow>
               (let testfile = path_join [secretsDir opts, ''.test-writeable''];
                    (e, h) = write_file E testfile (Raw '''') h
                in case DieNotNil D e () of
                     Go _ \<Rightarrow> (let (_, h) = remove_file E testfile h in (Go (), h))
                   | r \<Rightarrow> (r, h))
           | r \<Rightarrow> (r, h)))"

text \<open>
  The answer of the extraction is overwritten by that of the check-in, so what it changed is not
  seen by the caller. Both errors of the check-in are returned, the one for an unchanged
  configuration too.
\<close>

definition configCheck ::
  "'w env \<Rightarrow> 'w daemon_env \<Rightarrow> fioconfig_opts \<Rightarrow> 'w host
   \<Rightarrow> ((bool \<times> goerr option) \<times> fioconfig_opts) exit \<times> 'w host" where
  "configCheck E D opts h =
    (case AssertCanExtract E D opts h of
       (Go _, h) \<Rightarrow>
         (let ((changed, err), opts, h) =
            (if \<not> configExtracted opts then
               (let ((changed, err), w) = y_Extract D (ext h)
                in ((changed, err), (if err = None then opts\<lparr>configExtracted := True\<rparr> else opts), h\<lparr>ext := w\<rparr>))
             else ((False, None), opts, h))
          in if err \<noteq> None then (Go ((changed, err), opts), h)
             else (let (r, w) = y_CheckIn D (ext h) in (Go (r, opts), h\<lparr>ext := w\<rparr>)))
     | (Exit n, h) \<Rightarrow> (Exit n, h)
     | (Crash, h) \<Rightarrow> (Crash, h))"

section \<open>The updater\<close>

record updater =
  up_configEnabled :: bool
  up_fioconfig :: fioconfig_opts
  up_config :: config
  up_gw :: gw_client
  up_sender :: bool
  up_sleepInterval :: int

definition Close :: "'w env \<Rightarrow> 'w daemon_env \<Rightarrow> updater \<Rightarrow> 'w host \<Rightarrow> 'w host" where
  "Close E D u h = (if up_sender u then flushes E (up_gw u) (y_last D (ext h)) h else h)"

definition polling_seconds :: "toml \<Rightarrow> int" where
  "polling_seconds t =
    (case atoi (t_GetDefault t ''uptane.polling_seconds'' ''300'') of
       (n, None) \<Rightarrow> if n \<le> 0 then 300 else n
     | (n, Some err) \<Rightarrow> 300)"

text \<open>A \<open>time.Duration\<close> is an \<open>int64\<close> of nanoseconds, and its multiplication wraps.\<close>

definition sleep_interval :: "toml \<Rightarrow> int" where
  "sleep_interval t = wrap64 (polling_seconds t * 1000000000)"

definition reload ::
  "'w env \<Rightarrow> 'w daemon_env \<Rightarrow> string list \<Rightarrow> bool \<Rightarrow> updater \<Rightarrow> 'w host \<Rightarrow> updater exit \<times> 'w host" where
  "reload E D paths reloadConfig u h =
    (let h = Close E D u h;
         (cfg, h) = (if reloadConfig then NewConfig E paths h else (Inr (up_config u), h))
     in case cfg of
          Inl err \<Rightarrow> (DieNotNil D (Some err) u, h)
        | Inr cfg \<Rightarrow>
            (case NewGatewayClient E cfg None '''' h of
               (Panicked, cfg, h) \<Rightarrow> (Crash, h)
             | (Ret (Inl err), cfg, h) \<Rightarrow> (DieNotNil D (Some err) u, h)
             | (Ret (Inr gw), cfg, h) \<Rightarrow>
                 (let u = u\<lparr>up_config := cfg, up_gw := gw, up_sender := True,
                            up_sleepInterval := sleep_interval (tomlConfig cfg)\<rparr>
                  in if up_configEnabled u then
                       (case AssertCanExtract E D (up_fioconfig u) h of
                          (Go _, h) \<Rightarrow>
                            (DieNotNil D (y_NewApp D (tomlConfig cfg) (secretsDir (up_fioconfig u))
                               (unsafeHandlers (up_fioconfig u)) (ext h)) u, h)
                        | (Exit n, h) \<Rightarrow> (Exit n, h)
                        | (Crash, h) \<Rightarrow> (Crash, h))
                     else (Go u, h))))"

definition NewUpdater ::
  "'w env \<Rightarrow> 'w daemon_env \<Rightarrow> bool \<Rightarrow> fioconfig_opts \<Rightarrow> config \<Rightarrow> gw_client \<Rightarrow> 'w host \<Rightarrow> updater exit \<times> 'w host" where
  "NewUpdater E D configEnabled opts cfg no_client h =
    reload E D [] False
      \<lparr>up_configEnabled = configEnabled, up_fioconfig = opts, up_config = cfg, up_gw = no_client,
       up_sender = False, up_sleepInterval = 0\<rparr> h"

text \<open>For end-to-end tests the daemon leaves after one round.\<close>

definition checkForCI :: "'w env \<Rightarrow> 'w daemon_env \<Rightarrow> updater \<Rightarrow> goerr option \<Rightarrow> 'w host \<Rightarrow> unit exit \<times> 'w host" where
  "checkForCI E D u err h =
    (if x_getenv E ''FIOUP_E2E_RUNONCE'' (ext h) = ''1''
     then (case DieNotNil D err () of Go _ \<Rightarrow> (Exit 0, Close E D u h) | r \<Rightarrow> (r, Close E D u h))
     else (Go (), h))"

definition sleep :: "'w env \<Rightarrow> 'w daemon_env \<Rightarrow> updater \<Rightarrow> int \<Rightarrow> 'w host \<Rightarrow> bool exit \<times> 'w host" where
  "sleep E D u interval h =
    (case y_wait D interval (ext h) of
       (Interrupted, w) \<Rightarrow> (Exit 0, Close E D u (h\<lparr>ext := w\<rparr>))
     | (HangUp, w) \<Rightarrow> (Go True, h\<lparr>ext := w\<rparr>)
     | (TimedOut, w) \<Rightarrow> (Go False, h\<lparr>ext := w\<rparr>))"

definition checkConfig ::
  "'w env \<Rightarrow> 'w daemon_env \<Rightarrow> string list \<Rightarrow> updater \<Rightarrow> 'w host \<Rightarrow> updater exit \<times> 'w host" where
  "checkConfig E D paths u h =
    (if up_configEnabled u then
       (case configCheck E D (up_fioconfig u) h of
          (Go ((changed, err), opts), h) \<Rightarrow>
            (let u = u\<lparr>up_fioconfig := opts\<rparr>
             in if changed then
                  (case sleep E D u 1000000000 h of
                     (Go True, h) \<Rightarrow> reload E D paths True u h
                   | (Go False, h) \<Rightarrow> (Go u, h)
                   | (Exit n, h) \<Rightarrow> (Exit n, h)
                   | (Crash, h) \<Rightarrow> (Crash, h))
                else (Go u, h))
        | (Exit n, h) \<Rightarrow> (Exit n, h)
        | (Crash, h) \<Rightarrow> (Crash, h))
     else (Go u, h))"

definition daemon_opts :: "'w daemon_env \<Rightarrow> updater \<Rightarrow> ('w update_opts \<Rightarrow> 'w update_opts) list" where
  "daemon_opts D u =
    [WithGatewayClient (up_gw u), WithEventSender, WithRequireLatest True, WithMaxAttempts 3,
     WithPreStateHandler (y_pre D), WithPostStateHandler (y_post D)]"

text \<open>
  The result is whether to go on without waiting, and the error of the update. The client is shared
  with the run, which changes its headers.
\<close>

definition checkUpdates ::
  "'w env \<Rightarrow> 'w daemon_env \<Rightarrow> updater \<Rightarrow> 'w host \<Rightarrow> ((bool \<times> goerr option) \<times> updater) exit \<times> 'w host" where
  "checkUpdates E D u h =
    (let (out, ctx, h) = Update E (y_sched D (ext h)) (up_config u) (-1) (daemon_opts D u) h;
         u = (case ctx of None \<Rightarrow> u | Some c \<Rightarrow> u\<lparr>up_gw := Client c\<rparr>)
     in case out of
          Panicked \<Rightarrow> (Crash, h)
        | Ret None \<Rightarrow> (Go ((False, None), u), h)
        | Ret (Some err) \<Rightarrow>
            if errors_is err ErrNewerVersionIsAvailable then
              (let ((_, e), h) = Cancel E h in (Go ((e = None, Some err), u), h))
            else if errors_is err ErrStartFailed then (Go ((True, Some err), u), h)
            else (Go ((False, Some err), u), h))"

section \<open>The loop\<close>

definition daemon_round ::
  "'w env \<Rightarrow> 'w daemon_env \<Rightarrow> string list \<Rightarrow> updater \<Rightarrow> 'w host \<Rightarrow> updater exit \<times> 'w host" where
  "daemon_round E D paths u h =
    (case checkConfig E D paths u h of
       (Go u, h) \<Rightarrow>
         (case checkUpdates E D u h of
            (Go ((nowait, err), u), h) \<Rightarrow>
              (case checkForCI E D u err h of
                 (Go _, h) \<Rightarrow>
                   if nowait then (Go u, h)
                   else (case sleep E D u (up_sleepInterval u) h of
                      (Go True, h) \<Rightarrow> reload E D paths True u h
                    | (Go False, h) \<Rightarrow> (Go u, h)
                    | (Exit n, h) \<Rightarrow> (Exit n, h)
                    | (Crash, h) \<Rightarrow> (Crash, h))
               | (Exit n, h) \<Rightarrow> (Exit n, h)
               | (Crash, h) \<Rightarrow> (Crash, h))
          | (Exit n, h) \<Rightarrow> (Exit n, h)
          | (Crash, h) \<Rightarrow> (Crash, h))
     | r \<Rightarrow> r)"

fun daemon_rounds ::
  "'w env \<Rightarrow> 'w daemon_env \<Rightarrow> string list \<Rightarrow> nat \<Rightarrow> updater \<Rightarrow> 'w host \<Rightarrow> updater exit \<times> 'w host" where
  "daemon_rounds E D paths 0 u h = (Go u, h)"
| "daemon_rounds E D paths (Suc n) u h =
     (case daemon_round E D paths u h of
        (Go u, h) \<Rightarrow> daemon_rounds E D paths n u h
      | r \<Rightarrow> r)"

section \<open>Lemmas\<close>

lemma find_in_order:
  assumes "find P order = Some x" and "mset order = mset xs"
  shows "x \<in> set xs \<and> P x"
  using find_Some_set [OF assms(1)] assms(2) by (metis set_mset_mset)

lemma some_order:
  assumes "x \<in> set xs" and "P x"
  shows "\<exists>order. mset order = mset xs \<and> find P order = Some x"
  using assms by (intro exI [of _ "x # remove1 x xs"]) simp

lemma polling_seconds_pos: "0 < polling_seconds t"
  by (auto simp: polling_seconds_def split: prod.splits option.splits)

lemma sleep_timeout: "fst (y_wait D i (ext h)) = TimedOut \<Longrightarrow> \<exists>h'. sleep E D u i h = (Go False, h')"
  by (cases "y_wait D i (ext h)") (simp add: sleep_def)

lemma checkUpdates_goes_on:
  assumes "fst (Update E (y_sched D (ext h)) (up_config u) (-1) (daemon_opts D u) h) \<noteq> Panicked"
  shows "\<exists>nowait err u' h'. checkUpdates E D u h = (Go ((nowait, err), u'), h') \<and> up_configEnabled u' = up_configEnabled u
    \<and> up_fioconfig u' = up_fioconfig u \<and> up_sleepInterval u' = up_sleepInterval u"
proof -
  obtain out ctx h1 where r: "Update E (y_sched D (ext h)) (up_config u) (-1) (daemon_opts D u) h = (out, ctx, h1)"
    by (metis prod_cases3)
  obtain c h2 where c: "Cancel E h1 = (c, h2)" by fastforce
  from assms r c show ?thesis
    by (cases c) (auto simp: checkUpdates_def split: outcome.splits option.splits)
qed

text \<open>With the device configuration enabled the directory of the secrets has to be there and writable.\<close>

definition secrets_usable :: "'w env \<Rightarrow> updater \<Rightarrow> bool" where
  "secrets_usable E u \<longleftrightarrow> (up_configEnabled u \<longrightarrow> secretsDir (up_fioconfig u) \<noteq> []
     \<and> (\<forall>d w. \<exists>i. x_Stat E d w = Inr i) \<and> (\<forall>p c w. fst (x_write E p c w) = None))"

lemma AssertCanExtract_ok:
  assumes "secretsDir opts \<noteq> []" and "\<forall>d w. \<exists>i. x_Stat E d w = Inr i" and "\<forall>p c w. fst (x_write E p c w) = None"
  shows "\<exists>h'. AssertCanExtract E D opts h = (Go (), h')"
proof -
  obtain i where i: "x_Stat E (secretsDir opts) (ext h) = Inr i" using assms(2) by blast
  let ?test = "path_join [secretsDir opts, ''.test-writeable'']"
  obtain w where "x_write E ?test (Raw '''') (ext h) = (None, w)" using assms(3) by (metis prod.collapse)
  then obtain h1 where w: "write_file E ?test (Raw '''') h = (None, h1)" by (simp add: write_file_def)
  obtain e2 h2 where "remove_file E ?test h1 = (e2, h2)" by fastforce
  then show ?thesis using assms(1) i w by (simp add: AssertCanExtract_def DieNotNil_def Let_def)
qed

lemma configCheck_goes_on:
  assumes "AssertCanExtract E D opts h = (Go (), h1)"
  shows "\<exists>changed err opts' h2. configCheck E D opts h = (Go ((changed, err), opts'), h2) \<and> secretsDir opts' = secretsDir opts"
proof (cases "configExtracted opts")
  case True
  obtain c e w where "y_CheckIn D (ext h1) = ((c, e), w)" by (metis prod.collapse)
  with True assms show ?thesis by (simp add: configCheck_def)
next
  case False
  obtain c e w where x: "y_Extract D (ext h1) = ((c, e), w)" by (metis prod.collapse)
  obtain c2 e2 w2 where "y_CheckIn D w = ((c2, e2), w2)" by (metis prod.collapse)
  with False assms x show ?thesis by (cases e) (simp_all add: configCheck_def)
qed

lemma checkConfig_goes_on:
  assumes "secrets_usable E u" and "\<forall>i w. fst (y_wait D i w) = TimedOut"
  shows "\<exists>u' h'. checkConfig E D paths u h = (Go u', h') \<and> secrets_usable E u' \<and> up_sleepInterval u' = up_sleepInterval u"
proof (cases "up_configEnabled u")
  case False
  with assms(1) show ?thesis by (simp add: checkConfig_def)
next
  case True
  then have ok: "secretsDir (up_fioconfig u) \<noteq> []" "\<forall>d w. \<exists>i. x_Stat E d w = Inr i" "\<forall>p c w. fst (x_write E p c w) = None"
    using assms(1) by (simp_all add: secrets_usable_def)
  obtain h1 where a: "AssertCanExtract E D (up_fioconfig u) h = (Go (), h1)" using AssertCanExtract_ok [OF ok] by blast
  obtain changed err opts h2 where c: "configCheck E D (up_fioconfig u) h = (Go ((changed, err), opts), h2)"
    and o: "secretsDir opts = secretsDir (up_fioconfig u)"
    using configCheck_goes_on [OF a] by blast
  obtain h3 where "sleep E D (u\<lparr>up_fioconfig := opts\<rparr>) 1000000000 h2 = (Go False, h3)"
    using sleep_timeout assms(2) by blast
  with True c o ok show ?thesis by (simp add: checkConfig_def secrets_usable_def Let_def)
qed

lemma round_goes_on:
  assumes "secrets_usable E u" and "\<forall>w. x_getenv E ''FIOUP_E2E_RUNONCE'' w \<noteq> ''1''"
    and "\<forall>i w. fst (y_wait D i w) = TimedOut"
    and "\<forall>sched cfg opts h. fst (Update E sched cfg (-1) opts h) \<noteq> Panicked"
  shows "\<exists>u' h'. daemon_round E D paths u h = (Go u', h') \<and> secrets_usable E u'
    \<and> up_sleepInterval u' = up_sleepInterval u"
proof -
  from checkConfig_goes_on [OF assms(1,3)] obtain u0 h0 where
    0: "checkConfig E D paths u h = (Go u0, h0)" "secrets_usable E u0" "up_sleepInterval u0 = up_sleepInterval u" by blast
  from checkUpdates_goes_on [of E D h0 u0] assms(4) obtain nowait err u1 h1 where
    1: "checkUpdates E D u0 h0 = (Go ((nowait, err), u1), h1)" "up_configEnabled u1 = up_configEnabled u0"
      "up_fioconfig u1 = up_fioconfig u0" "up_sleepInterval u1 = up_sleepInterval u0" by blast
  obtain h2 where 2: "sleep E D u1 (up_sleepInterval u1) h1 = (Go False, h2)"
    using sleep_timeout assms(3) by blast
  show ?thesis using assms(2) 0 1 2 by (simp add: daemon_round_def checkForCI_def secrets_usable_def)
qed

section \<open>Properties\<close>

text \<open>
  C28: the exit codes. The program leaves with code 0 exactly when there is no error. For an error
  the codes that can come out, over all the orders in which the Go map may be ranged over, are those
  of the listed causes that \<open>errors.Is\<close> finds in it, and 1 when it finds none: the code is
  determined as soon as an error has one listed cause, and not when it has several.
\<close>

theorem exit_code_exact:
  "(errorToExitCode order e = 0 \<and> mset order = mset errorsMap \<longleftrightarrow> e = None \<and> mset order = mset errorsMap)
   \<and> ((\<exists>order. mset order = mset errorsMap \<and> errorToExitCode order (Some err) = n) \<longleftrightarrow>
     (if \<exists>s code. (s, code) \<in> set errorsMap \<and> errors_is err s
      then \<exists>s. (s, n) \<in> set errorsMap \<and> errors_is err s else n = 1))"
proof
  have "code \<noteq> 0" if "(s, code) \<in> set errorsMap" for s code using that by (auto simp: errorsMap_def)
  then show "errorToExitCode order e = 0 \<and> mset order = mset errorsMap \<longleftrightarrow> e = None \<and> mset order = mset errorsMap"
    by (cases e) (auto split: option.splits dest!: find_in_order)
next
  let ?P = "\<lambda>(s, code). errors_is err s"
  show "(\<exists>order. mset order = mset errorsMap \<and> errorToExitCode order (Some err) = n) \<longleftrightarrow>
     (if \<exists>s code. (s, code) \<in> set errorsMap \<and> errors_is err s
      then \<exists>s. (s, n) \<in> set errorsMap \<and> errors_is err s else n = 1)"
  proof (cases "\<exists>s code. (s, code) \<in> set errorsMap \<and> errors_is err s")
    case False
    then have "find ?P order = None" if "mset order = mset errorsMap" for order
      using that by (auto simp: find_None_all dest: mset_eq_setD)
    with False show ?thesis by (auto intro: exI [of _ errorsMap])
  next
    case True
    have "\<exists>s. (s, n) \<in> set errorsMap \<and> errors_is err s"
      if o: "mset order = mset errorsMap" and n: "errorToExitCode order (Some err) = n" for order
    proof -
      have "find ?P order \<noteq> None" using True o by (auto simp: find_None_all dest: mset_eq_setD)
      then obtain s code where "find ?P order = Some (s, code)" by auto
      with n find_in_order [OF this o] show ?thesis by auto
    qed
    moreover have "\<exists>order. mset order = mset errorsMap \<and> errorToExitCode order (Some err) = n"
      if "(s, n) \<in> set errorsMap" and "errors_is err s" for s
      using some_order [OF that(1), of ?P] that(2) by auto
    ultimately show ?thesis using True by (simp only: if_True) blast
  qed
qed

text \<open>
  The time between two checks. A text that is no number, or not a positive one, gives the
  default of 300 seconds; any other number of seconds up to 9223372036 is taken as it is.
\<close>

theorem sleep_interval_bounds:
  assumes "atoi (t_GetDefault t ''uptane.polling_seconds'' ''300'') = (n, err)"
  shows "(err \<noteq> None \<or> n \<le> 0 \<longrightarrow> sleep_interval t = 300000000000)
    \<and> (err = None \<and> 0 < n \<and> n \<le> 9223372036 \<longrightarrow> sleep_interval t = n * 1000000000)"
  using assms by (auto simp: sleep_interval_def polling_seconds_def wrap64_def split: option.splits)

theorem sleep_interval_bounds_witness:
  "sleep_interval \<lparr>t_Has = \<lambda>k. True, t_Get = \<lambda>k. ''60'', t_GetDefault = \<lambda>k d. ''60''\<rparr> = 60000000000"
proof -
  have "atoi ''60'' = (60, None)" by (simp add: atoi_def parse_uint_def digit_of_def)
  with sleep_interval_bounds [of "\<lparr>t_Has = \<lambda>k. True, t_Get = \<lambda>k. ''60'', t_GetDefault = \<lambda>k d. ''60''\<rparr>"]
  show ?thesis by simp
qed



text \<open>A number of seconds beyond that makes the multiplication wrap to a wait that is over at once.\<close>

lemma sleep_interval_wraps:
  "atoi (t_GetDefault t ''uptane.polling_seconds'' ''300'') = (9223372037, None) \<Longrightarrow> sleep_interval t < 0"
  by (simp add: sleep_interval_def polling_seconds_def wrap64_def)

end
