(* ===== verification/ApiDiff.thy ===== *)
theory ApiDiff
  imports CheckState "HOL-Library.AList"
begin

text \<open>
  \<open>pkg/api/diff.go\<close>: what an update from one version to another would have to download. The trees
  of the apps come from the composeapp library: the nodes in the order in which \<open>Walk\<close> visits them,
  with the error \<open>Walk\<close> ends with, and the runtime size of a blob of an app.
\<close>

section \<open>Data\<close>

record tree_node =
  n_Digest :: string
  n_Size :: "64 word"
  n_Ref :: string

record app_tree =
  at_Nodes :: "tree_node list"
  at_WalkError :: "goerr option"
  at_RuntimeSize :: "tree_node \<Rightarrow> 64 word"

record diff_blob =
  df_Node :: tree_node
  df_StoreSize :: "64 word"
  df_RuntimeSize :: "64 word"

record diff_report =
  dr_FromTarget :: target
  dr_ToTarget :: target
  dr_WireSize :: "64 word"
  dr_DiskSize :: "64 word"
  dr_Blobs :: "(string \<times> diff_blob list) list"

text \<open>
  \<open>d_Locator\<close> is the locator of a blob's reference; the error of its parser is dropped by the code,
  so the function also stands for what comes out then.
\<close>

record 'w diff_env =
  d_LoadAppTree :: "string \<Rightarrow> 'w \<Rightarrow> app_tree result"
  d_Tree :: "app_info \<Rightarrow> app_tree"
  d_Locator :: "string \<Rightarrow> string"

section \<open>The blobs of apps\<close>

definition blob_of :: "'w env \<Rightarrow> 64 word \<Rightarrow> app_tree \<Rightarrow> tree_node \<Rightarrow> diff_blob" where
  "blob_of E blockSize app node =
    \<lparr>df_Node = node, df_StoreSize = x_AlignToBlockSize E (n_Size node) blockSize,
     df_RuntimeSize = at_RuntimeSize app node\<rparr>"

definition add_nodes ::
  "'w env \<Rightarrow> 64 word \<Rightarrow> app_tree \<Rightarrow> (string \<times> diff_blob) list \<Rightarrow> (string \<times> diff_blob) list" where
  "add_nodes E blockSize app blobs =
    foldl (\<lambda>m node. AList.update (n_Digest node) (blob_of E blockSize app node) m) blobs (at_Nodes app)"

fun getAppBlobs ::
  "'w env \<Rightarrow> 64 word \<Rightarrow> app_tree list \<Rightarrow> (string \<times> diff_blob) list \<Rightarrow> (string \<times> diff_blob) list result" where
  "getAppBlobs E blockSize [] blobs = Inr blobs"
| "getAppBlobs E blockSize (app # apps) blobs =
     (let blobs = add_nodes E blockSize app blobs
      in case at_WalkError app of
           Some err \<Rightarrow> Inl err
         | None \<Rightarrow> getAppBlobs E blockSize apps blobs)"

fun load_apps :: "'w diff_env \<Rightarrow> 'w \<Rightarrow> string list \<Rightarrow> app_tree list result" where
  "load_apps D w [] = Inr []"
| "load_apps D w (uri # uris) =
     (case d_LoadAppTree D uri w of
        Inl err \<Rightarrow> Inl (errorf (''failed to load app '' @ uri) err)
      | Inr app \<Rightarrow> (case load_apps D w uris of Inl err \<Rightarrow> Inl err | Inr apps \<Rightarrow> Inr (app # apps)))"

definition getTargetAppBlobs ::
  "'w env \<Rightarrow> 'w diff_env \<Rightarrow> config \<Rightarrow> target \<Rightarrow> 'w \<Rightarrow> (string \<times> diff_blob) list result" where
  "getTargetAppBlobs E D cfg t w =
    (case load_apps D w (AppURIs t) of
       Inl err \<Rightarrow> Inl err
     | Inr apps \<Rightarrow> getAppBlobs E (cc_BlockSize (composeConfig cfg)) apps [])"

text \<open>Without an app the list is nil, and the library then looks at all the apps it finds.\<close>

definition getCurrentAppBlobs ::
  "'w env \<Rightarrow> 'w diff_env \<Rightarrow> config \<Rightarrow> string list \<Rightarrow> 'w \<Rightarrow> (string \<times> diff_blob) list result" where
  "getCurrentAppBlobs E D cfg uris w =
    (case x_CheckAppsStatus E (if uris = [] then None else Some uris)
        [WithQuickCheckFetch True, WithCheckInstallation False, WithCheckRunning False] w of
       Inl err \<Rightarrow> Inl (errorf ''failed to check current target's apps status'' err)
     | Inr s \<Rightarrow> getAppBlobs E (cc_BlockSize (composeConfig cfg)) (map (d_Tree D) (as_Apps s)) [])"

section \<open>The report\<close>

definition add_missing ::
  "'w diff_env \<Rightarrow> (string \<times> diff_blob) list \<Rightarrow> diff_report \<Rightarrow> string \<times> diff_blob \<Rightarrow> diff_report" where
  "add_missing D fromBlobs rep kb =
    (case map_of fromBlobs (fst kb) of
       Some _ \<Rightarrow> rep
     | None \<Rightarrow>
         (let b = snd kb; loc = d_Locator D (n_Ref (df_Node b));
              old = (case map_of (dr_Blobs rep) loc of None \<Rightarrow> [] | Some bs \<Rightarrow> bs)
          in rep\<lparr>dr_WireSize := dr_WireSize rep + n_Size (df_Node b),
                 dr_DiskSize := dr_DiskSize rep + (df_StoreSize b + df_RuntimeSize b),
                 dr_Blobs := AList.update loc (old @ [b]) (dr_Blobs rep)\<rparr>))"

definition diff_blobs ::
  "'w env \<Rightarrow> 'w diff_env \<Rightarrow> 'w \<Rightarrow> target \<Rightarrow> target \<Rightarrow> (string \<times> diff_blob) list \<Rightarrow> (string \<times> diff_blob) list
   \<Rightarrow> diff_report" where
  "diff_blobs E D w from to fromBlobs toBlobs =
    foldl (add_missing D fromBlobs)
      \<lparr>dr_FromTarget = from, dr_ToTarget = to, dr_WireSize = 0, dr_DiskSize = 0, dr_Blobs = []\<rparr>
      (range_map E w toBlobs)"

definition BlobCount :: "diff_report \<Rightarrow> nat" where
  "BlobCount rep = foldl (\<lambda>n kb. n + length (snd kb)) 0 (dr_Blobs rep)"

definition from_target :: "'w env \<Rightarrow> 'w \<Rightarrow> targets \<Rightarrow> int \<Rightarrow> target" where
  "from_target E w ts fromVersion =
    (if fromVersion = -1 then
       (case x_GetLastSuccessfulUpdate E w of
          Inr u \<Rightarrow> GetTargetByID ts (u_ClientRef u)
        | Inl err \<Rightarrow> UnknownTarget)
     else GetTargetByVersion ts fromVersion)"

definition to_target :: "'w env \<Rightarrow> 'w \<Rightarrow> targets \<Rightarrow> int \<Rightarrow> target" where
  "to_target E w ts toVersion =
    (if toVersion = -1 then GetLatestTarget E w ts else GetTargetByVersion ts toVersion)"

definition shortlisted :: "config \<Rightarrow> int \<Rightarrow> target \<Rightarrow> target" where
  "shortlisted cfg fromVersion t = (if fromVersion = -1 then ShortlistApps (GetEnabledApps cfg) t else t)"

definition diff_targets ::
  "'w env \<Rightarrow> 'w diff_env \<Rightarrow> config \<Rightarrow> targets \<Rightarrow> int \<Rightarrow> int \<Rightarrow> 'w \<Rightarrow> diff_report result" where
  "diff_targets E D cfg ts fromVersion toVersion w =
    (let from = from_target E w ts fromVersion; to = to_target E w ts toVersion
     in if IsUnknown to then
          Inl (ErrorString (''failed to find target for version '' @ itoa toVersion))
        else if IsUnknown from \<and> fromVersion \<noteq> -1 then
          Inl (ErrorString (''failed to find target for version '' @ itoa fromVersion))
        else
          (let from = shortlisted cfg fromVersion from; to = shortlisted cfg fromVersion to
           in case getTargetAppBlobs E D cfg to w of
                Inl err \<Rightarrow> Inl (errorf (''failed to get app blobs for target version '' @ itoa toVersion) err)
              | Inr toBlobs \<Rightarrow>
                  (case (if fromVersion = -1 then getCurrentAppBlobs E D cfg (AppURIs from) w
                         else getTargetAppBlobs E D cfg from w) of
                     Inl err \<Rightarrow> Inl (errorf (''failed to get app blobs for target version '' @ itoa fromVersion) err)
                   | Inr fromBlobs \<Rightarrow> Inr (diff_blobs E D w from to fromBlobs toBlobs))))"

definition api_Diff ::
  "'w env \<Rightarrow> 'w diff_env \<Rightarrow> config \<Rightarrow> int \<Rightarrow> int \<Rightarrow> bool \<Rightarrow> 'w host \<Rightarrow> diff_report result outcome \<times> 'w host" where
  "api_Diff E D cfg fromVersion toVersion enableTUF h =
    (case NewGatewayClient E cfg None '''' h of
       (Panicked, cfg, h) \<Rightarrow> (Panicked, h)
     | (Ret (Inl err), cfg, h) \<Rightarrow> (Ret (Inl (errorf ''failed to create gateway client'' err)), h)
     | (Ret (Inr gw), cfg, h) \<Rightarrow>
         (let repo =
            (if enableTUF then
               (case NewTufRepo E (ext h) (GetHardwareID cfg) of Inl err \<Rightarrow> Inl err | Inr r \<Rightarrow> Inr (TufRepo r))
             else Inr (PlainRepo (NewPlainRepo (GetTargetsFilepath cfg) (GetHardwareID cfg))))
          in case repo of
               Inl err \<Rightarrow> (Ret (Inl (errorf ''failed to create target repo'' err)), h)
             | Inr repo \<Rightarrow>
                 (case LoadTargets E gw False repo h of
                    (Inl err, repo, h) \<Rightarrow> (Ret (Inl (errorf ''failed to load targets'' err)), h)
                  | (Inr (ts, v), repo, h) \<Rightarrow>
                      (Ret (diff_targets E D cfg ts fromVersion toVersion (ext h)), h))))"

section \<open>Lemmas\<close>

lemma add_nodes_distinct: "distinct (map fst m) \<Longrightarrow> distinct (map fst (add_nodes E bs app m))"
proof -
  assume "distinct (map fst m)"
  then have "distinct (map fst (foldl (\<lambda>m node. AList.update (n_Digest node) (blob_of E bs app node) m) m ns))" for ns
    by (induction ns arbitrary: m) (simp_all add: distinct_update)
  then show ?thesis by (simp add: add_nodes_def)
qed

lemma getAppBlobs_distinct:
  "getAppBlobs E bs apps m = Inr m' \<Longrightarrow> distinct (map fst m) \<Longrightarrow> distinct (map fst m')"
  by (induction apps arbitrary: m) (auto simp: Let_def add_nodes_distinct split: option.splits)

lemma getTargetAppBlobs_distinct: "getTargetAppBlobs E D cfg t w = Inr m \<Longrightarrow> distinct (map fst m)"
  by (auto simp: getTargetAppBlobs_def split: sum.splits dest!: getAppBlobs_distinct)

text \<open>The blobs listed, over all locators.\<close>

definition listed :: "diff_report \<Rightarrow> diff_blob multiset" where
  "listed rep = mset (concat (map snd (dr_Blobs rep)))"

lemma mset_update_append:
  "mset (concat (map snd (AList.update k ((case map_of al k of None \<Rightarrow> [] | Some bs \<Rightarrow> bs) @ [b]) al))) =
     add_mset b (mset (concat (map snd al)))"
  by (induction al) auto

lemma BlobCount_listed: "BlobCount rep = size (listed rep)"
proof -
  have "foldl (\<lambda>n kb. n + length (snd kb)) n xs = n + length (concat (map snd xs))" for n and xs :: "(string \<times> diff_blob list) list"
    by (induction xs arbitrary: n) auto
  then show ?thesis by (simp add: BlobCount_def listed_def)
qed

definition missing :: "(string \<times> diff_blob) list \<Rightarrow> (string \<times> diff_blob) list \<Rightarrow> diff_blob list" where
  "missing fromBlobs toBlobs = map snd (filter (\<lambda>kb. map_of fromBlobs (fst kb) = None) toBlobs)"

lemma foldl_add_missing:
  "dr_WireSize (foldl (add_missing D m) rep kbs) = dr_WireSize rep + sum_list (map (\<lambda>b. n_Size (df_Node b)) (missing m kbs))
   \<and> dr_DiskSize (foldl (add_missing D m) rep kbs) = dr_DiskSize rep + sum_list (map (\<lambda>b. df_StoreSize b + df_RuntimeSize b) (missing m kbs))
   \<and> listed (foldl (add_missing D m) rep kbs) = listed rep + mset (missing m kbs)"
proof (induction kbs arbitrary: rep)
  case (Cons kb kbs)
  show ?case
  proof (cases "map_of m (fst kb)")
    case None
    then have "listed (add_missing D m rep kb) = add_mset (snd kb) (listed rep)"
      by (simp add: add_missing_def listed_def Let_def mset_update_append)
    with None Cons.IH [of "add_missing D m rep kb"] show ?thesis
      by (simp add: missing_def add_missing_def Let_def add.assoc)
  next
    case (Some b)
    with Cons.IH show ?thesis by (simp add: missing_def add_missing_def)
  qed
qed (simp add: missing_def)

lemma sum_list_perm: "mset xs = mset ys \<Longrightarrow> sum_list (map f xs) = (sum_list (map f ys) :: 64 word)"
  by (metis mset_map sum_mset_sum_list)

lemma missing_perm: "mset xs = mset ys \<Longrightarrow> mset (missing m xs) = mset (missing m ys)"
  by (simp add: missing_def)

lemma diff_blobs_sizes:
  assumes "map_order_ok E" and "distinct (map fst toBlobs)" and "rep = diff_blobs E D w from to fromBlobs toBlobs"
  shows "dr_WireSize rep = sum_list (map (\<lambda>b. n_Size (df_Node b)) (missing fromBlobs toBlobs))
    \<and> dr_DiskSize rep = sum_list (map (\<lambda>b. df_StoreSize b + df_RuntimeSize b) (missing fromBlobs toBlobs))
    \<and> listed rep = mset (missing fromBlobs toBlobs)"
proof -
  have m: "mset (missing fromBlobs (range_map E w toBlobs)) = mset (missing fromBlobs toBlobs)"
    by (rule missing_perm [OF mset_range_map [OF assms(1,2)]])
  let ?z = "\<lparr>dr_FromTarget = from, dr_ToTarget = to, dr_WireSize = 0, dr_DiskSize = 0, dr_Blobs = []\<rparr>"
  have "listed ?z = {#}" by (simp add: listed_def)
  then show ?thesis
    using foldl_add_missing [of D fromBlobs ?z "range_map E w toBlobs"] m sum_list_perm [OF m]
    by (simp add: assms(3) diff_blobs_def)
qed

section \<open>Properties\<close>

text \<open>
  C36: the report on an update counts each blob of the new target that the old one does not have,
  known by its digest, exactly once, whatever the order in which the Go map is ranged over: the size
  on the wire is the sum of their sizes, the size on disk that of their sizes in the store and at run
  time (in 64-bit arithmetic), the count is their number, and they are what is listed.
\<close>

theorem Diff_sizes:
  assumes "map_order_ok E" and "diff_targets E D cfg ts fromVersion toVersion w = Inr rep"
  shows "\<exists>fromBlobs toBlobs bs. getTargetAppBlobs E D cfg (dr_ToTarget rep) w = Inr toBlobs
    \<and> (if fromVersion = -1 then getCurrentAppBlobs E D cfg (AppURIs (dr_FromTarget rep)) w
       else getTargetAppBlobs E D cfg (dr_FromTarget rep) w) = Inr fromBlobs
    \<and> bs = filter (\<lambda>kb. map_of fromBlobs (fst kb) = None) toBlobs \<and> distinct (map fst bs)
    \<and> dr_WireSize rep = sum_list (map (\<lambda>kb. n_Size (df_Node (snd kb))) bs)
    \<and> dr_DiskSize rep = sum_list (map (\<lambda>kb. df_StoreSize (snd kb) + df_RuntimeSize (snd kb)) bs)
    \<and> BlobCount rep = length bs
    \<and> mset (concat (map snd (dr_Blobs rep))) = mset (map snd bs)"
proof -
  obtain t1 t2 fromBlobs toBlobs where d: "rep = diff_blobs E D w t1 t2 fromBlobs toBlobs"
    "getTargetAppBlobs E D cfg t2 w = Inr toBlobs"
    "(if fromVersion = -1 then getCurrentAppBlobs E D cfg (AppURIs t1) w
       else getTargetAppBlobs E D cfg t1 w) = Inr fromBlobs"
    using assms(2) by (auto simp: diff_targets_def Let_def split: sum.splits if_splits)
  have t: "dr_FromTarget rep = t1 \<and> dr_ToTarget rep = t2"
  proof -
    have "dr_FromTarget (foldl (add_missing D m) r kbs) = dr_FromTarget r
        \<and> dr_ToTarget (foldl (add_missing D m) r kbs) = dr_ToTarget r" for m r kbs
      by (induction kbs arbitrary: r) (auto simp: add_missing_def Let_def split: option.splits)
    then show ?thesis by (simp add: d(1) diff_blobs_def)
  qed
  have dist: "distinct (map fst toBlobs)" using getTargetAppBlobs_distinct [OF d(2)] .
  let ?bs = "filter (\<lambda>kb. map_of fromBlobs (fst kb) = None) toBlobs"
  note sizes = diff_blobs_sizes [OF assms(1) dist d(1)]
  have "BlobCount rep = size (mset (missing fromBlobs toBlobs))" using sizes by (simp only: BlobCount_listed)
  then have "BlobCount rep = length ?bs" by (simp only: size_mset missing_def length_map)
  moreover have "distinct (map fst ?bs)" using dist by (rule distinct_map_filter_key)
  moreover have "dr_WireSize rep = sum_list (map (\<lambda>kb. n_Size (df_Node (snd kb))) ?bs)"
    "dr_DiskSize rep = sum_list (map (\<lambda>kb. df_StoreSize (snd kb) + df_RuntimeSize (snd kb)) ?bs)"
    "mset (concat (map snd (dr_Blobs rep))) = mset (map snd ?bs)"
    using sizes by (simp_all add: missing_def listed_def comp_def)
  ultimately show ?thesis
    using d(2,3) t by (intro exI [of _ fromBlobs] exI [of _ toBlobs] exI [of _ ?bs]) (simp only:)
qed

theorem Diff_sizes_witness:
  defines "E \<equiv> (undefined :: unit env)\<lparr>x_map_order := \<lambda>ks w. ks, x_AlignToBlockSize := \<lambda>n b. 4096\<rparr>"
  defines "D \<equiv> \<lparr>d_LoadAppTree = \<lambda>uri w. Inr \<lparr>at_Nodes = [\<lparr>n_Digest = uri, n_Size = 7, n_Ref = uri\<rparr>], at_WalkError = None,
     at_RuntimeSize = \<lambda>n. 100\<rparr>, d_Tree = undefined, d_Locator = \<lambda>r. ''loc''\<rparr>"
  defines "ts \<equiv> [\<lparr>tID = ''t-4'', tVersion = 4, tApps = [\<lparr>aName = ''a'', aURI = ''r/a@1''\<rparr>]\<rparr>,
     \<lparr>tID = ''t-5'', tVersion = 5, tApps = [\<lparr>aName = ''a'', aURI = ''r/a@2''\<rparr>]\<rparr>]"
  shows "\<exists>rep. diff_targets E D undefined ts 4 5 () = Inr rep \<and> dr_WireSize rep = 7 \<and> dr_DiskSize rep = 4196"
proof -
  have ok: "map_order_ok E" by (simp add: map_order_ok_def E_def)
  have blobs: "getTargetAppBlobs E D undefined \<lparr>tID = i, tVersion = v, tApps = [\<lparr>aName = n, aURI = uri\<rparr>]\<rparr> ()
      = Inr [(uri, \<lparr>df_Node = \<lparr>n_Digest = uri, n_Size = 7, n_Ref = uri\<rparr>, df_StoreSize = 4096, df_RuntimeSize = 100\<rparr>)]" for i v n uri
    by (simp add: getTargetAppBlobs_def AppURIs_def D_def add_nodes_def blob_of_def E_def)
  have to: "GetTargetByVersion ts 5 = \<lparr>tID = ''t-5'', tVersion = 5, tApps = [\<lparr>aName = ''a'', aURI = ''r/a@2''\<rparr>]\<rparr>"
    "GetTargetByVersion ts 4 = \<lparr>tID = ''t-4'', tVersion = 4, tApps = [\<lparr>aName = ''a'', aURI = ''r/a@1''\<rparr>]\<rparr>"
    by (simp_all add: GetTargetByVersion_def ts_def)
  have E: "x_map_order E ks w = ks" for ks w by (simp add: E_def)
  obtain rep where r: "diff_targets E D undefined ts 4 5 () = Inr rep"
    by (simp add: diff_targets_def Let_def from_target_def to_target_def to IsUnknown_def UnknownTarget_def shortlisted_def blobs)
  then have rep: "dr_FromTarget rep = GetTargetByVersion ts 4" "dr_ToTarget rep = GetTargetByVersion ts 5"
    by (auto simp: diff_targets_def Let_def from_target_def to_target_def to IsUnknown_def UnknownTarget_def shortlisted_def
        blobs diff_blobs_def range_map_def List.map_filter_simps E add_missing_def)
  from Diff_sizes [OF ok r] r show ?thesis unfolding rep to by (auto simp: blobs)
qed

end
