(* ===== verification/Output.thy ===== *)
theory Output
  imports Daemon ApiDiff "HOL-Library.Char_ord" "HOL-Library.List_Lexorder"
begin

text \<open>
  What the commands print: \<open>cmd/fioup/state_handler.go\<close>, \<open>check.go\<close>, \<open>status.go\<close>, \<open>diff.go\<close> and
  \<open>version.go\<close>. The text is a value here; the commands hand it to the terminal. The formatting of
  times and byte counts belongs to the libraries.
\<close>

section \<open>Formats\<close>

record fmt_env =
  p_TimeOnly :: "time \<Rightarrow> string"
  p_DateTime :: "time \<Rightarrow> string"
  p_TimeJson :: "time \<Rightarrow> string"
  p_FormatBytes :: "int \<Rightarrow> string"
  p_StateJson :: "upd_state \<Rightarrow> json"

definition line :: "string \<Rightarrow> string" where
  "line s = s @ [CHR 0x0A]"

definition tab :: string where "tab = [CHR 0x09]"

text \<open>\<open>%-20s\<close>, \<open>%9s\<close> (the texts are ASCII) and \<open>%v\<close> of a bool.\<close>

definition pad_right :: "nat \<Rightarrow> string \<Rightarrow> string" where
  "pad_right n s = s @ replicate (n - length s) (CHR '' '')"

definition pad_left :: "nat \<Rightarrow> string \<Rightarrow> string" where
  "pad_left n s = replicate (n - length s) (CHR '' '') @ s"

definition fmt_bool :: "bool \<Rightarrow> string" where
  "fmt_bool b = (if b then ''true'' else ''false'')"

fun upd_mode_text :: "upd_mode \<Rightarrow> string" where
  "upd_mode_text ModeUnset = ''''"
| "upd_mode_text UpdateModeNewUpdate = ''new''"
| "upd_mode_text UpdateModeResume = ''resume''"

definition fmt_size :: "fmt_env \<Rightarrow> update_size \<Rightarrow> string" where
  "fmt_size P z = p_FormatBytes P (z_Bytes z) @ '', '' @ itoa (z_Blobs z) @ '' blobs''"

section \<open>The handlers of the states\<close>

definition preStateHandler :: "fmt_env \<Rightarrow> string \<Rightarrow> update_ctx \<Rightarrow> string" where
  "preStateHandler P state u =
    ''['' @ itoa (CurrentStateNum u) @ ''/'' @ itoa (TotalStates u) @ ''] '' @ state @ '' ... ''
    @ (if state = ''Initializing'' then
         (if InitializedAt u \<noteq> 0 then ''done at '' @ p_TimeOnly P (InitializedAt u) @ ''; '' else '''')
       else if state = ''Fetching'' then
         (if z_Bytes (Size u) = 0 then ''nothing to fetch; ''
          else if FetchedAt u \<noteq> 0 then
            ''done at '' @ p_TimeOnly P (FetchedAt u) @ ''; fetched '' @ fmt_size P (Size u)
          else line '''')
       else if state \<in> {''Installing'', ''Starting''} then line ''''
       else '''')"

definition postStateHandler :: "fmt_env \<Rightarrow> string \<Rightarrow> update_ctx \<Rightarrow> string" where
  "postStateHandler P state u =
    (if state = ''Checking'' then
       line (upd_mode_text (Mode u) @ '' '' @ upd_type_text (Type u)
         @ '' from '' @ itoa (tVersion (FromTarget u)) @ '' ['' @ join '','' (AppNames (FromTarget u))
         @ ''] to '' @ itoa (tVersion (ToTarget u)) @ '' ['' @ join '','' (AppNames (ToTarget u)) @ '']'')
     else if state = ''Initializing'' then
       line (''fetch size: '' @ fmt_size P (Size u)
         @ ''; add: ['' @ join '','' (Names (dAdd (AppDiff u)))
         @ ''], remove: ['' @ join '','' (Names (dRemove (AppDiff u)))
         @ ''], sync: ['' @ join '','' (Names (dSync (AppDiff u)))
         @ ''], update: ['' @ join '','' (Names (dUpdate (AppDiff u))) @ '']'')
     else if state = ''Fetching'' then
       (if z_Bytes (Size u) = 0 then line ''done'' else line '''')
     else if state \<in> {''Installing'', ''Starting''} then line ''      Done''
     else line ''done'')"

section \<open>The check\<close>

definition app_in_sync :: "app_status \<Rightarrow> bool" where
  "app_in_sync a \<longleftrightarrow> ap_Fetched a \<and> ap_Installed a \<and> ap_Running a"

text \<open>\<open>CheckResult\<close>: whether an update is required, of which type, and to which target.\<close>

record check_result =
  AppsAreInSync :: bool
  UpdateRequired :: bool
  ResultType :: upd_type
  Description :: string
  SelectedTarget :: target

definition check_result_of :: "'w env \<Rightarrow> 'w \<Rightarrow> targets \<Rightarrow> current_status \<Rightarrow> check_result" where
  "check_result_of E w ts cs =
    (let inSync = list_all (\<lambda>kv. app_in_sync (snd kv)) (cs_AppStatuses cs);
         latest = GetLatestTarget E w ts
     in if cs_TargetID cs \<noteq> tID latest then
          \<lparr>AppsAreInSync = inSync, UpdateRequired = True, ResultType = UpdateTypeUpdate,
           Description = ''New version available: '' @ tID latest, SelectedTarget = latest\<rparr>
        else if \<not> inSync then
          \<lparr>AppsAreInSync = inSync, UpdateRequired = True, ResultType = UpdateTypeSync,
           Description = ''You are running the latest version, but not all apps are in sync.'',
           SelectedTarget = latest\<rparr>
        else
          \<lparr>AppsAreInSync = inSync, UpdateRequired = False, ResultType = TypeUnset, Description = '''',
           SelectedTarget = zero_target\<rparr>)"

text \<open>A struct is never empty, so \<open>omitempty\<close> of the field \<open>update\<close> has no effect.\<close>

definition check_result_json :: "check_result \<Rightarrow> json" where
  "check_result_json r =
    JObj [(''apps_are_in_sync'', JBool (AppsAreInSync r)), (''update_required'', JBool (UpdateRequired r)),
          (''update'',
            JObj (if UpdateRequired r then
                    [(''selected_target'', JObj [(''id'', JStr (tID (SelectedTarget r))),
                                             (''version'', jint (tVersion (SelectedTarget r)))])]
                    @ omit_if (upd_type_text (ResultType r) = '''') ''type'' (JStr (upd_type_text (ResultType r)))
                    @ omit_if (Description r = '''') ''description'' (JStr (Description r))
                  else []))]"

definition current_status_json :: "fmt_env \<Rightarrow> current_status \<Rightarrow> json" where
  "current_status_json P cs =
    JObj [(''update_id'', JStr (cs_UpdateID cs)), (''target_id'', JStr (cs_TargetID cs)),
          (''apps'', JObj (map (map_prod id app_status_json) (sort_key fst (cs_AppStatuses cs)))),
          (''completed_at'', JStr (p_TimeJson P (cs_CompletedAt cs)))]"

definition printJsonResult :: "'w env \<Rightarrow> fmt_env \<Rightarrow> 'w \<Rightarrow> targets \<Rightarrow> current_status \<Rightarrow> string" where
  "printJsonResult E P w ts cs =
    line (json_compact
      (JObj [(''targets'', if ts = [] then JNull else JArr (map target_json ts)),
             (''current_status'', current_status_json P cs),
             (''check_result'', check_result_json (check_result_of E w ts cs))]))"

definition unhealthy_app_text :: "app_status \<Rightarrow> string" where
  "unhealthy_app_text a =
    (if ap_Running a \<and> ap_Installed a \<and> ap_Fetched a then ''''
     else line ('' - '' @ ap_Name a) @ line (''   '' @ ap_URI a)
       @ line (''   state: fetched:'' @ fmt_bool (ap_Fetched a) @ ''; installed:'' @ fmt_bool (ap_Installed a)
           @ ''; running:'' @ fmt_bool (ap_Running a))
       @ line '''')"

definition target_text :: "target \<Rightarrow> string" where
  "target_text t =
    line (itoa (tVersion t) @ '' ['' @ tID t @ '']'')
    @ concat (map (\<lambda>a. line (''    '' @ pad_right 20 (aName a) @ aURI a)) (tApps t))
    @ line ''''"

definition printTextResult :: "'w env \<Rightarrow> 'w \<Rightarrow> targets \<Rightarrow> current_status \<Rightarrow> string" where
  "printTextResult E w ts cs =
    (let currentTarget = GetTargetByID ts (cs_TargetID cs); latest = GetLatestTarget E w ts
     in concat (map target_text (GetSortedList ts))
        @ line (''Current version: '' @ itoa (tVersion currentTarget))
        @ (if tID currentTarget \<noteq> tID latest then
             line (''Latest version:  '' @ itoa (tVersion latest)) @ line ''Status:          Update available''
           else if AreAppsHealthy cs then line ''Status:          Up-to-date''
           else line ''Status:          Up-to-date (degraded)'' @ line ''Unhealthy apps:''
             @ concat (map (\<lambda>kv. unhealthy_app_text (snd kv)) (range_map E w (cs_AppStatuses cs)))))"

section \<open>The status\<close>

definition stats_json :: "blob_stats \<Rightarrow> json" where
  "stats_json b = JObj [(''bytes'', jint (bs_Bytes b)), (''num_blobs'', jint (bs_NumBlobs b))]"

definition update_status_json :: "fmt_env \<Rightarrow> update_status \<Rightarrow> json" where
  "update_status_json P us =
    JObj [(''id'', JStr (us_ID us)), (''target_id'', JStr (us_TargetID us)), (''state'', p_StateJson P (us_State us)),
          (''start_time'', JStr (p_TimeJson P (us_StartTime us))), (''updated_at'', JStr (p_TimeJson P (us_UpdatedAt us))),
          (''apps'', case us_Apps us of None \<Rightarrow> JNull | Some as \<Rightarrow> jstrs as),
          (''size'', stats_json (us_Size us)), (''fetched_size'', stats_json (us_FetchedSize us)),
          (''progress'', jint (us_Progress us))]"

definition status_json :: "fmt_env \<Rightarrow> current_status \<Rightarrow> update_status \<Rightarrow> string" where
  "status_json P cs us =
    line (json_compact (JObj [(''current_status'', current_status_json P cs), (''update_status'', update_status_json P us)]))"

definition app_text :: "app_status \<Rightarrow> string" where
  "app_text a =
    line (tab @ tab @ ''['' @ ap_Name a @ '']: '') @ line (tab @ tab @ ''  '' @ ap_URI a)
    @ line (tab @ tab @ ''  fetched:'' @ fmt_bool (ap_Fetched a) @ ''; installed:'' @ fmt_bool (ap_Installed a)
        @ ''; running:'' @ fmt_bool (ap_Running a))
    @ line ''''"

definition is_ongoing :: "update_status \<Rightarrow> bool" where
  "is_ongoing us \<longleftrightarrow> us_State us \<notin> {StateCompleted, StateCanceled, StateFailed}"

definition stats_text :: "fmt_env \<Rightarrow> blob_stats \<Rightarrow> string" where
  "stats_text P b = p_FormatBytes P (bs_Bytes b) @ '', '' @ itoa (bs_NumBlobs b) @ '' blobs''"

text \<open>An update under way shows its start time twice, the second time as \<open>Updated at\<close>.\<close>

definition status_text :: "'w env \<Rightarrow> fmt_env \<Rightarrow> 'w \<Rightarrow> current_status \<Rightarrow> update_status \<Rightarrow> string" where
  "status_text E P w cs us =
    line ''Current status:''
    @ line (''  Target ID:'' @ tab @ cs_TargetID cs)
    @ line (''  Update ID:'' @ tab @ cs_UpdateID cs)
    @ line (''  Completed at:'' @ tab @ p_DateTime P (cs_CompletedAt cs))
    @ line ''  Apps:''
    @ concat (map (\<lambda>kv. app_text (snd kv)) (range_map E w (cs_AppStatuses cs)))
    @ (if is_ongoing us then line ''Ongoing update status:'' else line ''Last update status:'')
    @ line (''  Target ID:'' @ tab @ us_TargetID us)
    @ line (''  Update ID:'' @ tab @ us_ID us)
    @ line (''  State:'' @ tab @ x_StateString E (us_State us))
    @ line (''  Started at:'' @ tab @ p_DateTime P (us_StartTime us))
    @ (if is_ongoing us then line (''  Updated at:'' @ tab @ p_DateTime P (us_StartTime us))
       else line (''  Completed at:'' @ tab @ p_DateTime P (us_UpdatedAt us)))
    @ line ''  Apps:''
    @ concat (map (\<lambda>a. line (tab @ tab @ ''- '' @ a)) (case us_Apps us of None \<Rightarrow> [] | Some as \<Rightarrow> as))
    @ line (''  Update size:'' @ tab @ stats_text P (us_Size us))
    @ (if bs_Bytes (us_FetchedSize us) < bs_Bytes (us_Size us)
       then line (''  Fetched:'' @ tab @ stats_text P (us_FetchedSize us)) else '''')
    @ (if is_ongoing us then line (''  Progress:'' @ tab @ itoa (us_Progress us)) else '''')"

section \<open>The difference of two versions\<close>

definition diff_blob_text :: "fmt_env \<Rightarrow> diff_blob \<Rightarrow> string" where
  "diff_blob_text P b =
    line (tab @ ''- '' @ n_Digest (df_Node b) @ '': on wire '' @ pad_left 9 (p_FormatBytes P (sint (n_Size (df_Node b))))
      @ '', on disk '' @ p_FormatBytes P (sint (df_StoreSize b + df_RuntimeSize b)))"

definition diff_text :: "'w env \<Rightarrow> fmt_env \<Rightarrow> bool \<Rightarrow> 'w \<Rightarrow> diff_report \<Rightarrow> string" where
  "diff_text E P blobs w d =
    (if IsUnknown (dr_FromTarget d)
     then line ''Failed to get current target: diff computed assuming no update is installed'' else '''')
    @ line (''Update size from version '' @ itoa (tVersion (dr_FromTarget d)) @ '' to ''
        @ itoa (tVersion (dr_ToTarget d)) @ '':'')
    @ line (''  On wire size: '' @ p_FormatBytes P (sint (dr_WireSize d)))
    @ line (''  On disk size: '' @ p_FormatBytes P (sint (dr_DiskSize d)))
    @ line (''  Blob count:   '' @ itoa (int (BlobCount d)))
    @ (if blobs then
         line ''  Blobs:''
         @ concat (map (\<lambda>(baseURL, bs). line (''  - '' @ baseURL) @ concat (map (diff_blob_text P) bs))
             (range_map E w (dr_Blobs d)))
       else '''')"

section \<open>The version\<close>

record version_info =
  vi_Version :: string
  vi_Commit :: string
  vi_Date :: string

definition version_text :: "string \<Rightarrow> bool \<Rightarrow> version_info \<Rightarrow> string result" where
  "version_text format short v =
    (if format = ''json'' then
       Inr (line (if short then json_compact (JStr (vi_Version v))
                  else json_indent 0 (JObj [(''version'', JStr (vi_Version v)), (''commit'', JStr (vi_Commit v)),
                                            (''build_date'', JStr (vi_Date v))])))
     else if format = ''text'' then
       Inr (if short then line (vi_Version v)
            else line (''Version: '' @ vi_Version v) @ line (''Commit: '' @ vi_Commit v)
              @ line (''Build Date: '' @ vi_Date v))
     else Inl (ErrorString (''invalid value for --format: '' @ format @ '' (must be text or json)'')))"

section \<open>Lemmas\<close>

lemma line_inject [simp]: "line a = line b \<longleftrightarrow> a = b"
  by (simp add: line_def)

lemma healthy_in_sync: "AreAppsHealthy cs = list_all (\<lambda>kv. app_in_sync (snd kv)) (cs_AppStatuses cs)"
  by (auto simp: AreAppsHealthy_def app_in_sync_def list_all_iff)

lemma latest_listed:
  "tID (GetLatestTarget E w ts) \<noteq> tID UnknownTarget \<Longrightarrow> GetLatestTarget E w ts \<in> set ts"
  unfolding GetLatestTarget_def using foldl_latest_mem by (metis insertE)

lemma found_or_unknown:
  "(GetTargetByID ts i \<in> set ts \<and> tID (GetTargetByID ts i) = i)
   \<or> (GetTargetByID ts i = UnknownTarget \<and> (\<forall>t \<in> set ts. tID t \<noteq> i))"
  by (auto simp: GetTargetByID_def dest: find_Some_set simp: find_None_all split: option.splits)

section \<open>Properties\<close>



end
