(* ===== verification/Lock.thy ===== *)
theory Lock
  imports External
begin

text \<open>
  The lock of \<open>cmd/fioup/root.go\<close>, which keeps two processes of fioup from working on the same device
  at the same time. The kernel's table of exclusive locks, by path, belongs to the state; a lock is
  released when its process ends. The lock file itself is never removed.
\<close>

section \<open>Taking the lock\<close>

text \<open>What a process sees of its system: its user, its environment, which paths exist, and whether the file opens.\<close>

record lock_env =
  l_Geteuid :: int
  l_Getenv :: "string \<Rightarrow> string"
  l_exists :: "string \<Rightarrow> bool"
  l_open :: "string \<Rightarrow> goerr option"
  l_TempDir :: string

definition lockFileName :: string where "lockFileName = ''fioup.lock''"

definition runtimeLockDir :: "lock_env \<Rightarrow> string" where
  "runtimeLockDir L =
    (if l_Geteuid L = 0 \<and> l_exists L ''/run'' then ''/run''
     else
       (let dir = l_Getenv L ''XDG_RUNTIME_DIR''
        in if dir \<noteq> '''' \<and> l_exists L dir then dir
           else
             (let userRun = path_join [''/run/user'', itoa (l_Geteuid L)]
              in if l_exists L userRun then userRun else l_TempDir L)))"

definition lockFilePath :: "lock_env \<Rightarrow> string" where
  "lockFilePath L = path_join [runtimeLockDir L, lockFileName]"

type_synonym locks = "string \<Rightarrow> nat option"

definition acquireLock :: "lock_env \<Rightarrow> nat \<Rightarrow> locks \<Rightarrow> goerr option \<times> locks" where
  "acquireLock L pid locks =
    (case l_open L (lockFilePath L) of
       Some err \<Rightarrow> (Some (errorf ''failed to open or create lock file'' err), locks)
     | None \<Rightarrow>
         (case locks (lockFilePath L) of
            Some q \<Rightarrow>
              (Some (errorf ''another instance of fioup is already running''
                 (ErrorString ''resource temporarily unavailable'')), locks)
          | None \<Rightarrow> (None, locks(lockFilePath L \<mapsto> pid))))"

section \<open>Processes\<close>

text \<open>
  Each process runs one command, once. A command whose annotation asks for the lock goes on only with
  it. A process may end at any time.
\<close>

datatype phase = Fresh | Working | Ended

record system =
  phase_of :: "nat \<Rightarrow> phase"
  held :: locks

definition release :: "nat \<Rightarrow> locks \<Rightarrow> locks" where
  "release pid locks = (\<lambda>p. if locks p = Some pid then None else locks p)"

inductive lstep :: "(nat \<Rightarrow> lock_env) \<Rightarrow> system \<Rightarrow> system \<Rightarrow> bool" for L :: "nat \<Rightarrow> lock_env" where
  Locked: "phase_of s p = Fresh \<Longrightarrow> acquireLock (L p) p (held s) = (None, ls) \<Longrightarrow>
    lstep L s (s\<lparr>phase_of := (phase_of s)(p := Working), held := ls\<rparr>)"
| Refused: "phase_of s p = Fresh \<Longrightarrow> acquireLock (L p) p (held s) = (Some err, ls) \<Longrightarrow>
    lstep L s (s\<lparr>phase_of := (phase_of s)(p := Ended), held := ls\<rparr>)"
| Exits: "phase_of s p = Working \<Longrightarrow>
    lstep L s (s\<lparr>phase_of := (phase_of s)(p := Ended), held := release p (held s)\<rparr>)"

definition boot :: system where
  "boot = \<lparr>phase_of = (\<lambda>p. Fresh), held = Map.empty\<rparr>"

definition lock_inv :: "(nat \<Rightarrow> lock_env) \<Rightarrow> system \<Rightarrow> bool" where
  "lock_inv L s \<longleftrightarrow>
     (\<forall>path p. held s path = Some p \<longleftrightarrow> phase_of s p = Working \<and> path = lockFilePath (L p))"

lemma acquireLock_ok:
  "acquireLock L p ls = (None, ls') \<Longrightarrow> ls (lockFilePath L) = None \<and> ls' = ls(lockFilePath L \<mapsto> p)"
  by (auto simp: acquireLock_def split: option.splits)

lemma acquireLock_fails: "acquireLock L p ls = (Some err, ls') \<Longrightarrow> ls' = ls"
  by (auto simp: acquireLock_def split: option.splits)

lemma lstep_inv: "lstep L s s' \<Longrightarrow> lock_inv L s \<Longrightarrow> lock_inv L s'"
proof (induction rule: lstep.induct)
  case (Locked s p ls)
  note ok = acquireLock_ok [OF Locked(2)]
  have "ls path = Some q \<longleftrightarrow> ((phase_of s)(p := Working)) q = Working \<and> path = lockFilePath (L q)" for path q
    using ok Locked(1) Locked(3) [unfolded lock_inv_def, rule_format, of path q]
    by (cases "path = lockFilePath (L p)"; cases "q = p") auto
  then show ?case by (simp add: lock_inv_def)
next
  case (Refused s p err ls)
  have "held s path = Some q \<longleftrightarrow> ((phase_of s)(p := Ended)) q = Working \<and> path = lockFilePath (L q)" for path q
    using Refused(1) Refused(3) [unfolded lock_inv_def, rule_format, of path q] by (cases "q = p") auto
  then show ?case using acquireLock_fails [OF Refused(2)] by (simp add: lock_inv_def)
next
  case (Exits s p)
  have "release p (held s) path = Some q \<longleftrightarrow> ((phase_of s)(p := Ended)) q = Working \<and> path = lockFilePath (L q)" for path q
    using Exits(2) [unfolded lock_inv_def, rule_format, of path q] by (cases "q = p") (auto simp: release_def)
  then show ?case by (simp add: lock_inv_def)
qed

lemma boot_inv: "lock_inv L boot"
  by (simp add: lock_inv_def boot_def)

lemma lock_reachable_inv: "(lstep L)\<^sup>*\<^sup>* boot s \<Longrightarrow> lock_inv L s"
  by (induction rule: rtranclp_induct) (use boot_inv lstep_inv in blast)+

section \<open>Properties\<close>

text \<open>
  C18: mutual exclusion. However processes start and end, two that work at the same time have different
  lock files; so no two processes with the same lock directory ever work together. A process that
  finds the lock free, and can open the file, is not refused.
\<close>

theorem lock_exclusive:
  assumes "(lstep L)\<^sup>*\<^sup>* boot s" and "phase_of s p = Working"
  shows "(\<forall>q. q \<noteq> p \<and> phase_of s q = Working \<longrightarrow> lockFilePath (L q) \<noteq> lockFilePath (L p))
    \<and> (\<forall>q s'. phase_of s q = Fresh \<and> (\<forall>r. phase_of s r = Working \<longrightarrow> lockFilePath (L r) \<noteq> lockFilePath (L q))
        \<and> l_open (L q) (lockFilePath (L q)) = None
        \<longrightarrow> fst (acquireLock (L q) q (held s)) = None)"
proof -
  note inv = lock_reachable_inv [OF assms(1), unfolded lock_inv_def, rule_format]
  have "lockFilePath (L q) \<noteq> lockFilePath (L p)" if "q \<noteq> p" "phase_of s q = Working" for q
    using inv [of "lockFilePath (L p)" p] inv [of "lockFilePath (L q)" q] assms(2) that by auto
  moreover have "held s (lockFilePath (L q)) = None"
    if "\<forall>r. phase_of s r = Working \<longrightarrow> lockFilePath (L r) \<noteq> lockFilePath (L q)" for q
    using inv [of "lockFilePath (L q)"] that by (metis not_Some_eq)
  ultimately show ?thesis by (simp add: acquireLock_def)
qed

text \<open>Root and a user with a runtime directory of its own do not exclude each other.\<close>

definition root_env :: lock_env where
  "root_env = \<lparr>l_Geteuid = 0, l_Getenv = (\<lambda>v. ''''), l_exists = (\<lambda>p. True), l_open = (\<lambda>p. None), l_TempDir = ''/tmp''\<rparr>"

definition user_env :: lock_env where
  "user_env = root_env\<lparr>l_Geteuid := 1000, l_Getenv := (\<lambda>v. ''/run/user/1000'')\<rparr>"

lemma lock_paths: "lockFilePath root_env = ''/run/fioup.lock''" "lockFilePath user_env = ''/run/user/1000/fioup.lock''"
  by code_simp+

lemma two_locked: "\<exists>s. (lstep (\<lambda>p. if p = 0 then root_env else user_env))\<^sup>*\<^sup>* boot s
    \<and> phase_of s 0 = Working \<and> phase_of s 1 = Working"
proof -
  let ?L = "\<lambda>p. if p = 0 then root_env else user_env"
  let ?s1 = "boot\<lparr>phase_of := (phase_of boot)(0 := Working), held := Map.empty(''/run/fioup.lock'' \<mapsto> 0)\<rparr>"
  let ?s2 = "?s1\<lparr>phase_of := (phase_of ?s1)(1 := Working), held := (held ?s1)(''/run/user/1000/fioup.lock'' \<mapsto> 1)\<rparr>"
  have o: "l_open root_env f = None" "l_open user_env f = None" for f by (simp_all add: root_env_def user_env_def)
  have "lstep ?L boot ?s1" by (rule lstep.Locked) (simp_all add: acquireLock_def lock_paths o boot_def)
  moreover have "lstep ?L ?s1 ?s2" by (rule lstep.Locked) (simp_all add: acquireLock_def lock_paths o boot_def)
  ultimately have "(lstep ?L)\<^sup>*\<^sup>* boot ?s2" by auto
  then show ?thesis by (intro exI [of _ ?s2]) simp
qed

lemma lock_exclusive_witness:
  "\<exists>s. (lstep (\<lambda>p. if p = 0 then root_env else user_env))\<^sup>*\<^sup>* boot s \<and> phase_of s 0 = Working \<and> phase_of s 1 = Working
     \<and> lockFilePath user_env \<noteq> lockFilePath root_env"
proof -
  obtain s where s: "(lstep (\<lambda>p. if p = 0 then root_env else user_env))\<^sup>*\<^sup>* boot s"
    "phase_of s 0 = Working" "phase_of s 1 = Working" using two_locked by blast
  from lock_exclusive [OF s(1,2)] have "lockFilePath (if (1::nat) = 0 then root_env else user_env) \<noteq> lockFilePath (if (0::nat) = 0 then root_env else user_env)"
    using s(3) by blast
  with s show ?thesis by (intro exI [of _ s]) simp
qed

end
