(* ===== verification/SotaDir.thy ===== *)
theory SotaDir
  imports External
begin

text \<open>
  The files of the registration, \<open>internal/register/register.go\<close>: the directory that makes a device a
  registered one, the check whether it is, and the writing of a file through a temporary one. The
  outcome of every call of the operating system is chosen by the environment; what it does to the
  files when it succeeds is written out.
\<close>

section \<open>The environment of the registration\<close>

datatype reg_op =
    RStat string | RRemove string | RMkdir string | RMkdirAll string | ROpenWrite string | ROpenRead string
  | RSync string | RRename string string | RSymlink string string | RFlock string | RHomeDir | RReadlink

text \<open>
  \<open>z_write\<close> is the outcome of \<open>io.WriteString\<close>: nothing, or the error and what has been written.
  \<open>z_IsDir\<close> is \<open>os.Stat\<close> of the directory. The other fields are the libraries for UUIDs, INI files,
  keys and HTTP, the formatting of JSON values other than strings with \<open>%v\<close> and \<open>%s\<close>, the text of a
  number after it was a float64 (\<open>z_num\<close>), and the terminal.
\<close>

record csr_subject =
  CommonName :: string
  OrganizationalUnit :: "string list"
  businessCategory :: "string option"

record 'w reg_env =
  z_op :: "reg_op \<Rightarrow> 'w \<Rightarrow> goerr option \<times> 'w"
  z_write :: "string \<Rightarrow> content \<Rightarrow> 'w \<Rightarrow> (goerr \<times> content) option \<times> 'w"
  z_IsDir :: "string \<Rightarrow> 'w \<Rightarrow> bool result"
  z_fmt_v :: "json \<Rightarrow> string"
  z_fmt_s :: "json \<Rightarrow> string"
  z_num :: "string \<Rightarrow> string"
  z_Ini :: "string \<Rightarrow> 'w \<Rightarrow> (string \<Rightarrow> string) result"
  z_uuidParse :: "string \<Rightarrow> bool"
  z_uuidGenerate :: "'w \<Rightarrow> string \<times> 'w"
  z_GenerateKey :: "'w \<Rightarrow> nat result \<times> 'w"
  z_CreateCertificateRequest :: "csr_subject \<Rightarrow> nat \<Rightarrow> 'w \<Rightarrow> string result \<times> 'w"
  z_MarshalECPrivateKey :: "nat \<Rightarrow> string result"
  z_pem :: "string \<Rightarrow> string \<Rightarrow> string"
  z_base64 :: "string \<Rightarrow> string"
  z_NewRequest :: "string \<Rightarrow> goerr option"
  z_Do :: "string \<Rightarrow> (string \<times> string) list \<Rightarrow> string \<Rightarrow> 'w \<Rightarrow> (int \<times> content) result \<times> 'w"
  z_Ping :: "string \<Rightarrow> 'w \<Rightarrow> int result \<times> 'w"
  z_ShowAuthInfo :: "string \<Rightarrow> string \<Rightarrow> string \<Rightarrow> int \<Rightarrow> 'w \<Rightarrow> 'w"
  z_Tick :: "'w \<Rightarrow> 'w"
  z_Sleep :: "int \<Rightarrow> 'w \<Rightarrow> 'w"
  z_float :: "string \<Rightarrow> int"
  z_Home :: "'w \<Rightarrow> string"
  z_Self :: "'w \<Rightarrow> string"
  z_LookPath :: "string \<Rightarrow> 'w \<Rightarrow> bool"
  z_Getegid :: "'w \<Rightarrow> int"

record reg_opts =
  g_Production :: bool
  g_SotaDir :: string
  g_DeviceGroup :: string
  g_Factory :: string
  g_PacmanTag :: string
  g_ApiToken :: string
  g_UUID :: string
  g_ComposeApps :: "string list"
  g_Name :: string
  g_ApiTokenHeader :: string
  g_Force :: bool
  g_HardwareID :: string
  g_dockerCfgPath :: string

definition AKLITE_LOCK :: string where "AKLITE_LOCK = ''/var/lock/aklite.lock''"
definition SOTA_PEM :: string where "SOTA_PEM = ''/client.pem''"
definition SOTA_SQL :: string where "SOTA_SQL = ''/sql.db''"
definition SOTA_CLIENT :: string where "SOTA_CLIENT = ''aktualizr-lite''"

section \<open>Calls of the operating system\<close>

definition sys :: "'w reg_env \<Rightarrow> reg_op \<Rightarrow> 'w host \<Rightarrow> goerr option \<times> 'w host" where
  "sys Z p h = (let (e, w) = z_op Z p (ext h) in (e, h\<lparr>ext := w\<rparr>))"

definition fileExists :: "'w reg_env \<Rightarrow> string \<Rightarrow> 'w host \<Rightarrow> bool \<times> 'w host" where
  "fileExists Z p h = (let (e, h) = sys Z (RStat p) h in (e = None \<and> fs h p \<noteq> None, h))"

definition os_remove :: "'w reg_env \<Rightarrow> string \<Rightarrow> 'w host \<Rightarrow> goerr option \<times> 'w host" where
  "os_remove Z p h =
    (case sys Z (RRemove p) h of
       (Some err, h) \<Rightarrow> (Some err, h)
     | (None, h) \<Rightarrow>
         (case fs h p of
            None \<Rightarrow> (Some (Sentinel ErrNotExist), h)
          | Some c \<Rightarrow> (None, h\<lparr>fs := (fs h)(p := None)\<rparr>)))"

text \<open>\<open>os.OpenFile\<close> for writing with \<open>O_CREATE\<close> and \<open>O_TRUNC\<close>.\<close>

definition open_trunc :: "'w reg_env \<Rightarrow> string \<Rightarrow> 'w host \<Rightarrow> goerr option \<times> 'w host" where
  "open_trunc Z p h =
    (case sys Z (ROpenWrite p) h of
       (Some err, h) \<Rightarrow> (Some err, h)
     | (None, h) \<Rightarrow> (None, h\<lparr>fs := (fs h)(p \<mapsto> Raw '''')\<rparr>))"

definition write_string :: "'w reg_env \<Rightarrow> string \<Rightarrow> content \<Rightarrow> 'w host \<Rightarrow> goerr option \<times> 'w host" where
  "write_string Z p c h =
    (case z_write Z p c (ext h) of
       (None, w) \<Rightarrow> (None, h\<lparr>ext := w, fs := (fs h)(p \<mapsto> c)\<rparr>)
     | (Some (err, c'), w) \<Rightarrow> (Some err, h\<lparr>ext := w, fs := (fs h)(p \<mapsto> c')\<rparr>))"

definition os_rename :: "'w reg_env \<Rightarrow> string \<Rightarrow> string \<Rightarrow> 'w host \<Rightarrow> goerr option \<times> 'w host" where
  "os_rename Z p q h =
    (case sys Z (RRename p q) h of
       (Some err, h) \<Rightarrow> (Some err, h)
     | (None, h) \<Rightarrow>
         (case fs h p of
            None \<Rightarrow> (Some (Sentinel ErrNotExist), h)
          | Some c \<Rightarrow> (None, h\<lparr>fs := ((fs h)(p := None))(q \<mapsto> c)\<rparr>)))"

section \<open>Registered or not\<close>

definition sotaCleanup :: "'w reg_env \<Rightarrow> reg_opts \<Rightarrow> 'w host \<Rightarrow> goerr option \<times> 'w host" where
  "sotaCleanup Z opt h =
    (let crt = g_SotaDir opt @ SOTA_PEM; sql = g_SotaDir opt @ SOTA_SQL;
         (there, h) = fileExists Z sql h;
         (e, h) = (if there then os_remove Z sql h else (None, h))
     in case e of
          Some err \<Rightarrow> (Some err, h)
        | None \<Rightarrow>
            (let (there, h) = fileExists Z crt h
             in if there then
                  (case os_remove Z crt h of
                     (Some err, h) \<Rightarrow> (Some (errorf (''unable to remove '' @ crt) err), h)
                   | (None, h) \<Rightarrow> (None, h))
                else (None, h)))"

definition checkSotaFiles :: "'w reg_env \<Rightarrow> reg_opts \<Rightarrow> 'w host \<Rightarrow> goerr option \<times> 'w host" where
  "checkSotaFiles Z opt h =
    (let (crt, h) = fileExists Z (g_SotaDir opt @ SOTA_PEM) h;
         (sql, h) = fileExists Z (g_SotaDir opt @ SOTA_SQL) h
     in if \<not> crt \<and> \<not> sql then (None, h)
        else if \<not> g_Force opt then (Some (Sentinel ErrExist), h)
        else sotaCleanup Z opt h)"

definition checkUpdateClientNotRunning :: "'w reg_env \<Rightarrow> 'w host \<Rightarrow> goerr option \<times> 'w host" where
  "checkUpdateClientNotRunning Z h =
    (let (there, h) = fileExists Z AKLITE_LOCK h
     in if \<not> there then (None, h)
        else case sys Z (ROpenRead AKLITE_LOCK) h of
          (Some err, h) \<Rightarrow> (Some (errorf ''unable to open update client lock file'' err), h)
        | (None, h) \<Rightarrow>
            (case sys Z (RFlock AKLITE_LOCK) h of
               (None, h) \<Rightarrow> (None, h)
             | (Some err, h) \<Rightarrow> (Some (errorf (SOTA_CLIENT @ '' already running'') err), h)))"

definition checkAndCreateSotaDir :: "'w reg_env \<Rightarrow> string \<Rightarrow> 'w host \<Rightarrow> goerr option \<times> 'w host" where
  "checkAndCreateSotaDir Z dir h =
    (case z_IsDir Z dir (ext h) of
       Inl err \<Rightarrow>
         if errors_is err ErrNotExist
         then (case sys Z (RMkdirAll dir) h of
                 (Some e, h) \<Rightarrow> (Some (errorf (''unable to create '' @ dir) e), h)
               | (None, h) \<Rightarrow> (None, h))
         else (Some (errorf (''unable to access '' @ dir) err), h)
     | Inr isdir \<Rightarrow> if \<not> isdir then (Some (ErrorString (dir @ '' is not a directory'')), h) else (None, h))"

definition checkDeviceStatus :: "'w reg_env \<Rightarrow> reg_opts \<Rightarrow> 'w host \<Rightarrow> goerr option \<times> 'w host" where
  "checkDeviceStatus Z opt h =
    (let tmp = g_SotaDir opt @ ''/.tmp''
     in case open_trunc Z tmp h of
          (Some err, h) \<Rightarrow> (Some (errorf (''unable to write to '' @ g_SotaDir opt) err), h)
        | (None, h) \<Rightarrow>
            (let (_, h) = os_remove Z tmp h
             in case checkUpdateClientNotRunning Z h of
                  (Some err, h) \<Rightarrow> (Some err, h)
                | (None, h) \<Rightarrow> checkSotaFiles Z opt h))"

section \<open>Writing files\<close>

definition tmp_name :: "string \<Rightarrow> string" where
  "tmp_name name = name @ ''.tmp''"

definition writeSafely :: "'w reg_env \<Rightarrow> string \<Rightarrow> content \<Rightarrow> 'w host \<Rightarrow> goerr option \<times> 'w host" where
  "writeSafely Z name c h =
    (let tmp = tmp_name name
     in case open_trunc Z tmp h of
          (Some err, h) \<Rightarrow> (Some (Wrapped (''unable to open '' @ tmp @ '' for writing: '' @ err_text err) [err]), h)
        | (None, h) \<Rightarrow>
            (case write_string Z tmp c h of
               (Some err, h) \<Rightarrow> (Some (errorf (''unable to write to '' @ tmp) err), h)
             | (None, h) \<Rightarrow>
                 (case sys Z (RSync tmp) h of
                    (Some err, h) \<Rightarrow> (Some (errorf (''unable to fsync '' @ tmp) err), h)
                  | (None, h) \<Rightarrow>
                      (case os_rename Z tmp name h of
                         (Some err, h) \<Rightarrow> (Some (errorf (''unable to create '' @ name) err), h)
                       | (None, h) \<Rightarrow> (None, h)))))"

text \<open>\<open>fmt.Sprintf("%v", data)\<close> of a decoded JSON value.\<close>

definition sprint_v :: "'w reg_env \<Rightarrow> json \<Rightarrow> string" where
  "sprint_v Z j = (case j of JStr s \<Rightarrow> s | _ \<Rightarrow> z_fmt_v Z j)"

fun write_files :: "'w reg_env \<Rightarrow> string \<Rightarrow> (string \<times> json) list \<Rightarrow> 'w host \<Rightarrow> goerr option \<times> 'w host" where
  "write_files Z dir [] h = (None, h)"
| "write_files Z dir ((name, data) # rest) h =
     (case writeSafely Z (path_join [dir, name]) (Raw (sprint_v Z data)) h of
        (Some err, h) \<Rightarrow> (Some err, h)
      | (None, h) \<Rightarrow> write_files Z dir rest h)"

definition populateSotaDir ::
  "'w env \<Rightarrow> 'w reg_env \<Rightarrow> reg_opts \<Rightarrow> (string \<times> json) list \<Rightarrow> string \<Rightarrow> 'w host \<Rightarrow> goerr option \<times> 'w host" where
  "populateSotaDir E Z opt resp pkey h =
    (case writeSafely Z (path_join [g_SotaDir opt, ''pkey.pem'']) (Raw pkey) h of
       (Some err, h) \<Rightarrow> (Some err, h)
     | (None, h) \<Rightarrow>
         (case write_files Z (g_SotaDir opt) (range_map E (ext h) resp) h of
            (None, h) \<Rightarrow> (None, h)
          | (Some err, h) \<Rightarrow>
              (let (_, h) = sotaCleanup Z opt h
               in (Some (ErrorString ''failed to populate sota directory''), h))))"

definition cleanup :: "'w reg_env \<Rightarrow> reg_opts \<Rightarrow> 'w host \<Rightarrow> 'w host" where
  "cleanup Z opt h = snd (sotaCleanup Z opt h)"

section \<open>Lemmas\<close>

lemma sys_frame: "sys Z p h = (e, h') \<Longrightarrow> fs h' = fs h \<and> report_events h' = report_events h
    \<and> installed_versions h' = installed_versions h \<and> reqs h' = reqs h"
  by (auto simp: sys_def split: prod.splits)

lemma fileExists_frame: "fileExists Z p h = (b, h') \<Longrightarrow> fs h' = fs h"
  by (auto simp: fileExists_def split: prod.splits dest!: sys_frame)

lemma os_remove_cases: "os_remove Z p h = (e, h') \<Longrightarrow>
    (e = None \<longrightarrow> fs h' = (fs h)(p := None)) \<and> (e \<noteq> None \<longrightarrow> fs h' = fs h)"
  by (auto simp: os_remove_def split: prod.splits option.splits dest!: sys_frame)

lemma tmp_name_neq [simp]: "tmp_name n \<noteq> n" "n \<noteq> tmp_name n"
  by (simp_all add: tmp_name_def)

lemma writeSafely_fs:
  assumes "writeSafely Z name c h = (e, h')"
  shows "fs h' name = (if e = None then Some c else fs h name)
    \<and> (\<forall>p. p \<noteq> name \<and> p \<noteq> tmp_name name \<longrightarrow> fs h' p = fs h p)
    \<and> (e = None \<longrightarrow> fs h' (tmp_name name) = None)"
  using assms
  by (auto simp: writeSafely_def Let_def open_trunc_def write_string_def os_rename_def
      split: prod.splits option.splits dest!: sys_frame)


lemma tmp_name_inj [simp]: "tmp_name m = tmp_name n \<longleftrightarrow> m = n"
  by (simp add: tmp_name_def)

text \<open>The two files that make a device a registered one.\<close>

abbreviation pem_path :: "reg_opts \<Rightarrow> string" where "pem_path opt \<equiv> g_SotaDir opt @ SOTA_PEM"
abbreviation sql_path :: "reg_opts \<Rightarrow> string" where "sql_path opt \<equiv> g_SotaDir opt @ SOTA_SQL"

lemma pem_sql_neq [simp]: "SOTA_PEM \<noteq> SOTA_SQL" "SOTA_SQL \<noteq> SOTA_PEM"
  by (simp_all add: SOTA_PEM_def SOTA_SQL_def)

lemma probe_neq [simp]: "''/.tmp'' \<noteq> SOTA_PEM" "''/.tmp'' \<noteq> SOTA_SQL" "SOTA_PEM \<noteq> ''/.tmp''" "SOTA_SQL \<noteq> ''/.tmp''"
  by (simp_all add: SOTA_PEM_def SOTA_SQL_def)

text \<open>The cleanup touches no file but these two, so what else a registration has written stays.\<close>

lemma sotaCleanup_frame:
  assumes "sotaCleanup Z opt h = (e, h')" and "p \<noteq> pem_path opt" and "p \<noteq> sql_path opt"
  shows "fs h' p = fs h p"
  using assms
  by (auto simp: sotaCleanup_def Let_def split: prod.splits option.splits if_splits
      dest!: fileExists_frame os_remove_cases)

text \<open>The files of the directory can be looked at and removed.\<close>

definition files_accessible :: "'w reg_env \<Rightarrow> bool" where
  "files_accessible Z \<longleftrightarrow>
     (\<forall>p w. fst (z_op Z (RStat p) w) = None) \<and> (\<forall>p w. fst (z_op Z (RRemove p) w) = None)"

lemma fileExists_exact:
  "files_accessible Z \<Longrightarrow> fileExists Z p h = (b, h') \<Longrightarrow> b = (fs h p \<noteq> None) \<and> fs h' = fs h"
  by (auto simp: fileExists_def sys_def files_accessible_def split: prod.splits) (metis fst_conv option.simps(3))+

lemma os_remove_exact:
  "files_accessible Z \<Longrightarrow> os_remove Z p h = (e, h') \<Longrightarrow> fs h p \<noteq> None \<Longrightarrow> e = None \<and> fs h' = (fs h)(p := None)"
  by (auto simp: os_remove_def sys_def files_accessible_def split: prod.splits option.splits) (metis fst_conv option.simps(3))+

lemma sotaCleanup_clears:
  assumes "files_accessible Z" and "sotaCleanup Z opt h = (e, h')"
  shows "e = None \<and> fs h' (pem_path opt) = None \<and> fs h' (sql_path opt) = None"
  using assms(2)
  by (auto simp: sotaCleanup_def Let_def split: prod.splits option.splits if_splits
      dest!: fileExists_exact [OF assms(1)] os_remove_exact [OF assms(1)])


section \<open>The files of a registration\<close>

lemma write_files_ok:
  assumes "write_files Z dir xs h = (None, h')"
    and "inj_on (\<lambda>n. path_join [dir, n]) (fst ` set xs)" and "distinct (map fst xs)"
    and "\<forall>m \<in> fst ` set xs. \<forall>n \<in> fst ` set xs. path_join [dir, m] \<noteq> tmp_name (path_join [dir, n])"
  shows "(\<forall>(n, d) \<in> set xs. fs h' (path_join [dir, n]) = Some (Raw (sprint_v Z d)))
    \<and> (\<forall>p. (\<forall>n \<in> fst ` set xs. p \<noteq> path_join [dir, n] \<and> p \<noteq> tmp_name (path_join [dir, n])) \<longrightarrow> fs h' p = fs h p)"
  using assms
proof (induction xs arbitrary: h)
  case (Cons x xs)
  obtain n d where x: "x = (n, d)" by (cases x)
  obtain h1 where w: "writeSafely Z (path_join [dir, n]) (Raw (sprint_v Z d)) h = (None, h1)"
    and r: "write_files Z dir xs h1 = (None, h')"
    using Cons.prems(1) by (auto simp: x split: prod.splits option.splits)
  have inj: "inj_on (\<lambda>n. path_join [dir, n]) (fst ` set xs)"
    using Cons.prems(2) by (rule inj_on_subset) auto
  note IH = Cons.IH [OF r inj]
  have other: "path_join [dir, n] \<noteq> path_join [dir, m]" if "m \<in> fst ` set xs" for m
    using Cons.prems(2,3) that by (auto simp: x inj_on_def)
  have tmp: "path_join [dir, n] \<noteq> tmp_name (path_join [dir, m])" if "m \<in> fst ` set xs" for m
    using Cons.prems(4) that by (fastforce simp: x)
  have IH1: "\<forall>(m, d) \<in> set xs. fs h' (path_join [dir, m]) = Some (Raw (sprint_v Z d))"
    and IH2: "\<And>p. (\<forall>m \<in> fst ` set xs. p \<noteq> path_join [dir, m] \<and> p \<noteq> tmp_name (path_join [dir, m])) \<Longrightarrow> fs h' p = fs h1 p"
    using IH Cons.prems(3,4) by (simp_all add: x)
  have "fs h' (path_join [dir, n]) = Some (Raw (sprint_v Z d))"
    using IH2 [of "path_join [dir, n]"] other tmp writeSafely_fs [OF w] by simp
  moreover have "fs h' p = fs h p"
    if "\<forall>m \<in> fst ` set (x # xs). p \<noteq> path_join [dir, m] \<and> p \<noteq> tmp_name (path_join [dir, m])" for p
    using IH2 [of p] that writeSafely_fs [OF w] by (simp add: x)
  ultimately show ?case using IH1 by (auto simp: x)
qed simp

text \<open>
  A file of the registration is replaced as a whole or not at all. When \<open>writeSafely\<close> succeeds the
  file has the new content and the temporary file is gone; when it fails, at whatever call, the file
  is as it was; no third file is ever touched.
\<close>

theorem writeSafely_atomic:
  assumes "writeSafely Z name c h = (e, h')"
  shows "fs h' name = (if e = None then Some c else fs h name)
    \<and> (e = None \<longrightarrow> fs h' (name @ ''.tmp'') = None)
    \<and> (\<forall>p. p \<noteq> name \<and> p \<noteq> name @ ''.tmp'' \<longrightarrow> fs h' p = fs h p)"
  using writeSafely_fs [OF assms] by (simp add: tmp_name_def)

definition disk :: "(string \<times> content) list \<Rightarrow> unit host" where
  "disk files = \<lparr>ext = (), fs = map_of files, report_events = None, installed_versions = None, reqs = []\<rparr>"

definition healthy_reg :: "unit reg_env" where
  "healthy_reg = (undefined :: unit reg_env)
     \<lparr>z_op := \<lambda>p w. (None, w), z_write := \<lambda>p c w. (None, w), z_IsDir := \<lambda>p w. Inr True\<rparr>"

lemma healthy_reg_fields [simp]:
  "z_op healthy_reg p () = (None, ())" "z_write healthy_reg q c () = (None, ())" "z_IsDir healthy_reg q () = Inr True"
  by (simp_all add: healthy_reg_def)

lemma healthy_reg_accessible: "files_accessible healthy_reg"
  by (simp add: files_accessible_def)

lemma writeSafely_atomic_witness:
  "\<exists>h'. writeSafely healthy_reg ''/a'' (Raw ''new'') (disk [(''/a'', Raw ''old'')]) = (None, h')
     \<and> fs h' ''/a'' = Some (Raw ''new'')"
proof -
  obtain h' where w: "writeSafely healthy_reg ''/a'' (Raw ''new'') (disk [(''/a'', Raw ''old'')]) = (None, h')"
    by (simp add: writeSafely_def Let_def open_trunc_def write_string_def os_rename_def sys_def disk_def tmp_name_def)
  from writeSafely_atomic [OF w] w show ?thesis by auto
qed


definition listing_env :: "unit env" where
  "listing_env = (undefined :: unit env)\<lparr>x_map_order := \<lambda>ks w. ks, x_io := \<lambda>p w. (None, w)\<rparr>"

lemma listing_env_fields [simp]: "x_map_order listing_env ks w = ks" "x_io listing_env p () = (None, ())" "map_order_ok listing_env"
  by (simp_all add: listing_env_def map_order_ok_def)

definition some_opts :: reg_opts where
  "some_opts = \<lparr>g_Production = False, g_SotaDir = ''/s'', g_DeviceGroup = '''', g_Factory = ''f'', g_PacmanTag = ''t'',
     g_ApiToken = ''k'', g_UUID = ''u'', g_ComposeApps = [], g_Name = '''', g_ApiTokenHeader = ''T'', g_Force = False,
     g_HardwareID = ''x'', g_dockerCfgPath = ''''\<rparr>"


end
