(* ===== verification/DockerConfig.thy ===== *)
theory DockerConfig
  imports SotaDir "HOL-Library.AList" "HOL-Library.Char_ord" "HOL-Library.List_Lexorder"
begin

text \<open>
  \<open>internal/register/docker.go\<close>: the registration makes fioup the credential helper of the factory's
  registry. The new docker configuration is first staged in a temporary file, and put in place at
  the very end. A Go map decoded from JSON is an association list with distinct keys here; it is
  printed with its keys sorted, at every depth, and with its numbers as float64. Symbolic links are outside the modelled files.
\<close>

section \<open>Go maps of JSON values\<close>

text \<open>Of a key that is repeated in the document the last value counts.\<close>

definition go_map :: "(string \<times> json) list \<Rightarrow> (string \<times> json) list" where
  "go_map kvs = foldl (\<lambda>m kv. AList.update (fst kv) (snd kv) m) [] kvs"

definition marshal_map :: "(string \<times> json) list \<Rightarrow> json" where
  "marshal_map m = JObj (sort_key fst m)"

text \<open>The JSON value that a value decoded into \<open>any\<close> is printed as.\<close>

primrec decode_any :: "(string \<Rightarrow> string) \<Rightarrow> json \<Rightarrow> json" where
  "decode_any num JNull = JNull"
| "decode_any num (JBool b) = JBool b"
| "decode_any num (JNum t) = JNum (num t)"
| "decode_any num (JStr s) = JStr s"
| "decode_any num (JArr xs) = JArr (map (decode_any num) xs)"
| "decode_any num (JObj kvs) = marshal_map (go_map (map (map_prod id (decode_any num)) kvs))"

section \<open>The registry\<close>

text \<open>\<open>url.Hostname\<close> of the host part: without the port, and without brackets.\<close>

definition all_digits :: "string \<Rightarrow> bool" where
  "all_digits s \<longleftrightarrow> list_all (\<lambda>c. c \<in> set ''0123456789'') s"

definition strip_port :: "string \<Rightarrow> string" where
  "strip_port s =
    (let r = rev s; port = takeWhile (\<lambda>c. c \<noteq> CHR '':'') r
     in if length port < length r \<and> all_digits port then rev (drop (Suc (length port)) r) else s)"

definition hostname :: "string \<Rightarrow> string" where
  "hostname s =
    (let h = strip_port s
     in if length h \<ge> 2 \<and> hd h = CHR ''['' \<and> last h = CHR '']'' then butlast (tl h) else h)"

text \<open>\<open>strings.Replace(s, old, new, 1)\<close>.\<close>

fun replace_first :: "string \<Rightarrow> string \<Rightarrow> string \<Rightarrow> string" where
  "replace_first old new [] = (if old = [] then new else [])"
| "replace_first old new (c # cs) =
     (if take (length old) (c # cs) = old then new @ drop (length old) (c # cs)
      else c # replace_first old new cs)"

definition hub_url :: "'w env \<Rightarrow> string \<Rightarrow> string result" where
  "hub_url E api =
    (if api = '''' then Inr ''hub.foundries.io''
     else case x_UrlParse E api of
       Inl err \<Rightarrow> Inl (errorf ''invalid DEVICE_API override'' err)
     | Inr uri \<Rightarrow> Inr (replace_first ''api.'' ''hub.'' (hostname (url_Host uri))))"

section \<open>Staging and committing\<close>

definition docker_error :: "goerr \<Rightarrow> goerr" where
  "docker_error err =
    Wrapped (''unable to configure docker-credential-helper: '' @ err_text err
      @ ''. Please consult documentation for manually configuration steps'') [err]"

definition getDockerConfigPath :: "'w reg_env \<Rightarrow> 'w host \<Rightarrow> string result \<times> 'w host" where
  "getDockerConfigPath Z h =
    (case sys Z RHomeDir h of
       (Some err, h) \<Rightarrow> (Inl (docker_error err), h)
     | (None, h) \<Rightarrow>
         (let path = path_join [z_Home Z (ext h), ''.docker'']
          in case sys Z (RMkdir path) h of
               (Some err, h) \<Rightarrow> if errors_is err ErrExist then (Inr path, h) else (Inl (docker_error err), h)
             | (None, h) \<Rightarrow> (Inr path, h)))"

text \<open>The configuration as a Go map; \<open>Inr None\<close> is the nil map that the document \<open>null\<close> decodes to.\<close>

definition decode_docker :: "'w reg_env \<Rightarrow> content \<Rightarrow> (string \<times> json) list option result" where
  "decode_docker Z c =
    (case c of
       JsonDoc (JObj kvs) \<Rightarrow> Inr (Some (go_map (map (map_prod id (decode_any (z_num Z))) kvs)))
     | JsonDoc JNull \<Rightarrow> Inr None
     | _ \<Rightarrow> Inl (ErrorString ''json: cannot unmarshal''))"

definition read_docker :: "'w env \<Rightarrow> 'w reg_env \<Rightarrow> string \<Rightarrow> 'w host \<Rightarrow> (string \<times> json) list option result \<times> 'w host" where
  "read_docker E Z p h =
    (case read_file E p h of
       (Inl err, h) \<Rightarrow>
         if errors_is err ErrNotExist then (Inr (Some []), h)
         else (Inl (errorf ''unable to read docker configuration'' err), h)
     | (Inr c, h) \<Rightarrow>
         (case decode_docker Z c of
            Inl err \<Rightarrow> (Inl (errorf ''unable to update docker configuration for credential helper'' err), h)
          | Inr m \<Rightarrow> (Inr m, h)))"

text \<open>The helper is added; an assignment to the nil map and helpers that are no object panic.\<close>

definition add_helper :: "string \<Rightarrow> (string \<times> json) list option \<Rightarrow> (string \<times> json) list outcome" where
  "add_helper hub m =
    (case m of
       None \<Rightarrow> Panicked
     | Some m \<Rightarrow>
         (case map_of m ''credHelpers'' of
            None \<Rightarrow> Ret (AList.update ''credHelpers'' (marshal_map [(hub, JStr ''fioup'')]) m)
          | Some (JObj hs) \<Rightarrow>
              Ret (AList.update ''credHelpers'' (marshal_map (AList.update hub (JStr ''fioup'') hs)) m)
          | Some _ \<Rightarrow> Panicked))"

definition stageDockerChanges ::
  "'w env \<Rightarrow> 'w reg_env \<Rightarrow> reg_opts \<Rightarrow> 'w host \<Rightarrow> goerr option outcome \<times> reg_opts \<times> 'w host" where
  "stageDockerChanges E Z opt h =
    (case hub_url E (x_getenv E ''DEVICE_API'' (ext h)) of
       Inl err \<Rightarrow> (Ret (Some err), opt, h)
     | Inr hub \<Rightarrow>
         (case getDockerConfigPath Z h of
            (Inl err, h) \<Rightarrow> (Ret (Some err), opt, h)
          | (Inr path, h) \<Rightarrow>
              (let cfg = path_join [path, ''config.json'']; opt = opt\<lparr>g_dockerCfgPath := cfg\<rparr>
               in case read_docker E Z cfg h of
                    (Inl err, h) \<Rightarrow> (Ret (Some err), opt, h)
                  | (Inr m, h) \<Rightarrow>
                      (case add_helper hub m of
                         Panicked \<Rightarrow> (Panicked, opt, h)
                       | Ret m \<Rightarrow>
                           (case writeSafely Z (tmp_name cfg) (JsonDoc (marshal_map m)) h of
                              (Some err, h) \<Rightarrow>
                                (Ret (Some (errorf ''unable to configure docker-credential-helper'' err)), opt, h)
                            | (None, h) \<Rightarrow> (Ret None, opt, h))))))"

fun link_in_path :: "'w reg_env \<Rightarrow> string \<Rightarrow> string list \<Rightarrow> 'w host \<Rightarrow> bool \<times> 'w host" where
  "link_in_path Z self [] h = (False, h)"
| "link_in_path Z self (p # ps) h =
     (case sys Z (RSymlink self (path_join [p, ''docker-credential-fioup''])) h of
        (None, h) \<Rightarrow> (True, h)
      | (Some err, h) \<Rightarrow> link_in_path Z self ps h)"

definition link_helper :: "'w env \<Rightarrow> 'w reg_env \<Rightarrow> string \<Rightarrow> 'w host \<Rightarrow> goerr option \<times> 'w host" where
  "link_helper E Z self h =
    (if z_LookPath Z ''docker-credential-fioup'' (ext h) then (None, h)
     else if z_Getegid Z (ext h) = 0 then
       (case sys Z (RSymlink self ''/usr/local/bin/docker-credential-fioup'') h of
          (Some err, h) \<Rightarrow>
            (Some (errorf ''unable to configure docker-credential-helper. Can't link to self'' err), h)
        | (None, h) \<Rightarrow> (None, h))
     else
       (let paths = split_on (CHR '':'') (x_getenv E ''PATH'' (ext h)); (found, h) = link_in_path Z self paths h
        in if found then (None, h)
           else (Some (ErrorString (''unable to configure docker-credential-helper. Can't find writeable location''
              @ '' under user's PATH=['' @ join '' '' paths @ '']'')), h)))"

definition commitDockerChanges :: "'w env \<Rightarrow> 'w reg_env \<Rightarrow> reg_opts \<Rightarrow> 'w host \<Rightarrow> goerr option \<times> 'w host" where
  "commitDockerChanges E Z opt h =
    (case sys Z RReadlink h of
       (Some err, h) \<Rightarrow> (Some (errorf ''unable to configure docker-credential-helper. Can't find self'' err), h)
     | (None, h) \<Rightarrow>
         (case link_helper E Z (z_Self Z (ext h)) h of
            (Some err, h) \<Rightarrow> (Some err, h)
          | (None, h) \<Rightarrow>
              (case os_rename Z (tmp_name (g_dockerCfgPath opt)) (g_dockerCfgPath opt) h of
                 (Some err, h) \<Rightarrow> (Some (errorf ''unable to configure docker-credential-helper'' err), h)
               | (None, h) \<Rightarrow> (None, h))))"

section \<open>Lemmas\<close>

lemma go_map_distinct: "distinct (map fst (go_map kvs))"
proof -
  have "distinct (map fst m) \<Longrightarrow> distinct (map fst (foldl (\<lambda>m kv. AList.update (fst kv) (snd kv) m) m kvs))" for m
    by (induction kvs arbitrary: m) (simp_all add: distinct_update)
  then show ?thesis by (simp add: go_map_def)
qed

lemma map_of_same_set:
  assumes "distinct (map fst xs)" and "distinct (map fst ys)" and "set xs = set ys"
  shows "map_of xs = map_of ys"
  using assms by (simp add: map_of_inject_set)

lemma map_of_sorted: "distinct (map fst m) \<Longrightarrow> map_of (sort_key fst m) = map_of m"
proof (rule map_of_same_set)
  assume d: "distinct (map fst m)"
  have "mset (map fst (sort_key fst m)) = mset (map fst m)" by simp
  then show "distinct (map fst (sort_key fst m))" using d by (metis mset_eq_imp_distinct_iff)
qed simp_all

lemma link_helper_fs: "link_helper E Z self h = (e, h') \<Longrightarrow> fs h' = fs h"
proof -
  have "fs (snd (link_in_path Z self ps h)) = fs h" for ps h
    by (induction ps arbitrary: h) (auto split: prod.splits option.splits dest: sys_frame)
  then have "link_in_path Z self ps h = (b, h') \<Longrightarrow> fs h' = fs h" for ps b h h' by (metis snd_conv)
  then show "link_helper E Z self h = (e, h') \<Longrightarrow> fs h' = fs h"
    by (auto simp: link_helper_def Let_def split: if_splits prod.splits option.splits dest: sys_frame)
qed


lemma marshal_map_lookup: "distinct (map fst m) \<Longrightarrow> marshal_map m = JObj kvs \<Longrightarrow> map_of kvs = map_of m"
  by (auto simp: marshal_map_def map_of_sorted)

lemma map_of_go_map: "map_of (go_map kvs) k = Some v \<Longrightarrow> (k, v) \<in> set kvs"
proof -
  have "map_of (foldl (\<lambda>m kv. AList.update (fst kv) (snd kv) m) m kvs) k = Some v \<Longrightarrow> map_of m k \<noteq> Some v \<Longrightarrow> (k, v) \<in> set kvs" for m
  proof (induction kvs arbitrary: m)
    case (Cons kv kvs)
    show ?case
    proof (cases "map_of (AList.update (fst kv) (snd kv) m) k = Some v")
      case True
      then have "(k, v) = kv" using Cons.prems(2) by (cases kv) (auto simp: update_conv' split: if_splits)
      then show ?thesis by simp
    next
      case False
      with Cons.IH [of "AList.update (fst kv) (snd kv) m"] Cons.prems(1) show ?thesis by simp
    qed
  qed simp
  from this [of "[]"] show "map_of (go_map kvs) k = Some v \<Longrightarrow> (k, v) \<in> set kvs" by (simp add: go_map_def)
qed

lemma decode_any_obj: "decode_any num j = JObj hs \<Longrightarrow> distinct (map fst hs)"
proof (cases j)
  case (JObj kvs)
  let ?m = "go_map (map (map_prod id (decode_any num)) kvs)"
  assume "decode_any num j = JObj hs"
  then have "hs = sort_key fst ?m" by (simp add: JObj marshal_map_def)
  moreover have "mset (map fst (sort_key fst ?m)) = mset (map fst ?m)" by simp
  ultimately show ?thesis using go_map_distinct by (metis mset_eq_imp_distinct_iff)
qed simp_all

lemma decode_docker_ok:
  assumes "decode_docker Z c = Inr (Some m)"
  shows "distinct (map fst m)" and "map_of m k = Some (JObj hs) \<Longrightarrow> distinct (map fst hs)"
proof -
  obtain kvs where m: "m = go_map (map (map_prod id (decode_any (z_num Z))) kvs)"
    using assms by (auto simp: decode_docker_def split: content.splits json.splits)
  then show "distinct (map fst m)" by (simp add: go_map_distinct)
  show "distinct (map fst hs)" if "map_of m k = Some (JObj hs)"
    using map_of_go_map [OF that [unfolded m]] by (auto intro: decode_any_obj dest: sym)
qed

definition cred_helpers :: "(string \<times> json) list \<Rightarrow> (string \<times> json) list" where
  "cred_helpers m = (case map_of m ''credHelpers'' of Some (JObj hs) \<Rightarrow> hs | _ \<Rightarrow> [])"

lemma add_helper_ok:
  assumes "add_helper hub (Some m) = Ret m'" and "distinct (map fst m)"
    and "\<And>hs. map_of m ''credHelpers'' = Some (JObj hs) \<Longrightarrow> distinct (map fst hs)"
  shows "distinct (map fst m') \<and> map_of (cred_helpers m') = (map_of (cred_helpers m))(hub \<mapsto> JStr ''fioup'')
    \<and> (\<forall>k. k \<noteq> ''credHelpers'' \<longrightarrow> map_of m' k = map_of m k)"
proof (cases "map_of m ''credHelpers''")
  case None
  then show ?thesis using assms(1,2)
    by (auto simp: add_helper_def cred_helpers_def distinct_update update_conv' marshal_map_def)
next
  case (Some v)
  then obtain hs where v: "map_of m ''credHelpers'' = Some (JObj hs)"
    and m': "m' = AList.update ''credHelpers'' (marshal_map (AList.update hub (JStr ''fioup'') hs)) m"
    using assms(1) by (auto simp: add_helper_def split: json.splits)
  have "distinct (map fst (AList.update hub (JStr ''fioup'') hs))" using assms(3) [OF v] by (simp add: distinct_update)
  then show ?thesis using assms(2) v
    by (auto simp: m' cred_helpers_def distinct_update update_conv' marshal_map_def map_of_sorted)
qed

text \<open>A configuration \<open>null\<close>, or one whose helpers are no object, ends in a panic.\<close>

lemma docker_panics:
  "decode_docker Z (JsonDoc JNull) = Inr None" "add_helper hub None = Panicked"
  "add_helper hub (Some [(''credHelpers'', JNull)]) = Panicked"
  by (simp_all add: decode_docker_def add_helper_def)

lemma stageDockerChanges_ok:
  assumes "stageDockerChanges E Z opt h = (Ret None, opt', h')"
  obtains hub cfg m m' h1 h2 where "hub_url E (x_getenv E ''DEVICE_API'' (ext h)) = Inr hub"
    and "opt' = opt\<lparr>g_dockerCfgPath := cfg\<rparr>" and "fs h1 = fs h" and "read_docker E Z cfg h1 = (Inr m, h2)"
    and "add_helper hub m = Ret m'" and "writeSafely Z (tmp_name cfg) (JsonDoc (marshal_map m')) h2 = (None, h')"
proof -
  obtain hub where hub: "hub_url E (x_getenv E ''DEVICE_API'' (ext h)) = Inr hub"
    using assms by (auto simp: stageDockerChanges_def split: sum.splits)
  obtain path h1 where path: "getDockerConfigPath Z h = (Inr path, h1)"
    using assms hub by (auto simp: stageDockerChanges_def split: sum.splits prod.splits)
  have "fs h1 = fs h" using path
    by (auto simp: getDockerConfigPath_def Let_def split: prod.splits option.splits if_splits dest!: sys_frame)
  then show thesis using assms hub path that
    by (auto simp: stageDockerChanges_def Let_def split: sum.splits prod.splits option.splits outcome.splits)
qed


definition home_env :: "unit env" where
  "home_env = listing_env\<lparr>x_getenv := \<lambda>v w. ''''\<rparr>"

definition home_reg :: "unit reg_env" where
  "home_reg = healthy_reg\<lparr>z_Home := \<lambda>w. ''/root'', z_Self := \<lambda>w. ''/usr/bin/fioup'', z_LookPath := \<lambda>p w. True, z_num := id\<rparr>"

lemma home_fields [simp]:
  "x_getenv home_env v w = ''''" "x_io home_env p () = (None, ())" "z_op home_reg q () = (None, ())"
  "z_write home_reg n c () = (None, ())" "z_Home home_reg () = ''/root''" "z_LookPath home_reg b () = True"
  "z_num home_reg = id" "x_map_order home_env ks u = ks" "map_order_ok home_env" "z_IsDir home_reg d () = Inr True"
  "files_accessible home_reg"
  by (simp_all add: home_env_def home_reg_def map_order_ok_def files_accessible_def)


end
