(* ===== verification/RegisterAuth.thy ===== *)
theory RegisterAuth
  imports DockerConfig "HOL-Library.Signed_Division"
begin

text \<open>
  \<open>internal/register/auth.go\<close>: the HTTP calls of the registration. They concern no file, so the
  definitions work on the state outside the program alone. A failed type assertion is a panic; the
  loop that waits for the user's authorization may never end, so its result is an option, \<open>None\<close> when
  it does not return. JSON numbers are assumed to be in the range of float64.
\<close>

section \<open>Requests\<close>

definition DEVICE_API :: string where "DEVICE_API = ''https://api.foundries.io/ota/devices/''"
definition OAUTH_API :: string where "OAUTH_API = ''https://app.foundries.io/oauth''"

definition nl :: string where "nl = [CHR 0x0A]"

definition respToErr :: "'w env \<Rightarrow> 'w reg_env \<Rightarrow> int \<Rightarrow> (string \<times> json) list \<Rightarrow> 'w \<Rightarrow> goerr" where
  "respToErr E Z code resp w =
    ErrorString (''HTTP_'' @ itoa code @ nl
      @ (case map_of resp ''data'' of Some (JStr d) \<Rightarrow> if d \<noteq> '''' then d @ nl else '''' | _ \<Rightarrow> '''')
      @ concat (map (\<lambda>(k, v). '' | '' @ k @ '': '' @ sprint_v Z v @ nl) (range_map E w resp)))"

text \<open>The answer decoded into a Go map; the nil map reads like an empty one.\<close>

definition decode_map :: "content \<Rightarrow> (string \<times> json) list result" where
  "decode_map c =
    (case c of
       JsonDoc (JObj kvs) \<Rightarrow> Inr (go_map kvs)
     | JsonDoc JNull \<Rightarrow> Inr []
     | _ \<Rightarrow> Inl (ErrorString ''json: cannot unmarshal''))"

definition httpPost ::
  "'w reg_env \<Rightarrow> string \<Rightarrow> (string \<times> string) list \<Rightarrow> string \<Rightarrow> 'w \<Rightarrow> ((string \<times> json) list \<times> int \<times> goerr option) \<times> 'w" where
  "httpPost Z url headers data w =
    (case z_NewRequest Z url of
       Some err \<Rightarrow> (([], 0, Some err), w)
     | None \<Rightarrow>
         (case z_Do Z url headers data w of
            (Inl err, w) \<Rightarrow> (([], 0, Some err), w)
          | (Inr (code, body), w) \<Rightarrow>
              (case decode_map body of
                 Inl err \<Rightarrow> (([], code, Some (errorf ''failed to unmarshal response body'' err)), w)
               | Inr m \<Rightarrow> ((m, code, None), w))))"

section \<open>The token\<close>

definition seconds :: "int \<Rightarrow> int" where
  "seconds n = wrap64 (n * 1000000000)"

definition is_pending :: "(string \<times> json) list \<Rightarrow> bool" where
  "is_pending m \<longleftrightarrow> map_of m ''error'' = Some (JStr ''authorization_pending'')"

text \<open>
  The loop of \<open>getOauthToken\<close>: \<open>resp\<close> is the answer to the first request, which the error reports,
  and \<open>interval\<close> the seconds between two requests.
\<close>

partial_function (option) token_loop ::
  "'w env \<Rightarrow> 'w reg_env \<Rightarrow> string \<Rightarrow> (string \<times> string) list \<Rightarrow> string \<Rightarrow> (string \<times> json) list \<Rightarrow> int \<Rightarrow> 'w
   \<Rightarrow> (string result outcome \<times> 'w) option" where
  "token_loop E Z url headers data resp interval w =
    (case httpPost Z (url @ ''/token/'') headers data w of
       ((m, code, err), w) \<Rightarrow>
         if err = None \<and> code = 200 then
           Some ((case map_of m ''access_token'' of Some (JStr t) \<Rightarrow> Ret (Inr t) | _ \<Rightarrow> Panicked), w)
         else if code \<noteq> 400 then token_loop E Z url headers data resp interval (z_Sleep Z (seconds 2) w)
         else if is_pending m then
           token_loop E Z url headers data resp interval (z_Sleep Z (seconds interval) (z_Tick Z w))
         else Some (Ret (Inl (errorf ''unable to authorize device'' (respToErr E Z code resp w))), w))"

definition sprint_s :: "'w reg_env \<Rightarrow> json option \<Rightarrow> string" where
  "sprint_s Z j = (case j of Some (JStr s) \<Rightarrow> s | Some j \<Rightarrow> z_fmt_s Z j | None \<Rightarrow> z_fmt_s Z JNull)"

definition getOauthToken ::
  "'w env \<Rightarrow> 'w reg_env \<Rightarrow> string \<Rightarrow> string \<Rightarrow> 'w \<Rightarrow> (string result outcome \<times> 'w) option" where
  "getOauthToken E Z factory deviceUUID w =
    (let headers = [(''Content-Type'', ''application/x-www-form-urlencoded'')];
         env = x_getenv E ''OAUTH_BASE'' w; url = (if env \<noteq> '''' then env else OAUTH_API);
         data = ''client_id='' @ deviceUUID @ ''&scope='' @ factory @ '':devices:create''
     in case httpPost Z (url @ ''/authorization/device/'') headers data w of
          ((resp, code, Some err), w) \<Rightarrow> Some (Ret (Inl err), w)
        | ((resp, code, None), w) \<Rightarrow>
            if code \<noteq> 200 then
              Some (Ret (Inl (errorf ''unable to create device authorization request'' (respToErr E Z code resp w))), w)
            else case (map_of resp ''expires_in'', map_of resp ''user_code'', map_of resp ''verification_uri'') of
              (Some (JNum n), Some (JStr uc), Some (JStr uri)) \<Rightarrow>
                (let w = z_ShowAuthInfo Z deviceUUID uc uri (z_float Z n sdiv 60) w;
                     data = ''grant_type=urn:ietf:params:oauth:grant-type:device_code&device_code=''
                       @ sprint_s Z (map_of resp ''device_code'') @ ''&client_id='' @ deviceUUID
                       @ ''&scope='' @ factory @ '':devices:create''
                 in case map_of resp ''interval'' of
                      Some (JNum i) \<Rightarrow> token_loop E Z url headers data resp (z_float Z i) w
                    | _ \<Rightarrow> Some (Panicked, w))
            | _ \<Rightarrow> Some (Panicked, w))"

definition authGetHttpHeaders ::
  "'w env \<Rightarrow> 'w reg_env \<Rightarrow> reg_opts \<Rightarrow> 'w \<Rightarrow> ((string \<times> string) list result outcome \<times> 'w) option" where
  "authGetHttpHeaders E Z opt w =
    (let headers = [(''Content-type'', ''application/json'')]
     in if g_ApiToken opt \<noteq> '''' then Some (Ret (Inr (AList.update (g_ApiTokenHeader opt) (g_ApiToken opt) headers)), w)
        else case getOauthToken E Z (g_Factory opt) (g_UUID opt) w of
          None \<Rightarrow> None
        | Some (Panicked, w) \<Rightarrow> Some (Panicked, w)
        | Some (Ret (Inl err), w) \<Rightarrow> Some (Ret (Inl err), w)
        | Some (Ret (Inr token), w) \<Rightarrow>
            Some (Ret (Inr (AList.update ''Authorization'' (''Bearer '' @ z_base64 Z token) headers)), w))"

section \<open>The device gateway\<close>

definition device_api :: "'w env \<Rightarrow> 'w \<Rightarrow> string" where
  "device_api E w = (let api = x_getenv E ''DEVICE_API'' w in if api = '''' then DEVICE_API else api)"

text \<open>The name in the device's description, which is logged, has to be a string.\<close>

definition authRegisterDevice ::
  "'w env \<Rightarrow> 'w reg_env \<Rightarrow> (string \<times> string) list \<Rightarrow> (string \<times> json) list \<Rightarrow> 'w
   \<Rightarrow> (string \<times> json) list result outcome \<times> 'w" where
  "authRegisterDevice E Z headers device w =
    (case map_of device ''name'' of
       Some (JStr name) \<Rightarrow>
         (case httpPost Z (device_api E w) headers (json_indent 0 (marshal_map device)) w of
            ((m, code, err), w) \<Rightarrow>
              if code \<noteq> 201 \<or> err \<noteq> None
              then (Ret (Inl (errorf ''unable to create device'' (respToErr E Z code m w))), w)
              else (Ret (Inr m), w))
     | _ \<Rightarrow> (Panicked, w))"

text \<open>\<open>%w\<close> with a nil error prints a complaint about it.\<close>

definition authPingServer :: "'w env \<Rightarrow> 'w reg_env \<Rightarrow> 'w \<Rightarrow> goerr option \<times> 'w" where
  "authPingServer E Z w =
    (case z_Ping Z (device_api E w) w of
       (Inl err, w) \<Rightarrow> (Some (Wrapped (''ping failed '' @ err_text err) [err]), w)
     | (Inr code, w) \<Rightarrow>
         if code > 500 then (Some (ErrorString ''ping failed %!w(<nil>)''), w) else (None, w))"

section \<open>The token is waited for\<close>

lemma token_loop_pending:
  assumes "httpPost Z (url @ ''/token/'') headers data w = ((m, 400, err), w')" and "is_pending m"
  shows "token_loop E Z url headers data resp interval w
    = token_loop E Z url headers data resp interval (z_Sleep Z (seconds interval) (z_Tick Z w'))"
  by (subst token_loop.simps) (simp add: assms)

lemma token_loop_retry:
  assumes "httpPost Z (url @ ''/token/'') headers data w = ((m, code, err), w')"
    and "code \<noteq> 400" and "\<not> (err = None \<and> code = 200)"
  shows "token_loop E Z url headers data resp interval w
    = token_loop E Z url headers data resp interval (z_Sleep Z (seconds 2) w')"
  using assms by (subst token_loop.simps) auto

lemma token_loop_done:
  assumes "httpPost Z (url @ ''/token/'') headers data w = ((m, 200, None), w')"
    and "map_of m ''access_token'' = Some (JStr t)"
  shows "token_loop E Z url headers data resp interval w = Some (Ret (Inr t), w')"
  by (subst token_loop.simps) (simp add: assms)

text \<open>One failed request for the token, with the wait after it.\<close>

inductive token_wait ::
  "'w reg_env \<Rightarrow> string \<Rightarrow> (string \<times> string) list \<Rightarrow> string \<Rightarrow> int \<Rightarrow> 'w \<Rightarrow> 'w \<Rightarrow> bool"
  for Z url headers data interval where
  pending: "httpPost Z (url @ ''/token/'') headers data w = ((m, 400, err), w') \<Longrightarrow> is_pending m
    \<Longrightarrow> token_wait Z url headers data interval w (z_Sleep Z (seconds interval) (z_Tick Z w'))"
| retry: "httpPost Z (url @ ''/token/'') headers data w = ((m, code, err), w') \<Longrightarrow> code \<noteq> 400
    \<Longrightarrow> \<not> (err = None \<and> code = 200)
    \<Longrightarrow> token_wait Z url headers data interval w (z_Sleep Z (seconds 2) w')"

lemma token_wait_loop:
  "token_wait Z url headers data interval w w' \<Longrightarrow>
     token_loop E Z url headers data resp interval w = token_loop E Z url headers data resp interval w'"
  by (induction rule: token_wait.induct) (simp_all add: token_loop_pending token_loop_retry)

lemma token_waits_loop:
  "(token_wait Z url headers data interval)\<^sup>*\<^sup>* w w' \<Longrightarrow>
     token_loop E Z url headers data resp interval w = token_loop E Z url headers data resp interval w'"
  by (induction rule: rtranclp_induct) (simp_all add: token_wait_loop)

text \<open>
  C25: waiting for the authorization ends with the first answer that decides it. After any number of
  answers "authorization pending", network errors and unexpected statuses, each followed by its wait,
  the loop returns: the token of an answer 200, or an error for an answer 400 that is not pending,
  and makes no request after it.
\<close>

theorem token_loop_ends:
  assumes "(token_wait Z url headers data interval)\<^sup>*\<^sup>* w w'"
  shows "(\<forall>m t w''. httpPost Z (url @ ''/token/'') headers data w' = ((m, 200, None), w'')
        \<and> map_of m ''access_token'' = Some (JStr t)
        \<longrightarrow> token_loop E Z url headers data resp interval w = Some (Ret (Inr t), w''))
    \<and> (\<forall>m err w''. httpPost Z (url @ ''/token/'') headers data w' = ((m, 400, err), w'') \<and> \<not> is_pending m
        \<longrightarrow> (\<exists>e. token_loop E Z url headers data resp interval w = Some (Ret (Inl e), w'')))"
proof -
  have "\<exists>e. token_loop E Z url headers data resp interval w' = Some (Ret (Inl e), w'')"
    if "httpPost Z (url @ ''/token/'') headers data w' = ((m, 400, err), w'')" "\<not> is_pending m" for m err w''
    by (subst token_loop.simps) (simp add: that)
  with token_waits_loop [OF assms] show ?thesis by (auto simp: token_loop_done)
qed

text \<open>A script of answers, one for each request.\<close>

definition script_reg :: "(int \<times> content) list reg_env" where
  "script_reg = (undefined :: (int \<times> content) list reg_env)
     \<lparr>z_NewRequest := \<lambda>u. None, z_Do := \<lambda>u hs d w. (case w of [] \<Rightarrow> (Inl (ErrorString ''down''), []) | a # w \<Rightarrow> (Inr a, w)),
      z_Sleep := \<lambda>n w. w, z_Tick := \<lambda>w. w\<rparr>"

lemma script_post:
  "decode_map c = Inr m \<Longrightarrow> httpPost script_reg u hs d ((code, c) # w) = ((m, code, None), w)"
  by (simp add: httpPost_def script_reg_def)

lemma script_idle [simp]: "z_Sleep script_reg n w = w" "z_Tick script_reg w = w"
  by (simp_all add: script_reg_def)

lemma token_loop_ends_witness:
  "token_loop (undefined :: (int \<times> content) list env) script_reg ''u'' [] ''d'' [] 5
     [(400, JsonDoc (JObj [(''error'', JStr ''authorization_pending'')])), (502, JsonDoc JNull),
      (200, JsonDoc (JObj [(''access_token'', JStr ''T'')]))]
   = Some (Ret (Inr ''T''), [])"
proof -
  let ?done = "[(200, JsonDoc (JObj [(''access_token'', JStr ''T'')]))]"
  let ?w1 = "(502, JsonDoc JNull) # ?done"
  let ?w0 = "(400, JsonDoc (JObj [(''error'', JStr ''authorization_pending'')])) # ?w1"
  have dec: "decode_map (JsonDoc (JObj [(k, v)])) = Inr [(k, v)]" for k v
    by (simp add: decode_map_def go_map_def)
  have nul: "decode_map (JsonDoc JNull) = Inr []" by (simp add: decode_map_def)
  have "token_wait script_reg ''u'' [] ''d'' 5 ?w0 ?w1"
    using token_wait.pending [OF script_post [OF dec], where interval = 5] by (simp add: is_pending_def)
  moreover have "token_wait script_reg ''u'' [] ''d'' 5 ?w1 ?done"
    using token_wait.retry [OF script_post [OF nul], where interval = 5 and code = 502] by simp
  ultimately have "(token_wait script_reg ''u'' [] ''d'' 5)\<^sup>*\<^sup>* ?w0 ?done" by auto
  from token_loop_ends [OF this, of undefined "[]"] show ?thesis
    by (auto simp: script_post [OF dec])
qed

end
