(* ===== verification/Register.thy ===== *)
theory Register
  imports RegisterAuth
begin

text \<open>
  \<open>RegisterDevice\<close> of \<open>internal/register/register.go\<close>, with \<open>options.go\<close> and \<open>openssl.go\<close>: the
  options are completed, the device is checked, a key pair is made, the device is announced to the
  gateway, and its answer is written to the directory. The signal handler, which cleans up when the
  process is interrupted, is in the theory \<open>RegisterSignals\<close>.
\<close>

section \<open>Options\<close>

definition LMP_OS_STR :: string where "LMP_OS_STR = ''/etc/os-release''"

definition without_quotes :: "string \<Rightarrow> string" where
  "without_quotes s = filter (\<lambda>c. c \<noteq> CHR 0x22) s"

text \<open>The factory, where it is from, the tag, and where that is from.\<close>

definition getFactoryTagsInfo ::
  "'w env \<Rightarrow> 'w reg_env \<Rightarrow> string \<Rightarrow> 'w host \<Rightarrow> (string \<times> string \<times> string \<times> string) \<times> 'w host" where
  "getFactoryTagsInfo E Z osRelease h =
    (let env = x_getenv E ''DEVICE_FACTORY'' (ext h);
         (factory, fsrc) = (if env \<noteq> '''' then (env, ''environment'') else ('''', ''''));
         (there, h) = fileExists Z osRelease h
     in if \<not> there then ((factory, fsrc, '''', ''''), h)
        else case z_Ini Z osRelease (ext h) of
          Inl err \<Rightarrow> ((factory, fsrc, '''', ''''), h)
        | Inr cfg \<Rightarrow>
            (let tag = without_quotes (cfg ''LMP_FACTORY_TAG''); tsrc = (if tag \<noteq> '''' then osRelease else '''')
             in if factory \<noteq> '''' then ((factory, fsrc, tag, tsrc), h)
                else (let factory = without_quotes (cfg ''LMP_FACTORY'');
                          fsrc = (if factory \<noteq> '''' then osRelease else fsrc)
                      in ((factory, fsrc, tag, tsrc), h))))"

definition validateUUID :: "'w reg_env \<Rightarrow> reg_opts \<Rightarrow> goerr option" where
  "validateUUID Z opt =
    (if z_uuidParse Z (g_UUID opt) then None else Some (ErrorString (''invalid UUID: '' @ g_UUID opt)))"

definition getUUID :: "'w reg_env \<Rightarrow> reg_opts \<Rightarrow> 'w host \<Rightarrow> goerr option \<times> reg_opts \<times> 'w host" where
  "getUUID Z opt h =
    (if g_UUID opt \<noteq> '''' then (validateUUID Z opt, opt, h)
     else (let (u, w) = z_uuidGenerate Z (ext h); opt = opt\<lparr>g_UUID := u\<rparr>
           in (validateUUID Z opt, opt, h\<lparr>ext := w\<rparr>)))"

text \<open>The sources of the factory and the tag are only logged.\<close>

definition updateOptions ::
  "'w env \<Rightarrow> 'w reg_env \<Rightarrow> reg_opts \<Rightarrow> 'w host \<Rightarrow> goerr option \<times> reg_opts \<times> 'w host" where
  "updateOptions E Z opt h =
    (let (_, h) = getFactoryTagsInfo E Z LMP_OS_STR h
     in if g_Factory opt = '''' \<or> g_Factory opt = ''lmp'' then (Some (ErrorString ''missing factory definition''), opt, h)
        else if g_PacmanTag opt = '''' then (Some (ErrorString ''missing tag definition''), opt, h)
        else
          (let opt = (if x_getenv E ''PRODUCTION'' (ext h) \<noteq> '''' then opt\<lparr>g_Production := True\<rparr> else opt)
           in case getUUID Z opt h of
                (Some err, opt, h) \<Rightarrow> (Some err, opt, h)
              | (None, opt, h) \<Rightarrow>
                  (None, if g_Name opt = '''' then opt\<lparr>g_Name := g_UUID opt\<rparr> else opt, h)))"

section \<open>The key pair and the device\<close>

definition openSSLCreateCSR :: "'w reg_env \<Rightarrow> reg_opts \<Rightarrow> 'w \<Rightarrow> (string \<times> string) result \<times> 'w" where
  "openSSLCreateCSR Z opt w =
    (case z_GenerateKey Z w of
       (Inl err, w) \<Rightarrow> (Inl err, w)
     | (Inr priv, w) \<Rightarrow>
         (let subj = \<lparr>CommonName = g_UUID opt, OrganizationalUnit = [g_Factory opt],
                      businessCategory = (if g_Production opt then Some ''production'' else None)\<rparr>
          in case z_CreateCertificateRequest Z subj priv w of
               (Inl err, w) \<Rightarrow> (Inl err, w)
             | (Inr csr, w) \<Rightarrow>
                 (case z_MarshalECPrivateKey Z priv of
                    Inl err \<Rightarrow> (Inl err, w)
                  | Inr bytes \<Rightarrow>
                      (Inr (z_pem Z ''EC PRIVATE KEY'' bytes, z_pem Z ''CERTIFICATE REQUEST'' csr), w))))"

definition json_quoted :: "string \<Rightarrow> json" where
  "json_quoted s = JStr (CHR 0x22 # s @ [CHR 0x22])"

definition getDeviceInfo :: "reg_opts \<Rightarrow> string \<Rightarrow> (string \<times> json) list \<Rightarrow> (string \<times> json) list" where
  "getDeviceInfo opt csr dev =
    (let pacman = [(''type'', json_quoted ''ostree+compose_apps''),
                   (''reset_apps_root'', json_quoted (path_join [g_SotaDir opt, ''reset-apps''])),
                   (''compose_apps_root'', json_quoted (path_join [g_SotaDir opt, ''compose-apps''])),
                   (''tags'', json_quoted (g_PacmanTag opt))]
           @ (if g_ComposeApps opt \<noteq> [] then [(''compose_apps'', json_quoted (join '','' (g_ComposeApps opt)))] else [])
     in foldl (\<lambda>m kv. AList.update (fst kv) (snd kv) m) dev
          ([(''use-ostree-server'', JStr ''true''), (''sota-config-dir'', JStr (g_SotaDir opt)),
            (''hardware-id'', JStr (g_HardwareID opt)), (''name'', JStr (g_Name opt)), (''uuid'', JStr (g_UUID opt)),
            (''csr'', JStr csr), (''overrides'', marshal_map [(''pacman'', marshal_map pacman)])]
           @ (if g_DeviceGroup opt \<noteq> '''' then [(''group'', JStr (g_DeviceGroup opt))] else [])))"

section \<open>Registration\<close>

text \<open>
  The steps after the device has been checked; \<open>None\<close> when the authorization is never decided.
\<close>

type_synonym 'w reg_result = "goerr option outcome \<times> reg_opts \<times> 'w host"

definition announce ::
  "'w env \<Rightarrow> 'w reg_env \<Rightarrow> reg_opts \<Rightarrow> (string \<times> string) list \<Rightarrow> string \<Rightarrow> string \<Rightarrow> 'w host \<Rightarrow> 'w reg_result" where
  "announce E Z opt headers key csr h =
    (case authRegisterDevice E Z headers (getDeviceInfo opt csr []) (ext h) of
       (Panicked, w) \<Rightarrow> (Panicked, opt, h\<lparr>ext := w\<rparr>)
     | (Ret (Inl err), w) \<Rightarrow> (Ret (Some err), opt, cleanup Z opt (h\<lparr>ext := w\<rparr>))
     | (Ret (Inr resp), w) \<Rightarrow>
         (case populateSotaDir E Z opt resp key (h\<lparr>ext := w\<rparr>) of
            (Some err, h) \<Rightarrow> (Ret (Some err), opt, cleanup Z opt h)
          | (None, h) \<Rightarrow>
              (case commitDockerChanges E Z opt h of
                 (Some err, h) \<Rightarrow> (Ret (Some err), opt, h)
               | (None, h) \<Rightarrow> (Ret None, opt, h))))"

definition with_headers ::
  "'w env \<Rightarrow> 'w reg_env \<Rightarrow> reg_opts \<Rightarrow> (string \<times> string) list \<Rightarrow> 'w host \<Rightarrow> 'w reg_result" where
  "with_headers E Z opt headers h =
    (case authPingServer E Z (ext h) of
       (Some err, w) \<Rightarrow> (Ret (Some err), opt, h\<lparr>ext := w\<rparr>)
     | (None, w) \<Rightarrow>
         (case openSSLCreateCSR Z opt w of
            (Inl err, w) \<Rightarrow> (Ret (Some err), opt, cleanup Z opt (h\<lparr>ext := w\<rparr>))
          | (Inr (key, csr), w) \<Rightarrow>
              (case stageDockerChanges E Z opt (h\<lparr>ext := w\<rparr>) of
                 (Panicked, opt, h) \<Rightarrow> (Panicked, opt, h)
               | (Ret (Some err), opt, h) \<Rightarrow> (Ret (Some err), opt, cleanup Z opt h)
               | (Ret None, opt, h) \<Rightarrow> announce E Z opt headers key csr h)))"

definition RegisterDevice :: "'w env \<Rightarrow> 'w reg_env \<Rightarrow> reg_opts \<Rightarrow> 'w host \<Rightarrow> 'w reg_result option" where
  "RegisterDevice E Z opt h =
    (case updateOptions E Z opt h of
       (Some err, opt, h) \<Rightarrow> Some (Ret (Some err), opt, h)
     | (None, opt, h) \<Rightarrow>
         (case checkAndCreateSotaDir Z (g_SotaDir opt) h of
            (Some err, h) \<Rightarrow> Some (Ret (Some err), opt, h)
          | (None, h) \<Rightarrow>
              (case checkDeviceStatus Z opt h of
                 (Some err, h) \<Rightarrow> Some (Ret (Some err), opt, h)
               | (None, h) \<Rightarrow>
                   (case authGetHttpHeaders E Z opt (ext h) of
                      None \<Rightarrow> None
                    | Some (Panicked, w) \<Rightarrow> Some (Panicked, opt, h\<lparr>ext := w\<rparr>)
                    | Some (Ret (Inl err), w) \<Rightarrow> Some (Ret (Some err), opt, h\<lparr>ext := w\<rparr>)
                    | Some (Ret (Inr headers), w) \<Rightarrow> Some (with_headers E Z opt headers (h\<lparr>ext := w\<rparr>))))))"

section \<open>Lemmas\<close>

lemma getFactoryTagsInfo_frame: "getFactoryTagsInfo E Z p h = (r, h') \<Longrightarrow> fs h' = fs h"
  by (cases "fileExists Z p h")
    (auto simp: getFactoryTagsInfo_def Let_def dest: fileExists_frame split: if_splits sum.splits)

lemma getUUID_frame:
  "getUUID Z opt h = (e, opt', h') \<Longrightarrow>
     fs h' = fs h \<and> g_SotaDir opt' = g_SotaDir opt \<and> g_Force opt' = g_Force opt"
  by (auto simp: getUUID_def Let_def split: if_splits prod.splits)

lemma updateOptions_frame:
  "updateOptions E Z opt h = (e, opt', h') \<Longrightarrow>
     fs h' = fs h \<and> g_SotaDir opt' = g_SotaDir opt \<and> g_Force opt' = g_Force opt"
  by (cases "getFactoryTagsInfo E Z LMP_OS_STR h")
    (auto simp: updateOptions_def Let_def split: if_splits prod.splits option.splits
      dest!: getUUID_frame getFactoryTagsInfo_frame)

lemma checkAndCreateSotaDir_frame: "checkAndCreateSotaDir Z dir h = (e, h') \<Longrightarrow> fs h' = fs h"
  by (auto simp: checkAndCreateSotaDir_def Let_def split: prod.splits option.splits if_splits sum.splits dest!: sys_frame)

lemma checkUpdateClientNotRunning_frame: "checkUpdateClientNotRunning Z h = (e, h') \<Longrightarrow> fs h' = fs h"
  by (auto simp: checkUpdateClientNotRunning_def Let_def split: prod.splits option.splits if_splits
      dest!: sys_frame fileExists_frame)

text \<open>The state of the registration: the two files.\<close>

definition registration :: "reg_opts \<Rightarrow> 'w host \<Rightarrow> content option \<times> content option" where
  "registration opt h = (fs h (pem_path opt), fs h (sql_path opt))"

lemma registration_ext [simp]: "registration opt (h\<lparr>ext := w\<rparr>) = registration opt h"
  by (simp add: registration_def)

lemma registration_opt: "g_SotaDir opt' = g_SotaDir opt \<Longrightarrow> registration opt' h = registration opt h"
  by (simp add: registration_def)

lemma cleanup_clears: "files_accessible Z \<Longrightarrow> registration opt (cleanup Z opt h) = (None, None)"
  using sotaCleanup_clears [of Z opt h] by (cases "sotaCleanup Z opt h") (simp add: registration_def cleanup_def)

lemma stageDockerChanges_opt:
  "stageDockerChanges E Z opt h = (r, opt', h') \<Longrightarrow> g_SotaDir opt' = g_SotaDir opt"
  by (auto simp: stageDockerChanges_def Let_def split: sum.splits prod.splits option.splits outcome.splits)

text \<open>The probe of \<open>checkDeviceStatus\<close> is another file than these two.\<close>

lemma checkDeviceStatus_probe:
  assumes "open_trunc Z (g_SotaDir opt @ ''/.tmp'') h = (None, h1)" and "os_remove Z (g_SotaDir opt @ ''/.tmp'') h1 = (e, h2)"
    and "checkUpdateClientNotRunning Z h2 = (r, h3)"
  shows "registration opt h3 = registration opt h"
  using assms by (auto simp: registration_def open_trunc_def split: prod.splits option.splits
      dest!: sys_frame os_remove_cases checkUpdateClientNotRunning_frame)

lemma checkDeviceStatus_registration:
  assumes "files_accessible Z" and "checkDeviceStatus Z opt h = (e, h')"
  shows "registration opt h' = (if e = None then (None, None) else registration opt h)
    \<and> (e = None \<longrightarrow> registration opt h = (None, None) \<or> g_Force opt)"
proof (cases "open_trunc Z (g_SotaDir opt @ ''/.tmp'') h")
  case (Pair r h1)
  show ?thesis
  proof (cases r)
    case (Some err)
    then show ?thesis using assms(2) Pair
      by (auto simp: checkDeviceStatus_def open_trunc_def registration_def split: prod.splits option.splits dest!: sys_frame)
  next
    case None
    obtain e2 h2 where rm: "os_remove Z (g_SotaDir opt @ ''/.tmp'') h1 = (e2, h2)" by fastforce
    obtain e3 h3 where lk: "checkUpdateClientNotRunning Z h2 = (e3, h3)" by fastforce
    have same: "registration opt h3 = registration opt h"
      using checkDeviceStatus_probe Pair None rm lk by blast
    show ?thesis
    proof (cases e3)
      case (Some err)
      then show ?thesis using assms(2) Pair None rm lk same by (auto simp: checkDeviceStatus_def)
    next
      case e3: None
      then have c: "checkSotaFiles Z opt h3 = (e, h')"
        using assms(2) Pair None rm lk by (simp add: checkDeviceStatus_def)
      obtain b1 h4 where f1: "fileExists Z (pem_path opt) h3 = (b1, h4)" by fastforce
      obtain b2 h5 where f2: "fileExists Z (sql_path opt) h4 = (b2, h5)" by fastforce
      note F = fileExists_exact [OF assms(1) f1] fileExists_exact [OF assms(1) f2]
      have "registration opt h5 = registration opt h" using F same by (simp add: registration_def)
      moreover have "(\<not> b1 \<and> \<not> b2) = (registration opt h = (None, None))"
        using F same by (auto simp: registration_def)
      ultimately show ?thesis using c f1 f2 sotaCleanup_clears [OF assms(1)]
        by (cases "sotaCleanup Z opt h5") (auto simp: checkSotaFiles_def registration_def split: if_splits)
    qed
  qed
qed

lemma checkDeviceStatus_frame:
  assumes "checkDeviceStatus Z opt h = (e, h')" and "\<not> g_Force opt"
    and "p \<noteq> g_SotaDir opt @ ''/.tmp''"
  shows "fs h' p = fs h p"
  using assms
  by (auto simp: checkDeviceStatus_def checkSotaFiles_def open_trunc_def Let_def split: prod.splits option.splits if_splits
      dest!: sys_frame os_remove_cases checkUpdateClientNotRunning_frame fileExists_frame)

lemma announce_failure:
  assumes "files_accessible Z" and "announce E Z opt headers key csr h = (Ret (Some err), opt', h')"
  shows "opt' = opt \<and> (registration opt h' = (None, None) \<or> (\<exists>h1. commitDockerChanges E Z opt h1 = (Some err, h')))"
  using assms(2)
  by (auto simp: announce_def cleanup_clears [OF assms(1)] split: prod.splits option.splits sum.splits outcome.splits)

lemma with_headers_failure:
  assumes "files_accessible Z" and "with_headers E Z opt headers h = (Ret (Some err), opt', h')"
  shows "registration opt h' \<in> {registration opt h, (None, None)}
    \<or> (\<exists>h1. commitDockerChanges E Z opt' h1 = (Some err, h'))"
proof -
  obtain e w where p: "authPingServer E Z (ext h) = (e, w)" by fastforce
  obtain r w2 where k: "openSSLCreateCSR Z opt w = (r, w2)" by fastforce
  obtain d opt2 h2 where s: "stageDockerChanges E Z opt (h\<lparr>ext := w2\<rparr>) = (d, opt2, h2)" by (metis prod_cases3)
  have o2: "registration opt2 = (registration opt :: 'a host \<Rightarrow> _)"
    using stageDockerChanges_opt [OF s] by (simp add: registration_def fun_eq_iff)
  show ?thesis
  proof (cases e)
    case (Some x)
    then show ?thesis using assms(2) p by (auto simp: with_headers_def)
  next
    case None
    show ?thesis
    proof (cases r)
      case (Inl x)
      then show ?thesis using assms(2) None p k cleanup_clears [OF assms(1)] by (auto simp: with_headers_def)
    next
      case (Inr kc)
      obtain key csr where kc: "kc = (key, csr)" by (cases kc)
      show ?thesis
      proof (cases d)
        case Panicked
        then show ?thesis using assms(2) None p k s Inr kc by (auto simp: with_headers_def)
      next
        case (Ret e')
        then show ?thesis using assms(2) None p k s Inr kc o2 cleanup_clears [OF assms(1), of opt2] announce_failure [OF assms(1), of E opt2 headers key csr h2 err opt' h']
          by (cases e') (auto simp: with_headers_def)
      qed
    qed
  qed
qed

text \<open>The checks before anything is created.\<close>

lemma RegisterDevice_checks:
  assumes "updateOptions E Z opt h = (e, opt1, h1)" and "checkAndCreateSotaDir Z (g_SotaDir opt1) h1 = (e2, h2)"
    and "checkDeviceStatus Z opt1 h2 = (e3, h3)"
  shows "RegisterDevice E Z opt h =
    (case e of Some err \<Rightarrow> Some (Ret (Some err), opt1, h1)
     | None \<Rightarrow> (case e2 of Some err \<Rightarrow> Some (Ret (Some err), opt1, h2)
       | None \<Rightarrow> (case e3 of Some err \<Rightarrow> Some (Ret (Some err), opt1, h3)
         | None \<Rightarrow> (case authGetHttpHeaders E Z opt1 (ext h3) of
             None \<Rightarrow> None
           | Some (Panicked, w) \<Rightarrow> Some (Panicked, opt1, h3\<lparr>ext := w\<rparr>)
           | Some (Ret (Inl err), w) \<Rightarrow> Some (Ret (Some err), opt1, h3\<lparr>ext := w\<rparr>)
           | Some (Ret (Inr headers), w) \<Rightarrow> Some (with_headers E Z opt1 headers (h3\<lparr>ext := w\<rparr>))))))"
  using assms by (simp add: RegisterDevice_def split: option.split)

lemma device_name: "map_of (getDeviceInfo opt csr []) ''name'' = Some (JStr (g_Name opt))"
  by (simp add: getDeviceInfo_def Let_def)

section \<open>What a registration leaves\<close>

text \<open>
  C11: a registration that fails leaves no half-registered device behind. If the files can be looked at
  and removed, then after an error the certificate and the database are as they were before or both
  absent, whatever step failed; the only exception is an error of the very last step, the commit of
  the docker configuration, which comes after the device has been registered.
\<close>

theorem RegisterDevice_failure:
  assumes "files_accessible Z" and "RegisterDevice E Z opt h = Some (Ret (Some err), opt', h')"
  shows "registration opt h' \<in> {registration opt h, (None, None)}
    \<or> (\<exists>h1. commitDockerChanges E Z opt' h1 = (Some err, h'))"
proof -
  obtain e opt1 h1 where u: "updateOptions E Z opt h = (e, opt1, h1)" by (metis prod_cases3)
  obtain e2 h2 where d: "checkAndCreateSotaDir Z (g_SotaDir opt1) h1 = (e2, h2)" by fastforce
  obtain e3 h3 where c: "checkDeviceStatus Z opt1 h2 = (e3, h3)" by fastforce
  note R = assms(2) [unfolded RegisterDevice_checks [OF u d c]]
  have same: "registration opt x = registration opt1 x" for x :: "'a host"
    using updateOptions_frame [OF u] by (simp add: registration_def)
  have h2: "registration opt1 h1 = registration opt h" "registration opt1 h2 = registration opt h"
    using updateOptions_frame [OF u] checkAndCreateSotaDir_frame [OF d] by (simp_all add: registration_def)
  note C = checkDeviceStatus_registration [OF assms(1) c]
  show ?thesis
  proof (cases "e = None \<and> e2 = None \<and> e3 = None")
    case False
    then show ?thesis using R h2 C by (auto simp: same split: option.splits)
  next
    case True
    then have C': "registration opt1 h3 = (None, None)" using C by simp
    from True R show ?thesis
      using C' with_headers_failure [OF assms(1), of E opt1 _ _ err opt' h']
      by (auto simp: same split: option.splits prod.splits outcome.splits sum.splits) force
  qed
qed

text \<open>A gateway that refuses the device.\<close>

definition refusing_reg :: "unit reg_env" where
  "refusing_reg = healthy_reg
     \<lparr>z_Home := \<lambda>w. ''/root'', z_num := id, z_Ini := \<lambda>p w. Inr (\<lambda>k. ''''), z_uuidParse := \<lambda>u. True,
      z_Ping := \<lambda>u w. (Inr 200, w), z_GenerateKey := \<lambda>w. (Inr 0, w), z_CreateCertificateRequest := \<lambda>s k w. (Inr ''csr'', w),
      z_MarshalECPrivateKey := \<lambda>k. Inr ''key'', z_pem := \<lambda>t b. b, z_NewRequest := \<lambda>u. None,
      z_Do := \<lambda>u hs d w. (Inr (403, JsonDoc JNull), w)\<rparr>"

lemma refusing_fields [simp]:
  "z_op refusing_reg q () = (None, ())" "z_write refusing_reg n c () = (None, ())" "z_IsDir refusing_reg d () = Inr True"
  "z_Home refusing_reg () = ''/root''" "z_num refusing_reg = id" "z_Ini refusing_reg d () = Inr (\<lambda>k. '''')"
  "z_uuidParse refusing_reg d" "z_Ping refusing_reg d () = (Inr 200, ())" "z_GenerateKey refusing_reg () = (Inr 0, ())"
  "z_CreateCertificateRequest refusing_reg s k () = (Inr ''csr'', ())" "z_MarshalECPrivateKey refusing_reg k = Inr ''key''"
  "z_pem refusing_reg d n = n" "z_NewRequest refusing_reg d = None"
  "z_Do refusing_reg d hs n () = (Inr (403, JsonDoc JNull), ())" "files_accessible refusing_reg"
  by (simp_all add: refusing_reg_def files_accessible_def)

lemma refused:
  assumes "w = ()"
  shows "\<exists>err. authRegisterDevice home_env refusing_reg headers (getDeviceInfo opt csr []) w = (Ret (Inl err), ())"
  using assms by (simp add: authRegisterDevice_def device_name httpPost_def decode_map_def)

lemma RegisterDevice_failure_witness:
  "\<exists>err opt' h'. RegisterDevice home_env refusing_reg (some_opts\<lparr>g_Force := True\<rparr>) (disk [(''/s/client.pem'', Raw ''P'')])
      = Some (Ret (Some err), opt', h')
     \<and> (registration some_opts h' \<in> {registration some_opts (disk [(''/s/client.pem'', Raw ''P'')]), (None, None)}
          \<or> (\<exists>h1. commitDockerChanges home_env refusing_reg opt' h1 = (Some err, h')))
     \<and> registration some_opts h' = (None, None)"
proof -
  let ?opt = "some_opts\<lparr>g_Force := True\<rparr>" and ?h = "disk [(''/s/client.pem'', Raw ''P'')]"
  let ?opt1 = "?opt\<lparr>g_Name := ''u''\<rparr>"
  have [simp]: "path_join [''/root'', ''.docker''] = ''/root/.docker''"
    "path_join [''/root/.docker'', ''config.json''] = ''/root/.docker/config.json''"
    by code_simp+
  have [simp]: "x\<lparr>ext := ()\<rparr> = x" for x :: "unit host" by (cases x) simp
  have fields [simp]: "g_SotaDir some_opts = ''/s''" "g_UUID some_opts = ''u''" "g_Name some_opts = ''''" "g_Factory some_opts = ''f''"
    "g_PacmanTag some_opts = ''t''" "g_ApiToken some_opts = ''k''" "g_ApiTokenHeader some_opts = ''T''"
    by (simp_all add: some_opts_def)
  have u: "updateOptions home_env refusing_reg ?opt ?h = (None, ?opt1, ?h)"
    by (simp add: updateOptions_def getFactoryTagsInfo_def fileExists_def sys_def disk_def LMP_OS_STR_def getUUID_def validateUUID_def)
  have d: "checkAndCreateSotaDir refusing_reg (g_SotaDir ?opt1) ?h = (None, ?h)"
    by (simp add: checkAndCreateSotaDir_def disk_def)
  obtain h3 where c: "checkDeviceStatus refusing_reg ?opt1 ?h = (None, h3)"
    and noconf: "fs h3 ''/root/.docker/config.json'' = None"
    by (simp add: checkDeviceStatus_def open_trunc_def os_remove_def sys_def disk_def checkUpdateClientNotRunning_def
        fileExists_def AKLITE_LOCK_def checkSotaFiles_def sotaCleanup_def SOTA_PEM_def SOTA_SQL_def Let_def)
  obtain opt4 h4 where s: "stageDockerChanges home_env refusing_reg ?opt1 h3 = (Ret None, opt4, h4)"
    by (simp add: stageDockerChanges_def hub_url_def getDockerConfigPath_def sys_def read_docker_def read_file_def io_def
        noconf writeSafely_def Let_def open_trunc_def write_string_def os_rename_def tmp_name_def add_helper_def)
  obtain err where a: "authRegisterDevice home_env refusing_reg [(''Content-type'', ''application/json''), (''T'', ''k'')]
      (getDeviceInfo opt4 ''csr'' []) () = (Ret (Inl err), ())"
    using refused by blast
  have "with_headers home_env refusing_reg ?opt1 [(''Content-type'', ''application/json''), (''T'', ''k'')] h3
      = (Ret (Some err), opt4, cleanup refusing_reg opt4 h4)"
    by (simp add: with_headers_def authPingServer_def openSSLCreateCSR_def s announce_def a)
  then have R: "RegisterDevice home_env refusing_reg ?opt ?h = Some (Ret (Some err), opt4, cleanup refusing_reg opt4 h4)"
    by (simp add: RegisterDevice_checks [OF u d c] authGetHttpHeaders_def)
  have force: "registration ?opt x = registration some_opts x" for x :: "unit host" by (simp add: registration_def)
  from RegisterDevice_failure [OF refusing_fields(15) R, unfolded force]
  have "registration some_opts (cleanup refusing_reg opt4 h4) \<in> {registration some_opts ?h, (None, None)}
    \<or> (\<exists>h1. commitDockerChanges home_env refusing_reg opt4 h1 = (Some err, cleanup refusing_reg opt4 h4))" .
  moreover have "registration some_opts (cleanup refusing_reg opt4 h4) = (None, None)"
    using cleanup_clears [OF refusing_fields(15), of opt4 h4] stageDockerChanges_opt [OF s] by (simp add: registration_def)
  ultimately show ?thesis using R by blast
qed

text \<open>
  C12: a device that is registered is not registered again. If the certificate or the database exists and
  \<open>Force\<close> is not given, the registration returns an error (it neither succeeds, nor panics, nor waits
  for an authorization), and apart from the probe of the directory no file is changed.
\<close>

theorem already_registered:
  assumes "files_accessible Z" and "registration opt h \<noteq> (None, None)" and "\<not> g_Force opt"
  shows "\<exists>err opt' h'. RegisterDevice E Z opt h = Some (Ret (Some err), opt', h')
    \<and> registration opt h' = registration opt h
    \<and> (\<forall>p. p \<noteq> g_SotaDir opt @ ''/.tmp'' \<longrightarrow> fs h' p = fs h p)"
proof -
  obtain e opt1 h1 where u: "updateOptions E Z opt h = (e, opt1, h1)" by (metis prod_cases3)
  obtain e2 h2 where d: "checkAndCreateSotaDir Z (g_SotaDir opt1) h1 = (e2, h2)" by fastforce
  obtain e3 h3 where c: "checkDeviceStatus Z opt1 h2 = (e3, h3)" by fastforce
  note R = RegisterDevice_checks [OF u d c]
  have U: "fs h1 = fs h" "g_SotaDir opt1 = g_SotaDir opt" "\<not> g_Force opt1" and D: "fs h2 = fs h"
    using updateOptions_frame [OF u] checkAndCreateSotaDir_frame [OF d] assms(3) by simp_all
  have r2: "registration opt1 h2 = registration opt h" using U D by (simp add: registration_def)
  note C = checkDeviceStatus_registration [OF assms(1) c]
  have e3: "e3 \<noteq> None" using C r2 assms(2) U(3) by auto
  have r3: "registration opt h3 = registration opt h" using C e3 r2 U(2) by (simp add: registration_def)
  have "fs h3 p = fs h p" if "p \<noteq> g_SotaDir opt @ ''/.tmp''" for p
    using checkDeviceStatus_frame [OF c U(3)] that U(2) D by simp
  moreover have "registration opt h1 = registration opt h" "registration opt h2 = registration opt h"
    using U D by (simp_all add: registration_def)
  ultimately show ?thesis using R e3 r3 U D by (cases e; cases e2) auto
qed

lemma already_registered_witness:
  "\<exists>err opt' h'. RegisterDevice home_env home_reg some_opts (disk [(''/s/client.pem'', Raw ''P'')]) = Some (Ret (Some err), opt', h')
     \<and> fs h' ''/s/client.pem'' = Some (Raw ''P'')"
proof -
  have opts: "pem_path some_opts = ''/s/client.pem''" "\<not> g_Force some_opts" "g_SotaDir some_opts @ ''/.tmp'' = ''/s/.tmp''"
    by (simp_all add: some_opts_def SOTA_PEM_def)
  then have "registration some_opts (disk [(''/s/client.pem'', Raw ''P'')]) \<noteq> (None, None)"
    by (simp add: registration_def disk_def)
  from already_registered [OF home_fields(11) this opts(2), of home_env] opts show ?thesis
    by (auto simp: disk_def)
qed

end
