(* ===== verification/Commands.thy ===== *)
theory Commands
  imports Output Lock Register
begin

text \<open>
  The commands of \<open>cmd/fioup\<close>: what happens before a command (\<open>root.go\<close>), and the commands themselves,
  as far as they are more than a declaration of flags. A command ends with \<open>Go ()\<close> when it returns,
  and with the exit code when it leaves; the messages of errors are not modelled.
\<close>

section \<open>The terminal, and calls of the libraries\<close>

text \<open>
  \<open>c_http\<close> are the requests of the fioconfig transport, with status and text of the answer;
  \<open>c_AddPath\<close> appends to the path of a parsed URL and prints it.
\<close>

record 'w cli_env =
  c_daemon :: "'w daemon_env"
  c_fmt :: fmt_env
  c_print :: "string \<Rightarrow> 'w \<Rightarrow> 'w"
  c_http :: "http_method \<Rightarrow> string \<Rightarrow> 'w \<Rightarrow> (int \<times> string) result \<times> 'w"
  c_AddPath :: "url \<Rightarrow> string \<Rightarrow> string"
  c_RunAndReport :: "string \<Rightarrow> string \<Rightarrow> string \<Rightarrow> string list \<Rightarrow> 'w \<Rightarrow> goerr option \<times> 'w"
  c_NotModified :: "goerr \<Rightarrow> bool"

definition print :: "'w cli_env \<Rightarrow> string \<Rightarrow> 'w host \<Rightarrow> 'w host" where
  "print C t h = h\<lparr>ext := c_print C t (ext h)\<rparr>"

definition die :: "'w cli_env \<Rightarrow> goerr option \<Rightarrow> unit exit" where
  "die C e = DieNotNil (c_daemon C) e ()"

text \<open>\<open>cobra.CheckErr\<close>.\<close>

definition CheckErr :: "goerr option \<Rightarrow> unit exit" where
  "CheckErr e = (if e = None then Go () else Exit 1)"

definition parse_version :: "string \<Rightarrow> int result" where
  "parse_version a = (case atoi a of (n, None) \<Rightarrow> Inr n | (n, Some e) \<Rightarrow> Inl (ErrorString ''strconv.Atoi''))"

section \<open>Before a command\<close>

definition with_config :: "config result \<Rightarrow> config option exit" where
  "with_config r = (case r of Inl err \<Rightarrow> Exit 1 | Inr cfg \<Rightarrow> Go (Some cfg))"

text \<open>The configuration is loaded first, then the lock is taken when the command asks for it.\<close>

definition PersistentPreRun ::
  "'w env \<Rightarrow> lock_env \<Rightarrow> nat \<Rightarrow> string list \<Rightarrow> string \<Rightarrow> string \<Rightarrow> locks \<Rightarrow> 'w host
   \<Rightarrow> config option exit \<times> locks \<times> 'w host" where
  "PersistentPreRun E L pid configPaths name lockFlag locks h =
    (let (cfg, h) =
       (if name \<noteq> ''register'' \<and> name \<noteq> ''version''
        then let (r, h) = NewConfig E configPaths h in (with_config r, h)
        else (Go None, h))
     in case cfg of
          Go c \<Rightarrow>
            if lockFlag = ''true'' then
              (case acquireLock L pid locks of
                 (Some err, locks) \<Rightarrow> (Exit 1, locks, h)
               | (None, locks) \<Rightarrow> (Go c, locks, h))
            else (Go c, locks, h)
        | r \<Rightarrow> (r, locks, h))"

section \<open>Updates\<close>

definition updateHandlers :: "'w cli_env \<Rightarrow> ('w update_opts \<Rightarrow> 'w update_opts) list" where
  "updateHandlers C =
    [WithPreStateHandler (\<lambda>s u. c_print C (preStateHandler (c_fmt C) s u)),
     WithPostStateHandler (\<lambda>s u. c_print C (postStateHandler (c_fmt C) s u))]"

definition leave ::
  "'w cli_env \<Rightarrow> goerr option outcome \<times> update_ctx option \<times> 'w host \<Rightarrow> unit exit \<times> 'w host" where
  "leave C r = (case r of (Panicked, u, h) \<Rightarrow> (Crash, h) | (Ret e, u, h) \<Rightarrow> (die C e, h))"

definition doUpdate :: "'w env \<Rightarrow> 'w cli_env \<Rightarrow> config \<Rightarrow> int \<Rightarrow> bool \<Rightarrow> 'w host \<Rightarrow> unit exit \<times> 'w host" where
  "doUpdate E C cfg version syncCurrent h =
    leave C (Update E (y_sched (c_daemon C) (ext h)) cfg version
      (updateHandlers C @ [WithForceUpdate True, WithSyncCurrent syncCurrent]) h)"

definition update_cmd ::
  "'w env \<Rightarrow> 'w cli_env \<Rightarrow> config \<Rightarrow> string list \<Rightarrow> bool \<Rightarrow> 'w host \<Rightarrow> unit exit \<times> 'w host" where
  "update_cmd E C cfg args syncCurrent h =
    (case args of
       [] \<Rightarrow> doUpdate E C cfg (-1) syncCurrent h
     | a # _ \<Rightarrow>
         (case parse_version a of
            Inl err \<Rightarrow> (die C (Some err), h)
          | Inr version \<Rightarrow>
              if syncCurrent
              then (die C (Some (ErrorString ''--sync-current cannot be used when a version is specified'')), h)
              else doUpdate E C cfg version syncCurrent h))"

definition doFetch :: "'w env \<Rightarrow> 'w cli_env \<Rightarrow> config \<Rightarrow> int \<Rightarrow> 'w host \<Rightarrow> unit exit \<times> 'w host" where
  "doFetch E C cfg version h =
    leave C (Fetch E (y_sched (c_daemon C) (ext h)) cfg version (updateHandlers C) h)"

definition fetch_cmd :: "'w env \<Rightarrow> 'w cli_env \<Rightarrow> config \<Rightarrow> string list \<Rightarrow> 'w host \<Rightarrow> unit exit \<times> 'w host" where
  "fetch_cmd E C cfg args h =
    (case args of
       [] \<Rightarrow> doFetch E C cfg (-1) h
     | a # _ \<Rightarrow>
         (case parse_version a of
            Inl err \<Rightarrow> (CheckErr (Some (errorf ''invalid version number'' err)), h)
          | Inr version \<Rightarrow> doFetch E C cfg version h))"

definition doInstall :: "'w env \<Rightarrow> 'w cli_env \<Rightarrow> config \<Rightarrow> 'w host \<Rightarrow> unit exit \<times> 'w host" where
  "doInstall E C cfg h = leave C (Install E (y_sched (c_daemon C) (ext h)) cfg (updateHandlers C) h)"

definition doStart :: "'w env \<Rightarrow> 'w cli_env \<Rightarrow> config \<Rightarrow> 'w host \<Rightarrow> unit exit \<times> 'w host" where
  "doStart E C cfg h = leave C (Runner.Start E (y_sched (c_daemon C) (ext h)) cfg (updateHandlers C) h)"

definition doCancel :: "'w env \<Rightarrow> 'w cli_env \<Rightarrow> 'w host \<Rightarrow> unit exit \<times> 'w host" where
  "doCancel E C h =
    (case Cancel E h of
       ((targetID, err), h) \<Rightarrow>
         (case err of
            None \<Rightarrow> (Go (), print C (line (''Cancelled update to target  '' @ targetID)) h)
          | Some e \<Rightarrow>
              if errors_is e ErrUpdateNotFound then (Go (), print C (line ''No update in progress to cancel'') h)
              else (die C (Some e), h)))"

section \<open>Questions\<close>

definition valid_format :: "string \<Rightarrow> goerr option" where
  "valid_format format =
    (if format \<in> {''text'', ''json''} then None
     else Some (ErrorString (''invalid value for --format: '' @ format @ '' (must be text or json)'')))"

text \<open>An error that a command returns makes the program exit with code 1.\<close>

definition doCheck :: "'w env \<Rightarrow> 'w cli_env \<Rightarrow> config \<Rightarrow> string \<Rightarrow> bool \<Rightarrow> 'w host \<Rightarrow> unit exit \<times> 'w host" where
  "doCheck E C cfg format tuf h =
    (if valid_format format \<noteq> None then (CheckErr (valid_format format), h)
     else case Check E (y_sched (c_daemon C) (ext h)) cfg [WithTUF tuf] h of
       (Panicked, h) \<Rightarrow> (Crash, h)
     | (Ret (Inl err), h) \<Rightarrow> (die C (Some err), h)
     | (Ret (Inr (ts, cs)), h) \<Rightarrow>
         (Go (), print C (if format = ''json'' then printJsonResult E (c_fmt C) (ext h) ts cs
                          else printTextResult E (ext h) ts cs) h))"

definition doStatus :: "'w env \<Rightarrow> 'w cli_env \<Rightarrow> string \<Rightarrow> 'w host \<Rightarrow> unit exit \<times> 'w host" where
  "doStatus E C format h =
    (if valid_format format \<noteq> None then (CheckErr (valid_format format), h)
     else case GetCurrentStatus E (ext h) of
       Inl err \<Rightarrow> (die C (Some err), h)
     | Inr cs \<Rightarrow>
         (case GetUpdateStatus E (ext h) of
            Inl err \<Rightarrow> (die C (Some err), h)
          | Inr us \<Rightarrow>
              (Go (), print C (if format = ''json'' then status_json (c_fmt C) cs us
                               else status_text E (c_fmt C) (ext h) cs us) h)))"

definition doDiff ::
  "'w env \<Rightarrow> 'w cli_env \<Rightarrow> 'w diff_env \<Rightarrow> config \<Rightarrow> int \<Rightarrow> int \<Rightarrow> bool \<Rightarrow> bool \<Rightarrow> 'w host \<Rightarrow> unit exit \<times> 'w host" where
  "doDiff E C D cfg fromVersion toVersion tuf blobs h =
    (case api_Diff E D cfg fromVersion toVersion tuf h of
       (Panicked, h) \<Rightarrow> (Crash, h)
     | (Ret (Inl err), h) \<Rightarrow>
         (die C (Some (if errors_is err ErrNotExist
            then ErrorString (''cannot calucate diff because targets metadata is not available locally; ''
                   @ ''please run the 'check' command to obtain the metadata and try again'')
            else err)), h)
     | (Ret (Inr d), h) \<Rightarrow> (Go (), print C (diff_text E (c_fmt C) blobs (ext h) d) h))"

definition diff_cmd ::
  "'w env \<Rightarrow> 'w cli_env \<Rightarrow> 'w diff_env \<Rightarrow> config \<Rightarrow> string list \<Rightarrow> bool \<Rightarrow> bool \<Rightarrow> 'w host \<Rightarrow> unit exit \<times> 'w host" where
  "diff_cmd E C D cfg args tuf blobs h =
    (let fromVersion = (if length args > 1 then parse_version (args ! 1) else Inr (-1));
         toVersion = (if length args > 0 then parse_version (args ! 0) else Inr (-1))
     in case fromVersion of
          Inl err \<Rightarrow> (die C (Some err), h)
        | Inr f \<Rightarrow>
            (case toVersion of
               Inl err \<Rightarrow> (die C (Some err), h)
             | Inr t \<Rightarrow> doDiff E C D cfg f t tuf blobs h))"

definition version_cmd :: "'w cli_env \<Rightarrow> string \<Rightarrow> bool \<Rightarrow> version_info \<Rightarrow> 'w host \<Rightarrow> unit exit \<times> 'w host" where
  "version_cmd C format short v h =
    (case version_text format short v of
       Inl err \<Rightarrow> (CheckErr (Some err), h)
     | Inr t \<Rightarrow> (Go (), print C t h))"

section \<open>Requests\<close>

definition getUrl :: "'w env \<Rightarrow> 'w cli_env \<Rightarrow> toml \<Rightarrow> string \<Rightarrow> string exit" where
  "getUrl E C cfg endpointOrUrl =
    (case x_UrlParse E endpointOrUrl of
       Inl err \<Rightarrow> DieNotNil (c_daemon C) (Some err) ''''
     | Inr u \<Rightarrow>
         if url_Scheme u = ''https'' then Go (url_text u)
         else (case x_UrlParse E (t_Get cfg ''tls.server'') of
           Inl err \<Rightarrow> DieNotNil (c_daemon C) (Some err) ''''
         | Inr server \<Rightarrow> Go (c_AddPath C server endpointOrUrl)))"

definition processResponse :: "'w cli_env \<Rightarrow> (int \<times> string) result \<Rightarrow> 'w host \<Rightarrow> unit exit \<times> 'w host" where
  "processResponse C r h =
    (case r of
       Inl err \<Rightarrow> (die C (Some err), h)
     | Inr (status, t) \<Rightarrow>
         if status \<noteq> 200 then (die C (Some (ErrorString (''HTTP request failed: '' @ t))), h)
         else (Go (), print C t h))"

definition doRequest :: "'w env \<Rightarrow> 'w cli_env \<Rightarrow> config \<Rightarrow> http_method \<Rightarrow> string \<Rightarrow> 'w host \<Rightarrow> unit exit \<times> 'w host" where
  "doRequest E C cfg method endpointOrUrl h =
    (case getUrl E C (tomlConfig cfg) endpointOrUrl of
       Go u \<Rightarrow>
         (case x_CreateClient E (tomlConfig cfg) (ext h) of
            Some err \<Rightarrow> (die C (Some err), h)
          | None \<Rightarrow> (let (r, w) = c_http C method u (ext h) in processResponse C r (h\<lparr>ext := w\<rparr>)))
     | Exit n \<Rightarrow> (Exit n, h)
     | Crash \<Rightarrow> (Crash, h))"

text \<open>The helper for docker: its result is the exit code.\<close>

definition runDockerCredsHelper :: "'w env \<Rightarrow> 'w cli_env \<Rightarrow> config \<Rightarrow> 'w host \<Rightarrow> int exit \<times> 'w host" where
  "runDockerCredsHelper E C cfg h =
    (case x_CreateClient E (tomlConfig cfg) (ext h) of
       Some err \<Rightarrow> (Exit 1, h)
     | None \<Rightarrow>
         (let (r, w) = c_http C GET (t_Get (tomlConfig cfg) ''tls.server'' @ ''/hub-creds/'') (ext h); h = h\<lparr>ext := w\<rparr>
          in case r of
               Inl err \<Rightarrow> (Exit 1, h)
             | Inr (status, t) \<Rightarrow> if status \<noteq> 200 then (Exit 1, h) else (Go 0, print C (line t) h)))"

section \<open>Configuration and tests\<close>

definition doConfigExtract :: "'w env \<Rightarrow> 'w cli_env \<Rightarrow> config \<Rightarrow> fioconfig_opts \<Rightarrow> 'w host \<Rightarrow> unit exit \<times> 'w host" where
  "doConfigExtract E C cfg opts h =
    (case CheckErr (y_NewApp (c_daemon C) (tomlConfig cfg) (secretsDir opts) (unsafeHandlers opts) (ext h)) of
       Go _ \<Rightarrow>
         (case AssertCanExtract E (c_daemon C) opts h of
            (Go _, h) \<Rightarrow> (let ((_, err), w) = y_Extract (c_daemon C) (ext h) in (CheckErr err, h\<lparr>ext := w\<rparr>))
          | r \<Rightarrow> r)
     | r \<Rightarrow> (r, h))"

definition doCheckConfig :: "'w env \<Rightarrow> 'w cli_env \<Rightarrow> config \<Rightarrow> fioconfig_opts \<Rightarrow> 'w host \<Rightarrow> unit exit \<times> 'w host" where
  "doCheckConfig E C cfg opts h =
    (case CheckErr (y_NewApp (c_daemon C) (tomlConfig cfg) (secretsDir opts) (unsafeHandlers opts) (ext h)) of
       Go _ \<Rightarrow>
         (case configCheck E (c_daemon C) opts h of
            (Go ((_, err), opts), h) \<Rightarrow>
              ((case err of None \<Rightarrow> Go () | Some e \<Rightarrow> if c_NotModified C e then Go () else CheckErr err), h)
          | (Exit n, h) \<Rightarrow> (Exit n, h)
          | (Crash, h) \<Rightarrow> (Crash, h))
     | r \<Rightarrow> (r, h))"

text \<open>The patterns \<open>[A-Za-z0-9_-]{15,48}\<close> of a test's identifier and \<open>[a-z0-9_-]{4,16}\<close> of its name.\<close>

definition in_range :: "char \<Rightarrow> char \<Rightarrow> char \<Rightarrow> bool" where
  "in_range lo hi c \<longleftrightarrow> (of_char lo :: nat) \<le> of_char c \<and> (of_char c :: nat) \<le> of_char hi"

definition name_char :: "char \<Rightarrow> bool" where
  "name_char c \<longleftrightarrow> in_range (CHR ''a'') (CHR ''z'') c \<or> in_range (CHR ''0'') (CHR ''9'') c \<or> c = CHR ''-'' \<or> c = CHR ''_''"

definition valid_test_name :: "string \<Rightarrow> bool" where
  "valid_test_name s \<longleftrightarrow> list_all name_char s \<and> 4 \<le> length s \<and> length s \<le> 16"

definition valid_test_id :: "string \<Rightarrow> bool" where
  "valid_test_id s \<longleftrightarrow>
    list_all (\<lambda>c. name_char c \<or> in_range (CHR ''A'') (CHR ''Z'') c) s \<and> 15 \<le> length s \<and> length s \<le> 48"

definition doRunAndReport ::
  "'w cli_env \<Rightarrow> config \<Rightarrow> fioconfig_opts \<Rightarrow> string \<Rightarrow> string \<Rightarrow> string \<Rightarrow> string list \<Rightarrow> 'w host \<Rightarrow> unit exit \<times> 'w host" where
  "doRunAndReport C cfg opts name i artifactsDir args h =
    (if i \<noteq> '''' \<and> \<not> valid_test_id i then (Exit 1, h)
     else if \<not> valid_test_name name then (Exit 1, h)
     else case CheckErr (y_NewApp (c_daemon C) (tomlConfig cfg) (secretsDir opts) (unsafeHandlers opts) (ext h)) of
       Go _ \<Rightarrow> (let (e, w) = c_RunAndReport C name i artifactsDir args (ext h) in (CheckErr e, h\<lparr>ext := w\<rparr>))
     | r \<Rightarrow> (r, h))"

section \<open>Registration\<close>

text \<open>\<open>None\<close> when the authorization is waited for without end.\<close>

definition doRegister :: "'w env \<Rightarrow> 'w reg_env \<Rightarrow> 'w cli_env \<Rightarrow> reg_opts \<Rightarrow> 'w host \<Rightarrow> (unit exit \<times> 'w host) option" where
  "doRegister E Z C opts h =
    (case RegisterDevice E Z opts h of
       None \<Rightarrow> None
     | Some (Panicked, opts, h) \<Rightarrow> Some (Crash, h)
     | Some (Ret (Some err), opts, h) \<Rightarrow>
         Some (Exit 1,
           if errors_is err ErrExist then
             print C (''ERROR: Device already registered under '' @ g_SotaDir opts @ ''. ''
               @ line ''Re-run with `--force 1` to remove existing registration data.'') h
           else h)
     | Some (Ret None, opts, h) \<Rightarrow>
         (let h = print C (line (''Device '' @ g_Name opts @ '' is now registered at factory '' @ g_Factory opts)) h
          in case NewConfig E [g_SotaDir opts] h of
               (Inl err, h) \<Rightarrow> Some (die C (Some err), h)
             | (Inr cfg, h) \<Rightarrow>
                 (case NewGatewayClient E cfg None '''' h of
                    (Panicked, cfg, h) \<Rightarrow> Some (Crash, h)
                  | (Ret (Inl err), cfg, h) \<Rightarrow> Some (die C (Some err), h)
                  | (Ret (Inr gw), cfg, h) \<Rightarrow>
                      (let h = print C ''Checking connection to Device Gateway and sending device configuration...'' h
                       in case PutSysInfo E gw h of
                            (Panicked, gw, h) \<Rightarrow> Some (Crash, h)
                          | (Ret (Some err), gw, h) \<Rightarrow> Some (die C (Some err), h)
                          | (Ret None, gw, h) \<Rightarrow> Some (Go (), print C (line ''success'') h)))))"

section \<open>Lemmas\<close>

lemma print_frame [simp]:
  "fs (print C t h) = fs h" "report_events (print C t h) = report_events h"
  "installed_versions (print C t h) = installed_versions h" "reqs (print C t h) = reqs h"
  by (simp_all add: print_def)

text \<open>An error with exactly one listed cause has one exit code, in whatever order the map is ranged over.\<close>

lemma one_cause_code:
  assumes "mset order = mset errorsMap" and "(s, code) \<in> set errorsMap" and "\<forall>x. errors_is err x \<longleftrightarrow> x = s"
  shows "errorToExitCode order (Some err) = code"
proof -
  have mem: "(s, code) \<in> set order" using assms(1,2) by (metis set_mset_mset)
  have uniq: "c = code" if "(s, c) \<in> set errorsMap" for c
    using that assms(2) by (auto simp: errorsMap_def)
  have "find (\<lambda>(t, c). errors_is err t) order \<noteq> None" using mem assms(3) by (auto simp: find_None_all)
  then obtain t c where f: "find (\<lambda>(t, c). errors_is err t) order = Some (t, c)" by auto
  from find_in_order [OF f assms(1)] assms(3) uniq f show ?thesis by auto
qed

lemma handlers_opts:
  "ro_GatewayClient (updateOptsToRunnerOpt (getUpdateOpts (updateHandlers C))) = None"
  by (simp add: updateHandlers_def getUpdateOpts_def zero_opts_def WithPreStateHandler_def WithPostStateHandler_def
      updateOptsToRunnerOpt_def runner_opts.truncate_def)

text \<open>A run whose first state refuses it, after a set-up that works.\<close>

lemma Run_refused:
  assumes "NewGatewayClient E cfg None '''' h = (Ret (Inr c), cfg', h1)" and "InitializeDatabase E h1 = (None, h2)"
    and "fst (PutSysInfo E c h2) \<noteq> Panicked" and "ro_GatewayClient ro = None"
    and "\<And>u h. \<exists>e u' h'. run_states E ro sched ss u h = (Ret (Some e), u', h') \<and> (\<forall>x. errors_is e x \<longleftrightarrow> x = expected)"
  shows "\<exists>e u' h'. Run E sched (newUpdateRunner ss ro) cfg h = (Ret (Some e), u', h') \<and> (\<forall>x. errors_is e x \<longleftrightarrow> x = expected)"
proof -
  obtain o3 c3 h3 where p: "PutSysInfo E c h2 = (Ret o3, c3, h3)"
    using assms(3) by (cases "PutSysInfo E c h2"; cases "fst (PutSysInfo E c h2)") auto
  obtain e4 c4 h4 where r: "ReportAppStates E c3 h3 = (e4, c4, h4)" by (metis prod_cases3)
  obtain e u' h' where s: "run_states E ro sched ss ((initial_ctx cfg' c (length ss))\<lparr>Client := c4\<rparr>) h4 = (Ret (Some e), u', h')"
    and e: "\<forall>x. errors_is e x \<longleftrightarrow> x = expected" using assms(5) by blast
  have "run_session E sched (newUpdateRunner ss ro) cfg' c (initial_ctx cfg' c (length ss)) h2 = (Ret (Some e), u', h')"
    using p r s by (simp add: run_session_def newUpdateRunner_def)
  then show ?thesis using assms(1,2,4) e by (simp add: Run_def newUpdateRunner_def)
qed

section \<open>Properties\<close>

text \<open>
  C17: \<open>fioup install\<close> and \<open>fioup start\<close> without an update under way. When the set-up of the run works,
  both leave with exit code 24, the code of \<open>ErrNoUpdateInProgress\<close>, in whatever order Go ranges over
  the map of the codes.
\<close>

theorem resume_exit_code:
  assumes "mset (y_order (c_daemon C)) = mset errorsMap"
    and "\<forall>w. \<exists>e. x_GetCurrentUpdate E w = Inl e \<and> errors_is e ErrUpdateNotFound"
    and "NewGatewayClient E cfg None '''' h = (Ret (Inr c), cfg', h1)" and "InitializeDatabase E h1 = (None, h2)"
    and "fst (PutSysInfo E c h2) \<noteq> Panicked"
  shows "fst (doInstall E C cfg h) = Exit 24 \<and> fst (doStart E C cfg h) = Exit 24"
proof -
  let ?o = "getUpdateOpts (updateHandlers C)" and ?sched = "y_sched (c_daemon C) (ext h)"
  let ?ro = "updateOptsToRunnerOpt ?o"
  have refused: "\<exists>e u' h'. run_states E ?ro ?sched ss u h = (Ret (Some e), u', h') \<and> (\<forall>x. errors_is e x \<longleftrightarrow> x = ErrNoUpdateInProgress)"
    if "ss = install_states ?o \<or> ss = start_states ?o" for ss u h
  proof -
    obtain e where e: "x_GetCurrentUpdate E (ext (before_state E ?ro ?sched (hd ss) u h)) = Inl e" "errors_is e ErrUpdateNotFound"
      using assms(2) by blast
    show ?thesis using resume_refused [OF that refl, where E = E and ro = ?ro and sched = ?sched and u = u and h = h
        and expected = ErrNoUpdateInProgress] e by auto
  qed
  have code: "(ErrNoUpdateInProgress, 24) \<in> set errorsMap" by (simp add: errorsMap_def)
  have exit: "fst (leave C (Run E ?sched (newUpdateRunner ss ?ro) cfg h)) = Exit 24"
    if "ss = install_states ?o \<or> ss = start_states ?o" for ss
  proof -
    from Run_refused [OF assms(3,4,5) handlers_opts refused [OF that]] obtain e u' h' where
      r: "Run E ?sched (newUpdateRunner ss ?ro) cfg h = (Ret (Some e), u', h')" "\<forall>x. errors_is e x \<longleftrightarrow> x = ErrNoUpdateInProgress"
      by blast
    from one_cause_code [OF assms(1) code r(2)] r(1) show ?thesis by (simp add: leave_def die_def DieNotNil_def)
  qed
  show ?thesis using exit by (simp add: doInstall_def doStart_def Install_def Runner.Start_def Let_def)
qed

lemma resume_exit_code_witness:
  "\<exists>E :: unit env. \<exists>C cfg h. mset (y_order (c_daemon C)) = mset errorsMap
     \<and> fst (doInstall E C cfg h) = Exit 24 \<and> fst (doStart E C cfg h) = Exit 24"
proof -
  let ?E = "(undefined :: unit env)\<lparr>x_GetCurrentUpdate := \<lambda>w. Inl (Sentinel ErrUpdateNotFound), x_CreateClient := \<lambda>t w. None,
     x_io := \<lambda>p w. (case p of OpSqlOpen \<Rightarrow> None | OpSqlExec q \<Rightarrow> None | _ \<Rightarrow> Some (ErrorString ''no''), w),
     x_CombinedToml := \<lambda>t w. Inl (ErrorString ''no''), x_Lshw := \<lambda>w. Inl (ErrorString ''no''),
     x_Hostname := \<lambda>w. Inl (ErrorString ''no'')\<rparr>"
  obtain E where E: "E = ?E" by blast
  have f: "x_GetCurrentUpdate E w = Inl (Sentinel ErrUpdateNotFound)" "x_CreateClient E t w = None"
    "x_io E p w = (case p of OpSqlOpen \<Rightarrow> None | OpSqlExec q \<Rightarrow> None | _ \<Rightarrow> Some (ErrorString ''no''), w)"
    "x_CombinedToml E t w = Inl (ErrorString ''no'')" "x_Lshw E w = Inl (ErrorString ''no'')"
    "x_Hostname E w = Inl (ErrorString ''no'')" for w t p
    by (simp_all add: E)
  let ?C = "(undefined :: unit cli_env)\<lparr>c_daemon := (undefined :: unit daemon_env)\<lparr>y_order := errorsMap\<rparr>\<rparr>"
  let ?cfg = "undefined :: config" and ?h = "disk []"
  obtain c cfg' h1 where 1: "NewGatewayClient E ?cfg None '''' ?h = (Ret (Inr c), cfg', h1)"
    by (simp add: NewGatewayClient_def cleanupLastStateIfRequire_def initSota_def initHwinfo_def initAppStateReporter_def
        read_file_def io_def f Let_def)
  obtain h2 where 2: "InitializeDatabase E h1 = (None, h2)"
    by (simp add: InitializeDatabase_def CreateTargetsTable_def CreateEventsTable_def io_def f Let_def)
  have 3: "fst (PutSysInfo E c h2) \<noteq> Panicked"
    by (simp add: PutSysInfo_def uploadNetInfo_def f Let_def split: prod.split)
  have 4: "\<forall>w. \<exists>e. x_GetCurrentUpdate E w = Inl e \<and> errors_is e ErrUpdateNotFound" by (simp add: f)
  have o: "mset (y_order (c_daemon ?C)) = mset errorsMap" by simp
  from resume_exit_code [OF o 4 1 2 3] o show ?thesis by blast
qed

end
