(* ===== verification/Device.thy ===== *)
theory Device
  imports GwClient Float64
begin

text \<open>
  \<open>pkg/client/self.go\<close>, the gateway's record of the device, with \<open>getJson\<close> and the options of
  \<open>gateway_client.go\<close>. A timestamp is a \<open>float32\<close>: a JSON number is parsed to the nearest one.
\<close>

section \<open>float32\<close>

text \<open>
  The nearest number with 24 significant bits, ties to even, with the spacing of the subnormal
  numbers below \<open>2 powi -126\<close>. What rounds to \<open>2 powi 128\<close> or more is out of range.
\<close>

definition f32_scale :: "rat \<Rightarrow> rat" where
  "f32_scale x = 2 powi (23 - max (exponent x) (-126))"

definition f32 :: "rat \<Rightarrow> rat" where
  "f32 x =
    (if x = 0 then 0
     else if x < 0 then - (of_int (rnd_even (- x * f32_scale (- x))) / f32_scale (- x))
     else of_int (rnd_even (x * f32_scale x)) / f32_scale x)"

text \<open>The value of a JSON number: a sign, digits, a fraction, an exponent.\<close>

definition split_at :: "char set \<Rightarrow> string \<Rightarrow> string \<times> string" where
  "split_at cs s = (takeWhile (\<lambda>c. c \<notin> cs) s, drop 1 (dropWhile (\<lambda>c. c \<notin> cs) s))"

definition json_number :: "string \<Rightarrow> rat option" where
  "json_number s =
    (let neg = (s \<noteq> [] \<and> hd s = CHR ''-''); body = (if neg then tl s else s);
         (mantissa, e) = split_at {CHR ''e'', CHR ''E''} body;
         (whole, frac) = split_at {CHR ''.''} mantissa
     in case (parse_uint (whole @ frac), if e = '''' then Some 0 else
               (case e of c # ds \<Rightarrow>
                  if c = CHR ''-'' then map_option (\<lambda>n. - int n) (parse_uint ds)
                  else map_option int (parse_uint (if c = CHR ''+'' then ds else e)))) of
          (Some m, Some k) \<Rightarrow> Some ((if neg then -1 else 1) * of_nat m * 10 powi (k - int (length frac)))
        | _ \<Rightarrow> None)"

fun dec_f32 :: "json \<Rightarrow> rat \<Rightarrow> rat \<times> bool" where
  "dec_f32 (JNum t) old =
     (case json_number t of
        None \<Rightarrow> (old, False)
      | Some x \<Rightarrow> if \<bar>f32 x\<bar> < 2 powi 128 then (f32 x, True) else (old, False))"
| "dec_f32 JNull old = (old, True)"
| "dec_f32 _ old = (old, False)"

section \<open>The device\<close>

type_synonym DgTimeStamp = rat

text \<open>
  \<open>int64(ts)\<close> cuts off the fraction; for a value that does not fit, Go leaves the result to the
  implementation, here \<open>conv\<close>. The result counts seconds from the epoch.
\<close>

definition AsTime :: "(rat \<Rightarrow> int) \<Rightarrow> DgTimeStamp \<Rightarrow> int" where
  "AsTime conv ts = (if int_min \<le> trunc ts \<and> trunc ts \<le> int_max then trunc ts else conv ts)"

record device =
  v_Factory :: string
  v_RepoId :: string
  v_Uuid :: string
  v_Name :: string
  v_CreatedAt :: DgTimeStamp
  v_LastSeen :: DgTimeStamp
  v_PubKey :: string
  v_Tag :: string

definition zero_device :: device where
  "zero_device = \<lparr>v_Factory = '''', v_RepoId = '''', v_Uuid = '''', v_Name = '''', v_CreatedAt = 0,
     v_LastSeen = 0, v_PubKey = '''', v_Tag = ''''\<rparr>"

definition set_device_field :: "string \<Rightarrow> json \<Rightarrow> device \<Rightarrow> device \<times> bool" where
  "set_device_field k j d =
    (if key_is ''factory'' k then put (\<lambda>x. d\<lparr>v_Factory := x\<rparr>) (dec_str j (v_Factory d))
     else if key_is ''repo_id'' k then put (\<lambda>x. d\<lparr>v_RepoId := x\<rparr>) (dec_str j (v_RepoId d))
     else if key_is ''uuid'' k then put (\<lambda>x. d\<lparr>v_Uuid := x\<rparr>) (dec_str j (v_Uuid d))
     else if key_is ''name'' k then put (\<lambda>x. d\<lparr>v_Name := x\<rparr>) (dec_str j (v_Name d))
     else if key_is ''created_at'' k then put (\<lambda>x. d\<lparr>v_CreatedAt := x\<rparr>) (dec_f32 j (v_CreatedAt d))
     else if key_is ''last_seen'' k then put (\<lambda>x. d\<lparr>v_LastSeen := x\<rparr>) (dec_f32 j (v_LastSeen d))
     else if key_is ''pubkey'' k then put (\<lambda>x. d\<lparr>v_PubKey := x\<rparr>) (dec_str j (v_PubKey d))
     else if key_is ''tag'' k then put (\<lambda>x. d\<lparr>v_Tag := x\<rparr>) (dec_str j (v_Tag d))
     else (d, True))"

text \<open>What \<open>json.MarshalIndent\<close> prints; \<open>fmt\<close> writes a float32.\<close>

definition device_json :: "(rat \<Rightarrow> string) \<Rightarrow> device \<Rightarrow> json" where
  "device_json fmt d =
    JObj [(''factory'', JStr (v_Factory d)), (''repo_id'', JStr (v_RepoId d)), (''uuid'', JStr (v_Uuid d)),
          (''name'', JStr (v_Name d)), (''created_at'', JNum (fmt (v_CreatedAt d))),
          (''last_seen'', JNum (fmt (v_LastSeen d))), (''pubkey'', JStr (v_PubKey d)), (''tag'', JStr (v_Tag d))]"

section \<open>Requests\<close>

text \<open>
  The transport's \<open>HttpRes.Json\<close> unmarshals the body. \<open>getJson\<close> does not look at the status, so any
  answer whose body is a document of the right shape is taken for the item.
\<close>

definition res_Json :: "(json \<Rightarrow> 'a \<Rightarrow> 'a \<times> bool) \<Rightarrow> http_res \<Rightarrow> 'a \<Rightarrow> 'a \<times> goerr option" where
  "res_Json dec res item =
    (case Body res of
       Raw t \<Rightarrow> (item, Some (ErrorString ''invalid character''))
     | JsonDoc j \<Rightarrow> (let (v, ok) = dec j item in (v, if ok then None else Some (ErrorString ''json: cannot unmarshal''))))"

definition getJson ::
  "'w env \<Rightarrow> gw_client \<Rightarrow> string \<Rightarrow> (json \<Rightarrow> 'a \<Rightarrow> 'a \<times> bool) \<Rightarrow> 'a \<Rightarrow> 'w host \<Rightarrow> ('a \<times> goerr option) \<times> 'w host" where
  "getJson E c resourcePath dec item h =
    (case Get E c resourcePath h of
       (Inl err, h) \<Rightarrow> ((item, Some err), h)
     | (Inr res, h) \<Rightarrow> (res_Json dec res item, h))"

definition Self :: "'w env \<Rightarrow> gw_client \<Rightarrow> 'w host \<Rightarrow> (device \<times> goerr option) \<times> 'w host" where
  "Self E c h = getJson E c ''/device'' (dec_struct set_device_field) zero_device h"

section \<open>The operations behind a client\<close>

text \<open>
  The two methods of \<open>GwHttpOperations\<close> are \<open>x_http\<close> of the environment in which a client is used: the
  transport's, unless an option replaces them. The last option wins.
\<close>

definition WithHttpOperations ::
  "(http_req \<Rightarrow> 'w \<Rightarrow> http_res result \<times> 'w) \<Rightarrow> 'w env \<Rightarrow> 'w env" where
  "WithHttpOperations ops E = E\<lparr>x_http := ops\<rparr>"

definition getGatewayClientOpts :: "('w env \<Rightarrow> 'w env) list \<Rightarrow> 'w env \<Rightarrow> 'w env" where
  "getGatewayClientOpts options E = fold (\<lambda>f x. f x) options E"

section \<open>Rounding\<close>

lemma rnd_even_near: "\<bar>of_int (rnd_even x) - x\<bar> \<le> 1 / 2"
proof -
  have "of_int \<lfloor>x\<rfloor> \<le> x" "x < of_int \<lfloor>x\<rfloor> + 1" by linarith+
  then show ?thesis by (auto simp: rnd_even_def Let_def)
qed

lemma f32_scale_normal: "1 \<le> x \<Longrightarrow> f32_scale x = 2 powi (23 - exponent x)"
proof -
  assume "1 \<le> x"
  then have "0 \<le> exponent x" 
    using exponent_bounds(2) [of x] power_int_increasing [of "exponent x + 1" 0 "2::rat"] by force
  then show ?thesis by (simp add: f32_scale_def)
qed

text \<open>The error relative to the number, and that large numbers stay integers.\<close>

lemma f32_error:
  assumes "1 \<le> x"
  shows "\<bar>f32 x - x\<bar> * 2 ^ 24 \<le> x"
proof -
  let ?e = "exponent x" and ?s = "f32_scale x"
  have s: "?s = 2 powi (23 - ?e)" by (rule f32_scale_normal [OF assms])
  have pos: "0 < ?s" by (simp add: s)
  have "f32 x = of_int (rnd_even (x * ?s)) / ?s" using assms by (simp add: f32_def)
  then have "\<bar>f32 x - x\<bar> * ?s = \<bar>of_int (rnd_even (x * ?s)) - x * ?s\<bar>"
    using pos by (simp add: abs_mult_pos left_diff_distrib)
  then have "\<bar>f32 x - x\<bar> * ?s \<le> 1 / 2" using rnd_even_near [of "x * ?s"] by simp
  then have "\<bar>f32 x - x\<bar> * ?s * 2 powi (?e + 1) \<le> 1 / 2 * 2 powi (?e + 1)" by (intro mult_right_mono) simp_all
  moreover have "?s * 2 powi (?e + 1) = 2 ^ 24" by (simp add: s flip: power_int_add)
  moreover have "1 / 2 * 2 powi (?e + 1) = (2::rat) powi ?e" by (simp add: power_int_add)
  ultimately have "\<bar>f32 x - x\<bar> * 2 ^ 24 \<le> 2 powi ?e" by (simp add: mult.assoc)
  also have "\<dots> \<le> x" using exponent_bounds(1) [of x] assms by simp
  finally show ?thesis .
qed

lemma f32_integer:
  assumes "2 ^ 23 \<le> x"
  shows "f32 x \<in> \<int>"
proof -
  have "1 \<le> x" using assms by (rule order_trans [rotated]) simp
  have "23 \<le> exponent x"
  proof (rule ccontr)
    assume "\<not> 23 \<le> exponent x"
    then have "(2::rat) powi (exponent x + 1) \<le> 2 powi 23" by (intro power_int_increasing) auto
    with exponent_bounds(2) [of x] assms \<open>1 \<le> x\<close> show False by simp
  qed
  then obtain k where k: "exponent x - 23 = int k" by (metis diff_ge_0_iff_ge zero_le_imp_eq_int)
  have "f32_scale x = inverse (2 ^ k)"
    using f32_scale_normal [OF \<open>1 \<le> x\<close>] k power_int_minus [of "2::rat" "int k"] by (simp add: algebra_simps)
  then have "f32 x = of_int (rnd_even (x * f32_scale x) * 2 ^ k)" using \<open>1 \<le> x\<close>
    by (simp add: f32_def divide_inverse)
  then show ?thesis by (metis Ints_of_int)
qed

lemma f32_pos:
  assumes "1 \<le> x"
  shows "0 < f32 x" "f32 x < 2 * x"
proof -
  have "\<bar>f32 x - x\<bar> * 2 \<le> \<bar>f32 x - x\<bar> * 2 ^ 24" by (intro mult_left_mono) simp_all
  with f32_error [OF assms] have "\<bar>f32 x - x\<bar> * 2 \<le> x" by linarith
  with assms have "0 < f32 x \<and> f32 x < 2 * x" by (simp add: abs_le_iff abs_if split: if_splits)
  then show "0 < f32 x" "f32 x < 2 * x" by simp_all
qed

section \<open>Numbers without a fraction\<close>

lemma split_at_none: "set s \<inter> cs = {} \<Longrightarrow> split_at cs s = (s, '''')"
proof -
  assume "set s \<inter> cs = {}"
  then have "\<forall>c \<in> set s. c \<notin> cs" by blast
  then have "takeWhile (\<lambda>c. c \<notin> cs) s = s" "dropWhile (\<lambda>c. c \<notin> cs) s = []"
    by (simp_all add: takeWhile_eq_all_conv dropWhile_eq_Nil_conv)
  then show "split_at cs s = (s, '''')" by (simp only: split_at_def drop_Nil)
qed

lemma json_number_digits: "json_number (nat_digits n) = Some (of_nat n)"
proof -
  have no: "set (nat_digits n) \<inter> {CHR ''e'', CHR ''E''} = {}" "set (nat_digits n) \<inter> {CHR ''.''} = {}"
    using nat_digits_set [of n] by auto
  show ?thesis using hd_nat_digits_no_sign [of n]
    by (simp add: json_number_def split_at_none [OF no(1)] split_at_none [OF no(2)] Let_def)
qed

lemma trunc_int: "x \<in> \<int> \<Longrightarrow> 0 \<le> x \<Longrightarrow> of_int (trunc x) = x"
  by (auto simp: trunc_def elim: Ints_cases)

text \<open>Whole seconds below \<open>2 ^ 24\<close> are exact, and above that the nearest float32 is whole again.\<close>

lemma f32_small:
  assumes "0 < n" and "n < 2 ^ 24"
  shows "f32 (of_nat n) = of_nat n"
proof -
  have n: "1 \<le> (of_nat n :: rat)" using assms(1) by simp
  have "(of_nat n :: rat) < 2 ^ 24" using assms(2) by (metis of_nat_less_iff of_nat_numeral of_nat_power)
  then have "exponent (of_nat n) \<le> 23" using assms(1) by (intro exponent_le) simp_all
  then obtain k where k: "23 - exponent (of_nat n) = int k" by (metis diff_ge_0_iff_ge zero_le_imp_eq_int)
  have "(of_nat n :: rat) * 2 powi int k = of_int (int n * 2 ^ k)" by simp
  then have "rnd_even (of_nat n * 2 powi int k) = int n * 2 ^ k" by (simp only: rnd_even_int)
  then show ?thesis using assms(1) by (simp add: f32_def f32_scale_normal [OF n] k)
qed

lemma f32_whole: "f32 (of_nat n) \<in> \<int> \<and> 0 \<le> f32 (of_nat n) \<and> \<bar>f32 (of_nat n) - of_nat n\<bar> * 2 ^ 24 \<le> of_nat n"
proof (cases "n = 0 \<or> n < 2 ^ 24")
  case True
  then show ?thesis using f32_small [of n] by (cases "n = 0") (simp_all add: f32_def)
next
  case False
  then have "2 ^ 24 \<le> n" by simp
  then have "(2 ^ 24 :: rat) \<le> of_nat n" by (metis of_nat_le_iff of_nat_numeral of_nat_power)
  then have "2 ^ 23 \<le> (of_nat n :: rat)" "1 \<le> (of_nat n :: rat)" by simp_all
  then show ?thesis using f32_integer f32_error f32_pos by (simp add: less_imp_le)
qed

lemma dec_f32_whole:
  assumes "n < 2 ^ 62"
  shows "dec_f32 (jint (int n)) old = (f32 (of_nat n), True) \<and> AsTime conv (f32 (of_nat n)) = trunc (f32 (of_nat n))
    \<and> of_int (trunc (f32 (of_nat n))) = f32 (of_nat n)"
proof -
  let ?x = "f32 (of_nat n)"
  have b: "(of_nat n :: rat) < 2 ^ 62" using assms by (metis of_nat_less_iff of_nat_numeral of_nat_power)
  have x: "?x \<in> \<int>" "0 \<le> ?x" using f32_whole by blast+
  have "?x < 2 ^ 63" using f32_pos(2) [of "of_nat n"] b by (cases "n = 0") (simp_all add: f32_def)
  moreover have t: "of_int (trunc ?x) = ?x" by (rule trunc_int [OF x])
  ultimately have "(of_int (trunc ?x) :: rat) < of_int (2 ^ 63)" "(of_int 0 :: rat) \<le> of_int (trunc ?x)" using x by simp_all
  then have "trunc ?x < 2 ^ 63" "0 \<le> trunc ?x" by (simp_all only: of_int_less_iff of_int_le_iff)
  then have "AsTime conv ?x = trunc ?x" by (simp add: AsTime_def int_min_def int_max_def)
  moreover have "\<bar>?x\<bar> < 2 powi 128" using \<open>?x < 2 ^ 63\<close> x by simp
  ultimately show ?thesis using t by (simp add: jint_def itoa_def json_number_digits)
qed

text \<open>A second of November 2023 that is no float32.\<close>

lemma f32_today: "f32 1700000001 = 1700000000"
proof -
  have "exponent 1700000001 \<le> 30" by (rule exponent_le) simp_all
  moreover have "\<not> exponent 1700000001 < 30"
  proof
    assume "exponent 1700000001 < 30"
    then have "(2::rat) powi (exponent 1700000001 + 1) \<le> 2 powi 30" by (intro power_int_increasing) auto
    with exponent_bounds(2) [of 1700000001] show False by simp
  qed
  ultimately have e: "exponent 1700000001 = 30" by simp
  have sc: "f32_scale 1700000001 = 1 / 128"
    using f32_scale_normal [of 1700000001] by (simp add: e power_int_minus [of 2 7, simplified])
  have "\<lfloor>1700000001 / 128 :: rat\<rfloor> = 13281250" by (simp add: floor_eq_iff)
  then have "rnd_even (1700000001 * (1 / 128)) = 13281250" by (simp add: rnd_even_def)
  then show ?thesis by (simp only: f32_def sc) simp
qed

section \<open>Properties\<close>

text \<open>
  C31: the timestamps of the gateway's record of the device are decoded to a float32. The time that
  \<open>fioup whoami\<close> shows for a timestamp of \<open>n\<close> seconds differs from it by at most one part in \<open>2 ^ 24\<close>,
  and not at all before second \<open>2 ^ 24\<close>.
\<close>

theorem AsTime_error:
  assumes "n < 2 ^ 62"
  shows "\<exists>ts. dec_f32 (jint (int n)) old = (ts, True) \<and> \<bar>AsTime conv ts - int n\<bar> * 2 ^ 24 \<le> int n
    \<and> (n < 2 ^ 24 \<longrightarrow> AsTime conv ts = int n)"
proof -
  let ?x = "f32 (of_nat n)"
  note d = dec_f32_whole [OF assms, of old conv]
  have "of_int (\<bar>trunc ?x - int n\<bar> * 2 ^ 24) = \<bar>?x - of_nat n\<bar> * 2 ^ 24" using d by simp
  also have "\<dots> \<le> of_int (int n)" using f32_whole [of n] by simp
  finally have "\<bar>trunc ?x - int n\<bar> * 2 ^ 24 \<le> int n" by (simp only: of_int_le_iff)
  moreover have "trunc ?x = int n" if "n < 2 ^ 24"
  proof -
    have "?x = of_nat n" using f32_small [of n] that by (cases "n = 0") (simp_all add: f32_def)
    then show ?thesis by (simp add: trunc_def)
  qed
  ultimately show ?thesis using d by auto
qed

lemma AsTime_error_witness:
  "\<exists>ts. dec_f32 (jint 1700000001) 0 = (ts, True) \<and> AsTime (\<lambda>x. 0) ts = 1700000000
    \<and> \<bar>AsTime (\<lambda>x. 0) ts - 1700000001\<bar> * 2 ^ 24 \<le> (1700000001 :: int)"
proof -
  have "(1700000001 :: nat) < 2 ^ 62" by simp
  from AsTime_error [OF this, of 0 "\<lambda>x. 0"] obtain ts where ts: "dec_f32 (jint 1700000001) 0 = (ts, True)"
    "\<bar>AsTime (\<lambda>x. 0) ts - 1700000001\<bar> * 2 ^ 24 \<le> (1700000001 :: int)" by auto
  moreover have "AsTime (\<lambda>x. 0) ts = 1700000000"
    using dec_f32_whole [of 1700000001 0 "\<lambda>x. 0"] ts(1) f32_today by (simp add: trunc_def)
  ultimately show ?thesis by auto
qed

end
