(* ===== verification/CommandLine.thy ===== *)
theory CommandLine
  imports Commands Device
begin

text \<open>
  The command line of \<open>cmd/fioup\<close>: the variables behind the flags, the \<open>init\<close> function of every
  file, which declares a command with its flags, its rule for the arguments, its annotation for the
  lock and the function that runs it; and \<open>whoami.go\<close>. The cobra library splits the arguments of the
  process; what it does with flags once they are split is written out here.
\<close>

section \<open>The variables behind the flags\<close>

text \<open>A slice variable remembers whether it was set: the first setting replaces its default, a later one appends.\<close>

type_synonym slice_var = "bool \<times> string list"

record vars =
  f_verbose :: bool
  f_configPaths :: slice_var
  f_checkFormat :: string
  f_checkTuf :: bool
  f_statusFormat :: string
  f_diffTuf :: bool
  f_blobs :: bool
  f_syncCurrent :: bool
  f_versionFormat :: string
  f_versionShort :: bool
  f_whoamiFormat :: string
  f_reg :: reg_opts
  f_apps :: slice_var
  f_configEnabled :: bool
  f_daemonFio :: fioconfig_opts
  f_checkFio :: fioconfig_opts
  f_extractFio :: fioconfig_opts
  f_rrFio :: fioconfig_opts
  f_rrName :: string
  f_rrId :: string
  f_rrArtifacts :: string

definition zero_fio :: fioconfig_opts where
  "zero_fio = \<lparr>secretsDir = '''', unsafeHandlers = False, configExtracted = False\<rparr>"

definition zero_reg :: reg_opts where
  "zero_reg = \<lparr>g_Production = False, g_SotaDir = '''', g_DeviceGroup = '''', g_Factory = '''', g_PacmanTag = '''',
     g_ApiToken = '''', g_UUID = '''', g_ComposeApps = [], g_Name = '''', g_ApiTokenHeader = '''', g_Force = False,
     g_HardwareID = '''', g_dockerCfgPath = ''''\<rparr>"

definition zero_vars :: vars where
  "zero_vars = \<lparr>f_verbose = False, f_configPaths = (False, []), f_checkFormat = '''', f_checkTuf = False,
     f_statusFormat = '''', f_diffTuf = False, f_blobs = False, f_syncCurrent = False, f_versionFormat = '''',
     f_versionShort = False, f_whoamiFormat = '''', f_reg = zero_reg, f_apps = (False, []), f_configEnabled = False,
     f_daemonFio = zero_fio, f_checkFio = zero_fio, f_extractFio = zero_fio, f_rrFio = zero_fio, f_rrName = '''',
     f_rrId = '''', f_rrArtifacts = ''''\<rparr>"

section \<open>Flags\<close>

text \<open>
  A flag writes the variable it is bound to. Declaring one sets the variable to the default; a name
  or a shorthand that is taken makes the library panic.
\<close>

datatype flag_kind =
    BoolFlag "bool \<Rightarrow> vars \<Rightarrow> vars"
  | StringFlag "string \<Rightarrow> vars \<Rightarrow> vars"
  | SliceFlag "(slice_var \<Rightarrow> slice_var) \<Rightarrow> vars \<Rightarrow> vars"

record flag =
  fl_name :: string
  fl_short :: "char option"
  fl_kind :: flag_kind

type_synonym flagset = "flag list"

definition AddFlag :: "flag \<Rightarrow> flagset \<Rightarrow> flagset outcome" where
  "AddFlag f flags =
    (if fl_name f \<in> fl_name ` set flags \<or> (fl_short f \<noteq> None \<and> fl_short f \<in> fl_short ` set flags) then Panicked
     else Ret (flags @ [f]))"

definition declare_flag :: "flag \<Rightarrow> (vars \<Rightarrow> vars) \<Rightarrow> flagset \<times> vars \<Rightarrow> (flagset \<times> vars) outcome" where
  "declare_flag f def s =
    (case AddFlag f (fst s) of Panicked \<Rightarrow> Panicked | Ret flags \<Rightarrow> Ret (flags, def (snd s)))"

definition BoolVarP :: "(bool \<Rightarrow> vars \<Rightarrow> vars) \<Rightarrow> string \<Rightarrow> char option \<Rightarrow> bool \<Rightarrow> flagset \<times> vars \<Rightarrow> (flagset \<times> vars) outcome" where
  "BoolVarP p name short value = declare_flag \<lparr>fl_name = name, fl_short = short, fl_kind = BoolFlag p\<rparr> (p value)"

definition StringVar :: "(string \<Rightarrow> vars \<Rightarrow> vars) \<Rightarrow> string \<Rightarrow> string \<Rightarrow> flagset \<times> vars \<Rightarrow> (flagset \<times> vars) outcome" where
  "StringVar p name value = declare_flag \<lparr>fl_name = name, fl_short = None, fl_kind = StringFlag p\<rparr> (p value)"

definition StringSliceVarP ::
  "((slice_var \<Rightarrow> slice_var) \<Rightarrow> vars \<Rightarrow> vars) \<Rightarrow> string \<Rightarrow> char option \<Rightarrow> string list \<Rightarrow> flagset \<times> vars
   \<Rightarrow> (flagset \<times> vars) outcome" where
  "StringSliceVarP p name short value =
    declare_flag \<lparr>fl_name = name, fl_short = short, fl_kind = SliceFlag p\<rparr> (p (\<lambda>s. (False, value)))"

fun declare_all :: "('s \<Rightarrow> 's outcome) list \<Rightarrow> 's \<Rightarrow> 's outcome" where
  "declare_all [] s = Ret s"
| "declare_all (d # ds) s = (case d s of Panicked \<Rightarrow> Panicked | Ret s \<Rightarrow> declare_all ds s)"

definition Lookup :: "string \<Rightarrow> flagset \<Rightarrow> flag option" where
  "Lookup name flags = find (\<lambda>f. fl_name f = name) flags"

text \<open>\<open>MarkHidden\<close> and \<open>MarkFlagRequired\<close> fail for a flag that is not there.\<close>

definition mark :: "flagset \<Rightarrow> string list \<Rightarrow> unit exit" where
  "mark flags names =
    CheckErr (if list_all (\<lambda>n. Lookup n flags \<noteq> None) names then None else Some (ErrorString ''flag does not exist''))"

text \<open>\<open>strconv.ParseBool\<close>.\<close>

definition ParseBool :: "string \<Rightarrow> bool option" where
  "ParseBool s =
    (if s \<in> {''1'', ''t'', ''T'', ''TRUE'', ''true'', ''True''} then Some True
     else if s \<in> {''0'', ''f'', ''F'', ''FALSE'', ''false'', ''False''} then Some False
     else None)"

text \<open>\<open>Value.Set\<close>; \<open>csv\<close> reads the elements of a slice from a line.\<close>

fun set_value :: "(string \<Rightarrow> string list result) \<Rightarrow> flag_kind \<Rightarrow> string \<Rightarrow> vars \<Rightarrow> vars result" where
  "set_value csv (BoolFlag p) val v =
     (case ParseBool val of
        None \<Rightarrow> Inl (ErrorString (''strconv.ParseBool: parsing '' @ json_quote val @ '': invalid syntax''))
      | Some b \<Rightarrow> Inr (p b v))"
| "set_value csv (StringFlag p) val v = Inr (p val v)"
| "set_value csv (SliceFlag p) val v =
     (case csv val of
        Inl err \<Rightarrow> Inl err
      | Inr rv \<Rightarrow> Inr (p (\<lambda>(changed, old). (True, if changed then old @ rv else rv)) v))"

fun set_flags ::
  "(string \<Rightarrow> string list result) \<Rightarrow> flagset \<Rightarrow> (string \<times> string) list \<Rightarrow> vars \<Rightarrow> vars result" where
  "set_flags csv flags [] v = Inr v"
| "set_flags csv flags ((name, val) # rest) v =
     (case Lookup name flags of
        None \<Rightarrow> Inl (ErrorString (''unknown flag: --'' @ name))
      | Some f \<Rightarrow> (case set_value csv (fl_kind f) val v of Inl err \<Rightarrow> Inl err | Inr v \<Rightarrow> set_flags csv flags rest v))"

section \<open>The program\<close>

datatype args_rule = ArbitraryArgs | NoArgs | RangeArgs nat nat | MinimumNArgs nat

fun ValidateArgs :: "args_rule \<Rightarrow> string list \<Rightarrow> bool" where
  "ValidateArgs ArbitraryArgs args = True"
| "ValidateArgs NoArgs args = (args = [])"
| "ValidateArgs (RangeArgs a b) args = (a \<le> length args \<and> length args \<le> b)"
| "ValidateArgs (MinimumNArgs a) args = (a \<le> length args)"

definition lockFlagKey :: string where "lockFlagKey = ''lock-flag''"

text \<open>What runs has the configuration, if it was loaded, the variables and the arguments; \<open>None\<close> is a run without end.\<close>

record 'w command =
  cmd_Path :: "string list"
  cmd_Args :: args_rule
  cmd_Annotations :: "(string \<times> string) list"
  cmd_Flags :: flagset
  cmd_Required :: "string list"
  cmd_Run :: "config option \<Rightarrow> vars \<Rightarrow> string list \<Rightarrow> 'w host \<Rightarrow> (unit exit \<times> 'w host) option"

record 'w program =
  p_root :: flagset
  p_vars :: vars
  p_commands :: "'w command list"

text \<open>
  The environments of the parts, and what the command line adds: cobra's splitting of the arguments,
  the reader of comma-separated lines, the search path of fioconfig, the working directory, the
  build's version and hardware identifier, the formatting of times and of float32 numbers, and the counter
  of the handler that the registration calls back (\<open>m_i\<close>, \<open>m_set_i\<close>). The daemon
  runs for \<open>m_rounds\<close> rounds, after which it counts as still running.
\<close>

datatype invocation = Refuse goerr | Help string | Invoke "string list" "(string \<times> string) list" "string list"

record 'w main_env =
  m_env :: "'w env"
  m_reg :: "'w reg_env"
  m_cli :: "'w cli_env"
  m_diff :: "'w diff_env"
  m_lock :: lock_env
  m_cobra :: "string list \<Rightarrow> invocation"
  m_ReadCSV :: "string \<Rightarrow> string list result"
  m_DEF_CONFIG_ORDER :: "string list"
  m_Getwd :: "'w \<Rightarrow> string result"
  m_HARDWARE_ID :: string
  m_version :: version_info
  m_TimeString :: "int \<Rightarrow> string"
  m_Float32 :: "rat \<Rightarrow> string"
  m_overflow :: "rat \<Rightarrow> int"
  m_i :: "'w \<Rightarrow> nat"
  m_set_i :: "nat \<Rightarrow> 'w \<Rightarrow> 'w"
  m_rounds :: nat

text \<open>\<open>options_amd64.go\<close> and \<open>options_arm64.go\<close>: one constant for each build.\<close>

definition HARDWARE_ID_amd64 :: string where "HARDWARE_ID_amd64 = ''amd64-linux''"
definition HARDWARE_ID_arm64 :: string where "HARDWARE_ID_arm64 = ''arm64-linux''"
definition SOTA_DIR :: string where "SOTA_DIR = ''/var/sota''"

definition AddCommand :: "'w command \<Rightarrow> 'w program \<Rightarrow> 'w program" where
  "AddCommand c p = p\<lparr>p_commands := p_commands p @ [c]\<rparr>"

text \<open>The configuration is a global pointer; without it a command that uses it panics.\<close>

definition with_cfg :: "(config \<Rightarrow> 'w host \<Rightarrow> (unit exit \<times> 'w host) option) \<Rightarrow> config option \<Rightarrow> 'w host
   \<Rightarrow> (unit exit \<times> 'w host) option" where
  "with_cfg f c h = (case c of None \<Rightarrow> Some (Crash, h) | Some cfg \<Rightarrow> f cfg h)"

text \<open>
  An \<open>init\<close> function with flags: \<open>ds\<close> declares them, \<open>hidden\<close> are the marks whose failure ends the
  program, \<open>c\<close> is the command but for its flags.
\<close>

definition init_command ::
  "(flagset \<times> vars \<Rightarrow> (flagset \<times> vars) outcome) list \<Rightarrow> string list \<Rightarrow> 'w command \<Rightarrow> 'w program \<Rightarrow> 'w program exit" where
  "init_command ds hidden c p =
    (case declare_all ds ([], p_vars p) of
       Panicked \<Rightarrow> Crash
     | Ret (flags, v) \<Rightarrow>
         (case mark flags hidden of
            Go _ \<Rightarrow> Go (AddCommand (c\<lparr>cmd_Flags := flags\<rparr>) (p\<lparr>p_vars := v\<rparr>))
          | Exit n \<Rightarrow> Exit n
          | Crash \<Rightarrow> Crash))"

definition locked :: "(string \<times> string) list" where
  "locked = [(lockFlagKey, ''true'')]"

section \<open>Two commands that are not yet there\<close>

text \<open>\<open>whoami.go\<close>.\<close>

definition whoami_text :: "'w main_env \<Rightarrow> device \<Rightarrow> string" where
  "whoami_text M d =
    line (''Name:      '' @ v_Name d) @ line (''Uuuid:     '' @ v_Uuid d) @ line (''Factory:   '' @ v_Factory d)
    @ line (''Tag:       '' @ v_Tag d)
    @ line (''Last seen: '' @ m_TimeString M (AsTime (m_overflow M) (v_LastSeen d)))
    @ line (''Created:   '' @ m_TimeString M (AsTime (m_overflow M) (v_CreatedAt d)))
    @ line ''Public key:'' @ line (v_PubKey d)"

definition doWhoAmI :: "'w main_env \<Rightarrow> string \<Rightarrow> config \<Rightarrow> 'w host \<Rightarrow> unit exit \<times> 'w host" where
  "doWhoAmI M format cfg h =
    (case NewGatewayClient (m_env M) cfg None '''' h of
       (Panicked, cfg, h) \<Rightarrow> (Crash, h)
     | (Ret (Inl err), cfg, h) \<Rightarrow> (CheckErr (Some err), h)
     | (Ret (Inr c), cfg, h) \<Rightarrow>
         (let ((self, err), h) = Self (m_env M) c h
          in case die (m_cli M) err of
               Go _ \<Rightarrow>
                 (Go (), print (m_cli M)
                    (if format = ''text'' then whoami_text M self
                     else line (json_indent 0 (device_json (m_Float32 M) self))) h)
             | r \<Rightarrow> (r, h)))"

text \<open>
  \<open>doDaemon\<close>: the updater, then the loop. Its handlers print; \<open>nil_client\<close> is the client of an updater
  that has none yet.
\<close>

definition daemon_of :: "'w cli_env \<Rightarrow> 'w daemon_env" where
  "daemon_of C = (c_daemon C)
    \<lparr>y_pre := \<lambda>s u. c_print C (preStateHandler (c_fmt C) s u), y_post := \<lambda>s u. c_print C (postStateHandler (c_fmt C) s u)\<rparr>"

definition nil_client :: gw_client where
  "nil_client = \<lparr>BaseURL = '''', Headers = Map.empty, lastNetInfoFile = '''', lastSotaFile = '''', sotaToReport = None,
     lastHwinfoFile = '''', hwinfoToReport = None, lastAppStatesFile = '''', lastAppStates = []\<rparr>"

definition doDaemon :: "'w main_env \<Rightarrow> vars \<Rightarrow> config \<Rightarrow> 'w host \<Rightarrow> (unit exit \<times> 'w host) option" where
  "doDaemon M v cfg h =
    (let D = daemon_of (m_cli M)
     in case NewUpdater (m_env M) D (f_configEnabled v) (f_daemonFio v) cfg nil_client h of
          (Go u, h) \<Rightarrow>
            (case daemon_rounds (m_env M) D (snd (f_configPaths v)) (m_rounds M) u h of
               (Go u, h) \<Rightarrow> None
             | (Exit n, h) \<Rightarrow> Some (Exit n, h)
             | (Crash, h) \<Rightarrow> Some (Crash, h))
        | (Exit n, h) \<Rightarrow> Some (Exit n, h)
        | (Crash, h) \<Rightarrow> Some (Crash, h))"

section \<open>The commands\<close>

definition init_cancel :: "'w main_env \<Rightarrow> 'w program \<Rightarrow> 'w program exit" where
  "init_cancel M = init_command [] []
    \<lparr>cmd_Path = [''cancel''], cmd_Args = NoArgs, cmd_Annotations = locked, cmd_Flags = [], cmd_Required = [],
     cmd_Run = (\<lambda>c v args. with_cfg (\<lambda>cfg h. Some (doCancel (m_env M) (m_cli M) h)) c)\<rparr>"

definition addCommonOptions :: "(bool \<Rightarrow> vars \<Rightarrow> vars) \<Rightarrow> flagset \<times> vars \<Rightarrow> (flagset \<times> vars) outcome" where
  "addCommonOptions p = BoolVarP p ''tuf'' None False"

definition init_check :: "'w main_env \<Rightarrow> 'w program \<Rightarrow> 'w program exit" where
  "init_check M = init_command
    [StringVar (\<lambda>x v. v\<lparr>f_checkFormat := x\<rparr>) ''format'' ''text'', addCommonOptions (\<lambda>x v. v\<lparr>f_checkTuf := x\<rparr>)] []
    \<lparr>cmd_Path = [''check''], cmd_Args = NoArgs, cmd_Annotations = locked, cmd_Flags = [], cmd_Required = [],
     cmd_Run = (\<lambda>c v args. with_cfg (\<lambda>cfg h. Some (doCheck (m_env M) (m_cli M) cfg (f_checkFormat v) (f_checkTuf v) h)) c)\<rparr>"

definition fioconfig_ApplyToCmd ::
  "((fioconfig_opts \<Rightarrow> fioconfig_opts) \<Rightarrow> vars \<Rightarrow> vars) \<Rightarrow> (flagset \<times> vars \<Rightarrow> (flagset \<times> vars) outcome) list" where
  "fioconfig_ApplyToCmd p =
    [StringVar (\<lambda>x. p (\<lambda>o'. o'\<lparr>secretsDir := x\<rparr>)) ''secrets-dir'' ''/run/secrets'',
     BoolVarP (\<lambda>x. p (\<lambda>o'. o'\<lparr>unsafeHandlers := x\<rparr>)) ''unsafe-handlers'' None False]"

definition init_config_check :: "'w main_env \<Rightarrow> 'w program \<Rightarrow> 'w program exit" where
  "init_config_check M = init_command (fioconfig_ApplyToCmd f_checkFio_update) []
    \<lparr>cmd_Path = [''config-check''], cmd_Args = NoArgs, cmd_Annotations = locked, cmd_Flags = [], cmd_Required = [],
     cmd_Run = (\<lambda>c v args. with_cfg (\<lambda>cfg h. Some (doCheckConfig (m_env M) (m_cli M) cfg (f_checkFio v) h)) c)\<rparr>"

definition init_config_extract :: "'w main_env \<Rightarrow> 'w program \<Rightarrow> 'w program exit" where
  "init_config_extract M = init_command (fioconfig_ApplyToCmd f_extractFio_update) []
    \<lparr>cmd_Path = [''config-extract''], cmd_Args = NoArgs, cmd_Annotations = locked, cmd_Flags = [], cmd_Required = [],
     cmd_Run = (\<lambda>c v args. with_cfg (\<lambda>cfg h. Some (doConfigExtract (m_env M) (m_cli M) cfg (f_extractFio v) h)) c)\<rparr>"

definition init_daemon :: "'w main_env \<Rightarrow> 'w program \<Rightarrow> 'w program exit" where
  "init_daemon M = init_command
    (BoolVarP (\<lambda>x v. v\<lparr>f_configEnabled := x\<rparr>) ''fioconfig'' None True # fioconfig_ApplyToCmd f_daemonFio_update) []
    \<lparr>cmd_Path = [''daemon''], cmd_Args = NoArgs, cmd_Annotations = locked, cmd_Flags = [], cmd_Required = [],
     cmd_Run = (\<lambda>c v args. with_cfg (doDaemon M v) c)\<rparr>"

definition init_diff :: "'w main_env \<Rightarrow> 'w program \<Rightarrow> 'w program exit" where
  "init_diff M = init_command
    [addCommonOptions (\<lambda>x v. v\<lparr>f_diffTuf := x\<rparr>), BoolVarP (\<lambda>x v. v\<lparr>f_blobs := x\<rparr>) ''blobs'' (Some (CHR ''b'')) False] []
    \<lparr>cmd_Path = [''diff''], cmd_Args = RangeArgs 0 2, cmd_Annotations = [], cmd_Flags = [], cmd_Required = [],
     cmd_Run = (\<lambda>c v args. with_cfg (\<lambda>cfg h.
       Some (diff_cmd (m_env M) (m_cli M) (m_diff M) cfg args (f_diffTuf v) (f_blobs v) h)) c)\<rparr>"

definition init_fetch :: "'w main_env \<Rightarrow> 'w program \<Rightarrow> 'w program exit" where
  "init_fetch M = init_command [] []
    \<lparr>cmd_Path = [''fetch''], cmd_Args = RangeArgs 0 1, cmd_Annotations = locked, cmd_Flags = [], cmd_Required = [],
     cmd_Run = (\<lambda>c v args. with_cfg (\<lambda>cfg h. Some (fetch_cmd (m_env M) (m_cli M) cfg args h)) c)\<rparr>"

text \<open>\<open>http\<close> itself runs nothing; its two subcommands take the first argument.\<close>

definition http_command :: "'w main_env \<Rightarrow> string \<Rightarrow> http_method \<Rightarrow> 'w command" where
  "http_command M name method =
    \<lparr>cmd_Path = [''http'', name], cmd_Args = MinimumNArgs 1, cmd_Annotations = [], cmd_Flags = [], cmd_Required = [],
     cmd_Run = (\<lambda>c v args. with_cfg (\<lambda>cfg h.
       Some (case args of [] \<Rightarrow> (Crash, h) | a # _ \<Rightarrow> doRequest (m_env M) (m_cli M) cfg method a h)) c)\<rparr>"

definition init_http :: "'w main_env \<Rightarrow> 'w program \<Rightarrow> 'w program exit" where
  "init_http M p = Go (AddCommand (http_command M ''post'' POST) (AddCommand (http_command M ''get'' GET) p))"

definition init_install :: "'w main_env \<Rightarrow> 'w program \<Rightarrow> 'w program exit" where
  "init_install M = init_command [] []
    \<lparr>cmd_Path = [''install''], cmd_Args = NoArgs, cmd_Annotations = locked, cmd_Flags = [], cmd_Required = [],
     cmd_Run = (\<lambda>c v args. with_cfg (\<lambda>cfg h. Some (doInstall (m_env M) (m_cli M) cfg h)) c)\<rparr>"

text \<open>\<open>filepath.Abs\<close>.\<close>

definition Abs :: "'w main_env \<Rightarrow> string \<Rightarrow> 'w \<Rightarrow> string result" where
  "Abs M p w =
    (if p \<noteq> [] \<and> hd p = CHR ''/'' then Inr (path_clean p)
     else case m_Getwd M w of Inl err \<Rightarrow> Inl err | Inr d \<Rightarrow> Inr (path_join [d, p]))"

text \<open>\<open>oauthHandler\<close>: what the registration calls back while the user authorizes the device.\<close>

definition ShowAuthInfo :: "string \<Rightarrow> string \<Rightarrow> string \<Rightarrow> int \<Rightarrow> string" where
  "ShowAuthInfo deviceName userCode address expiresMinutes =
    line (''Visit the link below in your browser to authorize this new device. This link will expire in ''
      @ itoa expiresMinutes @ '' minutes.'')
    @ line (''  Device UUID: '' @ deviceName) @ line (''  User code: '' @ userCode) @ line (''  Browser URL: '' @ address)
    @ line ''''"

definition Tick :: "nat \<Rightarrow> string \<times> nat" where
  "Tick i =
    (let wheels = [CHR ''|'', CHR ''/'', CHR ''-'', CHR 0x5C]
     in (''Waiting for authorization '' @ [wheels ! (i mod length wheels), CHR 0x0D], i + 1))"

definition reg_of :: "'w main_env \<Rightarrow> 'w reg_env" where
  "reg_of M = (m_reg M)
    \<lparr>z_ShowAuthInfo := \<lambda>n c a t. c_print (m_cli M) (ShowAuthInfo n c a t),
     z_Tick := \<lambda>w. let (t, i) = Tick (m_i M w) in m_set_i M i (c_print (m_cli M) t w)\<rparr>"

definition register_run :: "'w main_env \<Rightarrow> vars \<Rightarrow> 'w host \<Rightarrow> (unit exit \<times> 'w host) option" where
  "register_run M v h =
    (case Abs M (g_SotaDir (f_reg v)) (ext h) of
       Inl err \<Rightarrow> Some (CheckErr (Some err), h)
     | Inr d \<Rightarrow> doRegister (m_env M) (reg_of M) (m_cli M) ((f_reg v)\<lparr>g_SotaDir := d, g_ComposeApps := snd (f_apps v)\<rparr>) h)"

definition init_register :: "'w main_env \<Rightarrow> 'w program \<Rightarrow> 'w program exit" where
  "init_register M = init_command
    [BoolVarP (\<lambda>x. f_reg_update (\<lambda>r. r\<lparr>g_Production := x\<rparr>)) ''production'' None False,
     StringVar (\<lambda>x. f_reg_update (\<lambda>r. r\<lparr>g_SotaDir := x\<rparr>)) ''sota-dir'' SOTA_DIR,
     StringVar (\<lambda>x. f_reg_update (\<lambda>r. r\<lparr>g_DeviceGroup := x\<rparr>)) ''device-group'' '''',
     StringVar (\<lambda>x. f_reg_update (\<lambda>r. r\<lparr>g_Factory := x\<rparr>)) ''factory'' '''',
     StringVar (\<lambda>x. f_reg_update (\<lambda>r. r\<lparr>g_PacmanTag := x\<rparr>)) ''tag'' ''main'',
     StringVar (\<lambda>x. f_reg_update (\<lambda>r. r\<lparr>g_ApiToken := x\<rparr>)) ''api-token'' '''',
     StringVar (\<lambda>x. f_reg_update (\<lambda>r. r\<lparr>g_UUID := x\<rparr>)) ''uuid'' '''',
     StringVar (\<lambda>x. f_reg_update (\<lambda>r. r\<lparr>g_Name := x\<rparr>)) ''name'' '''',
     StringVar (\<lambda>x. f_reg_update (\<lambda>r. r\<lparr>g_ApiTokenHeader := x\<rparr>)) ''api-token-header'' ''OSF-TOKEN'',
     BoolVarP (\<lambda>x. f_reg_update (\<lambda>r. r\<lparr>g_Force := x\<rparr>)) ''force'' None False,
     StringVar (\<lambda>x. f_reg_update (\<lambda>r. r\<lparr>g_HardwareID := x\<rparr>)) ''hw-id'' (m_HARDWARE_ID M),
     StringSliceVarP f_apps_update ''apps'' None []]
    [''api-token-header'', ''api-token'', ''production'', ''uuid'', ''hw-id'']
    \<lparr>cmd_Path = [''register''], cmd_Args = ArbitraryArgs, cmd_Annotations = locked, cmd_Flags = [], cmd_Required = [],
     cmd_Run = (\<lambda>c v args. register_run M v)\<rparr>"

definition init_root :: "'w main_env \<Rightarrow> 'w program \<Rightarrow> 'w program exit" where
  "init_root M p =
    (case declare_all
       [BoolVarP (\<lambda>x v. v\<lparr>f_verbose := x\<rparr>) ''verbose'' (Some (CHR ''v'')) False,
        StringSliceVarP f_configPaths_update ''cfg-dirs'' (Some (CHR ''c'')) (m_DEF_CONFIG_ORDER M)] (p_root p, p_vars p) of
       Panicked \<Rightarrow> Crash
     | Ret (flags, v) \<Rightarrow> Go (p\<lparr>p_root := flags, p_vars := v\<rparr>))"

definition runAndReport_ApplyToCmd :: "(flagset \<times> vars \<Rightarrow> (flagset \<times> vars) outcome) list" where
  "runAndReport_ApplyToCmd = fioconfig_ApplyToCmd f_rrFio_update @
    [StringVar (\<lambda>x v. v\<lparr>f_rrName := x\<rparr>) ''name'' '''', StringVar (\<lambda>x v. v\<lparr>f_rrId := x\<rparr>) ''id'' '''',
     StringVar (\<lambda>x v. v\<lparr>f_rrArtifacts := x\<rparr>) ''artifacts-dir'' '''']"

definition init_run_and_report :: "'w main_env \<Rightarrow> 'w program \<Rightarrow> 'w program exit" where
  "init_run_and_report M = init_command runAndReport_ApplyToCmd [''name'']
    \<lparr>cmd_Path = [''run-and-report''], cmd_Args = MinimumNArgs 1, cmd_Annotations = [(lockFlagKey, ''false'')],
     cmd_Flags = [], cmd_Required = [''name''],
     cmd_Run = (\<lambda>c v args. with_cfg (\<lambda>cfg h.
       Some (doRunAndReport (m_cli M) cfg (f_rrFio v) (f_rrName v) (f_rrId v) (f_rrArtifacts v) args h)) c)\<rparr>"

definition init_start :: "'w main_env \<Rightarrow> 'w program \<Rightarrow> 'w program exit" where
  "init_start M = init_command [] []
    \<lparr>cmd_Path = [''start''], cmd_Args = NoArgs, cmd_Annotations = locked, cmd_Flags = [], cmd_Required = [],
     cmd_Run = (\<lambda>c v args. with_cfg (\<lambda>cfg h. Some (doStart (m_env M) (m_cli M) cfg h)) c)\<rparr>"

definition init_status :: "'w main_env \<Rightarrow> 'w program \<Rightarrow> 'w program exit" where
  "init_status M = init_command [StringVar (\<lambda>x v. v\<lparr>f_statusFormat := x\<rparr>) ''format'' ''text''] []
    \<lparr>cmd_Path = [''status''], cmd_Args = NoArgs, cmd_Annotations = [], cmd_Flags = [], cmd_Required = [],
     cmd_Run = (\<lambda>c v args. with_cfg (\<lambda>cfg h. Some (doStatus (m_env M) (m_cli M) (f_statusFormat v) h)) c)\<rparr>"

definition init_update :: "'w main_env \<Rightarrow> 'w program \<Rightarrow> 'w program exit" where
  "init_update M = init_command [BoolVarP (\<lambda>x v. v\<lparr>f_syncCurrent := x\<rparr>) ''sync-current'' None False] []
    \<lparr>cmd_Path = [''update''], cmd_Args = RangeArgs 0 1, cmd_Annotations = locked, cmd_Flags = [], cmd_Required = [],
     cmd_Run = (\<lambda>c v args. with_cfg (\<lambda>cfg h. Some (update_cmd (m_env M) (m_cli M) cfg args (f_syncCurrent v) h)) c)\<rparr>"

definition init_version :: "'w main_env \<Rightarrow> 'w program \<Rightarrow> 'w program exit" where
  "init_version M = init_command
    [StringVar (\<lambda>x v. v\<lparr>f_versionFormat := x\<rparr>) ''format'' ''text'',
     BoolVarP (\<lambda>x v. v\<lparr>f_versionShort := x\<rparr>) ''short'' None False] []
    \<lparr>cmd_Path = [''version''], cmd_Args = NoArgs, cmd_Annotations = [], cmd_Flags = [], cmd_Required = [],
     cmd_Run = (\<lambda>c v args h. Some (version_cmd (m_cli M) (f_versionFormat v) (f_versionShort v) (m_version M) h))\<rparr>"

definition init_whoami :: "'w main_env \<Rightarrow> 'w program \<Rightarrow> 'w program exit" where
  "init_whoami M = init_command [StringVar (\<lambda>x v. v\<lparr>f_whoamiFormat := x\<rparr>) ''format'' ''text''] []
    \<lparr>cmd_Path = [''whoami''], cmd_Args = NoArgs, cmd_Annotations = [], cmd_Flags = [], cmd_Required = [],
     cmd_Run = (\<lambda>c v args. with_cfg (\<lambda>cfg h. Some
       (if valid_format (f_whoamiFormat v) \<noteq> None then (CheckErr (valid_format (f_whoamiFormat v)), h)
        else doWhoAmI M (f_whoamiFormat v) cfg h)) c)\<rparr>"

text \<open>Go runs the \<open>init\<close> functions of a package in the order of the names of its files.\<close>

fun bind_all :: "('s \<Rightarrow> 's exit) list \<Rightarrow> 's \<Rightarrow> 's exit" where
  "bind_all [] s = Go s"
| "bind_all (f # gs) s = (case f s of Go s \<Rightarrow> bind_all gs s | Exit n \<Rightarrow> Exit n | Crash \<Rightarrow> Crash)"

definition empty_program :: "'w program" where
  "empty_program = \<lparr>p_root = [], p_vars = zero_vars, p_commands = []\<rparr>"

definition init_program :: "'w main_env \<Rightarrow> 'w program exit" where
  "init_program M = bind_all
    [init_cancel M, init_check M, init_config_check M, init_config_extract M, init_daemon M, init_diff M, init_fetch M,
     init_http M, init_install M, init_register M, init_root M, init_run_and_report M, init_start M, init_status M,
     init_update M, init_version M, init_whoami M] empty_program"

end
