(* ===== verification/RegisterSignals.thy ===== *)
theory RegisterSignals
  imports Register
begin

text \<open>
  The signal handler of \<open>internal/register/register.go\<close> beside the registration. \<open>setSignals\<close> starts a
  goroutine that waits for an interrupt, cleans up, and leaves the process; the registration writes its
  files meanwhile, one after the other. Each file and the cleanup are one step here.
\<close>

section \<open>The two goroutines\<close>

definition signalHandler :: "'w reg_env \<Rightarrow> reg_opts \<Rightarrow> 'w host \<Rightarrow> int \<times> 'w host" where
  "signalHandler Z opt h = (1, cleanup Z opt h)"

datatype sig_handler = Listening | Cleaning | Leaving int | Unset

text \<open>
  \<open>rg_todo\<close> are the files of the answer still to be written, in the order of the range over the map;
  \<open>rg_gone\<close> is the exit code once the process has ended. The ghost field \<open>rg_late\<close> are the files written
  since the handler's cleanup.
\<close>

record 'w registering =
  rg_host :: "'w host"
  rg_todo :: "(string \<times> json) list"
  rg_handler :: sig_handler
  rg_gone :: "int option"
  rg_late :: "string set"

definition written_paths :: "reg_opts \<Rightarrow> string \<Rightarrow> string set" where
  "written_paths opt n = {path_join [g_SotaDir opt, n], tmp_name (path_join [g_SotaDir opt, n])}"

inductive gstep :: "'w reg_env \<Rightarrow> reg_opts \<Rightarrow> 'w registering \<Rightarrow> 'w registering \<Rightarrow> bool"
  for Z :: "'w reg_env" and opt :: reg_opts where
  Write: "rg_gone s = None \<Longrightarrow> rg_todo s = (n, d) # rest \<Longrightarrow>
    writeSafely Z (path_join [g_SotaDir opt, n]) (Raw (sprint_v Z d)) (rg_host s) = (None, h) \<Longrightarrow>
    gstep Z opt s (s\<lparr>rg_host := h, rg_todo := rest, rg_late := rg_late s \<union> written_paths opt n\<rparr>)"
| Write_error: "rg_gone s = None \<Longrightarrow> rg_todo s = (n, d) # rest \<Longrightarrow>
    writeSafely Z (path_join [g_SotaDir opt, n]) (Raw (sprint_v Z d)) (rg_host s) = (Some err, h) \<Longrightarrow>
    gstep Z opt s (s\<lparr>rg_host := cleanup Z opt h, rg_todo := []\<rparr>)"
| Unset_signals: "rg_gone s = None \<Longrightarrow> rg_todo s = [] \<Longrightarrow> rg_handler s = Listening \<Longrightarrow>
    gstep Z opt s (s\<lparr>rg_handler := Unset\<rparr>)"
| Signal: "rg_gone s = None \<Longrightarrow> rg_handler s = Listening \<Longrightarrow> gstep Z opt s (s\<lparr>rg_handler := Cleaning\<rparr>)"
| Clean: "rg_gone s = None \<Longrightarrow> rg_handler s = Cleaning \<Longrightarrow> signalHandler Z opt (rg_host s) = (n, h) \<Longrightarrow>
    gstep Z opt s (s\<lparr>rg_host := h, rg_handler := Leaving n, rg_late := {}\<rparr>)"
| Leave: "rg_gone s = None \<Longrightarrow> rg_handler s = Leaving n \<Longrightarrow> gstep Z opt s (s\<lparr>rg_gone := Some n\<rparr>)"

definition begin_writing :: "'w host \<Rightarrow> (string \<times> json) list \<Rightarrow> 'w registering" where
  "begin_writing h files = \<lparr>rg_host = h, rg_todo = files, rg_handler = Listening, rg_gone = None, rg_late = {}\<rparr>"

section \<open>Invariant\<close>

definition only_late :: "reg_opts \<Rightarrow> 'w registering \<Rightarrow> bool" where
  "only_late opt s \<longleftrightarrow>
     (\<forall>p \<in> {pem_path opt, sql_path opt}. fs (rg_host s) p \<noteq> None \<longrightarrow> p \<in> rg_late s)"

definition signals_inv :: "reg_opts \<Rightarrow> 'w registering \<Rightarrow> bool" where
  "signals_inv opt s \<longleftrightarrow>
     (\<forall>n. rg_handler s = Leaving n \<longrightarrow> n = 1 \<and> only_late opt s)
     \<and> (\<forall>n. rg_gone s = Some n \<longrightarrow> rg_handler s = Leaving n)"

lemma cleanup_only_late:
  "files_accessible Z \<Longrightarrow> rg_host s = cleanup Z opt h \<Longrightarrow> only_late opt s"
  using cleanup_clears [of Z opt h] by (simp add: only_late_def registration_def)

lemma write_only_late:
  assumes "writeSafely Z (path_join [g_SotaDir opt, n]) c (rg_host s) = (None, h)" and "only_late opt s"
  shows "only_late opt (s\<lparr>rg_host := h, rg_todo := rest, rg_late := rg_late s \<union> written_paths opt n\<rparr>)"
  unfolding only_late_def
proof (intro ballI impI)
  fix p assume p: "p \<in> {pem_path opt, sql_path opt}"
    and there: "fs (rg_host (s\<lparr>rg_host := h, rg_todo := rest, rg_late := rg_late s \<union> written_paths opt n\<rparr>)) p \<noteq> None"
  show "p \<in> rg_late (s\<lparr>rg_host := h, rg_todo := rest, rg_late := rg_late s \<union> written_paths opt n\<rparr>)"
  proof (cases "p \<in> written_paths opt n")
    case False
    then have "fs h p = fs (rg_host s) p" using writeSafely_fs [OF assms(1)] by (simp add: written_paths_def)
    with there p assms(2) show ?thesis by (auto simp: only_late_def)
  qed simp
qed

lemma gstep_inv:
  assumes "files_accessible Z" and "gstep Z opt s s'" and "signals_inv opt s"
  shows "signals_inv opt s'"
  using assms(2,3)
proof (cases rule: gstep.cases)
  case (Write n d rest h)
  then show ?thesis using assms(3) write_only_late [OF Write(4)] by (auto simp: signals_inv_def)
next
  case (Write_error n d rest err h)
  then show ?thesis using assms(3) cleanup_only_late [OF assms(1), of s' opt h] by (auto simp: signals_inv_def)
next
  case (Clean n h)
  then show ?thesis using assms(3) cleanup_only_late [OF assms(1), of s' opt "rg_host s"]
    by (auto simp: signals_inv_def signalHandler_def)
qed (auto simp: signals_inv_def only_late_def)

lemma signals_reachable_inv:
  assumes "files_accessible Z" and "(gstep Z opt)\<^sup>*\<^sup>* (begin_writing h files) s"
  shows "signals_inv opt s"
  using assms(2)
proof (induction rule: rtranclp_induct)
  case base
  show ?case by (simp add: signals_inv_def begin_writing_def)
next
  case (step s s')
  then show ?case using gstep_inv [OF assms(1)] by blast
qed

section \<open>Properties\<close>


text \<open>The steps of an interrupt, with what the registration writes between the cleanup and the end.\<close>

lemma interrupt_steps:
  assumes "\<And>c. cleanup Z opt h = c \<Longrightarrow> late = [] \<and> h' = c
    \<or> (\<exists>n d. late = [(n, d)] \<and> writeSafely Z (path_join [g_SotaDir opt, n]) (Raw (sprint_v Z d)) c = (None, h'))"
  shows "\<exists>s. (gstep Z opt)\<^sup>*\<^sup>* (begin_writing h late) s \<and> rg_gone s = Some 1 \<and> rg_host s = h'
    \<and> rg_late s = \<Union> (written_paths opt ` fst ` set late)"
proof -
  let ?b = "begin_writing h late"
  let ?s1 = "?b\<lparr>rg_handler := Cleaning\<rparr>"
  let ?s2 = "?s1\<lparr>rg_host := cleanup Z opt h, rg_handler := Leaving 1, rg_late := {}\<rparr>"
  let ?s3 = "?s2\<lparr>rg_host := h', rg_todo := [], rg_late := \<Union> (written_paths opt ` fst ` set late)\<rparr>"
  have "gstep Z opt ?b ?s1" by (rule gstep.Signal) (simp_all add: begin_writing_def)
  moreover have "gstep Z opt ?s1 ?s2" by (rule gstep.Clean) (simp_all add: begin_writing_def signalHandler_def)
  moreover have "(gstep Z opt)\<^sup>*\<^sup>* ?s2 ?s3"
  proof (cases late)
    case Nil
    then have "?s3 = ?s2" using assms [OF refl] by (simp add: begin_writing_def)
    then show ?thesis by simp
  next
    case (Cons f fs')
    then obtain n d where l: "late = [(n, d)]"
      and w: "writeSafely Z (path_join [g_SotaDir opt, n]) (Raw (sprint_v Z d)) (cleanup Z opt h) = (None, h')"
      using assms [OF refl] by auto
    have "gstep Z opt ?s2 (?s2\<lparr>rg_host := h', rg_todo := [], rg_late := rg_late ?s2 \<union> written_paths opt n\<rparr>)"
      using w by (intro gstep.Write [where d = d]) (simp_all add: begin_writing_def l)
    then show ?thesis by (auto simp: l)
  qed
  moreover have "gstep Z opt ?s3 (?s3\<lparr>rg_gone := Some 1\<rparr>)" by (rule gstep.Leave) (simp_all add: begin_writing_def)
  ultimately have "(gstep Z opt)\<^sup>*\<^sup>* ?b (?s3\<lparr>rg_gone := Some 1\<rparr>)" by (meson rtranclp.rtrancl_into_rtrancl rtranclp_trans r_into_rtranclp)
  then show ?thesis by (intro exI [of _ "?s3\<lparr>rg_gone := Some 1\<rparr>"]) simp
qed


text \<open>The cleanup does not stop the registration: a file it writes before the process has left survives.\<close>

lemma cleanup_race:
  "\<exists>s. (gstep healthy_reg some_opts)\<^sup>*\<^sup>* (begin_writing (disk []) [(''client.pem'', JStr ''P'')]) s \<and> rg_gone s = Some 1
     \<and> fs (rg_host s) (pem_path some_opts) = Some (Raw ''P'')"
proof -
  have path: "path_join [g_SotaDir some_opts, ''client.pem''] = pem_path some_opts" by code_simp
  let ?c = "cleanup healthy_reg some_opts (disk [])"
  obtain h' where w: "writeSafely healthy_reg (pem_path some_opts) (Raw ''P'') ?c = (None, h')"
    by (simp add: writeSafely_def Let_def open_trunc_def write_string_def os_rename_def sys_def tmp_name_def)
  obtain s where s: "(gstep healthy_reg some_opts)\<^sup>*\<^sup>* (begin_writing (disk []) [(''client.pem'', JStr ''P'')]) s"
    "rg_gone s = Some 1" "rg_host s = h'"
    using interrupt_steps [of healthy_reg some_opts "disk []" "[(''client.pem'', JStr ''P'')]" h'] w
    by (auto simp: path sprint_v_def)
  moreover have "fs h' (pem_path some_opts) = Some (Raw ''P'')" using writeSafely_fs [OF w] by simp
  ultimately show ?thesis by auto
qed

end
