(* ===== verification/Program.thy ===== *)
theory Program
  imports CommandLine RegisterSignals
begin

text \<open>
  The program as a whole: \<open>main.go\<close>, \<open>Execute\<close> of \<open>root.go\<close>, and \<open>packaging.go\<close>, the other \<open>main\<close> of the
  package. A run ends with \<open>Go ()\<close> (exit status 0), an exit code or a crash; \<open>None\<close> is a run without end.
\<close>

section \<open>Execute\<close>

definition overrides :: "(string \<times> string) list" where
  "overrides = [(''FIOUP_CFG_DIRS'', ''cfg-dirs''), (''FIOUP_VERBOSE'', ''verbose'')]"

fun apply_overrides :: "'w main_env \<Rightarrow> flagset \<Rightarrow> (string \<times> string) list \<Rightarrow> 'w \<Rightarrow> vars \<Rightarrow> vars exit" where
  "apply_overrides M flags [] w v = Go v"
| "apply_overrides M flags ((var, name) # rest) w v =
     (let val = x_getenv (m_env M) var w
      in if val = '''' then apply_overrides M flags rest w v
         else (case Lookup name flags of
             None \<Rightarrow> Crash
           | Some f \<Rightarrow>
               (case set_value (m_ReadCSV M) (fl_kind f) val v of
                  Inl err \<Rightarrow> Exit 1
                | Inr v \<Rightarrow> apply_overrides M flags rest w v)))"

definition has_suffix :: "string \<Rightarrow> string \<Rightarrow> bool" where
  "has_suffix s t \<longleftrightarrow> length t \<le> length s \<and> drop (length s - length t) s = t"

definition annotation :: "(string \<times> string) list \<Rightarrow> string \<Rightarrow> string" where
  "annotation m k = (case map_of m k of None \<Rightarrow> '''' | Some x \<Rightarrow> x)"

definition pre_run ::
  "'w main_env \<Rightarrow> nat \<Rightarrow> vars \<Rightarrow> string \<Rightarrow> (string \<times> string) list \<Rightarrow> locks \<Rightarrow> 'w host
   \<Rightarrow> config option exit \<times> locks \<times> 'w host" where
  "pre_run M pid v name annotations locks h =
    PersistentPreRun (m_env M) (m_lock M) pid (snd (f_configPaths v)) name (annotation annotations lockFlagKey) locks h"

text \<open>Invoked as a credential helper for docker the program is a command of its own, without the lock.\<close>

definition credential_helper ::
  "'w main_env \<Rightarrow> nat \<Rightarrow> vars \<Rightarrow> string list \<Rightarrow> locks \<Rightarrow> 'w host \<Rightarrow> unit exit \<times> locks \<times> 'w host" where
  "credential_helper M pid v args locks h =
    (if length args \<noteq> 2 \<or> args ! 1 \<noteq> ''get''
     then (Exit 1, locks, print (m_cli M) (line (''Usage: '' @ hd args @ '' get'')) h)
     else case pre_run M pid v ''fioup'' [] locks h of
       (Go None, locks, h) \<Rightarrow> (Crash, locks, h)
     | (Go (Some cfg), locks, h) \<Rightarrow>
         (case runDockerCredsHelper (m_env M) (m_cli M) cfg h of
            (Go n, h) \<Rightarrow> (Exit n, locks, h)
          | (Exit n, h) \<Rightarrow> (Exit n, locks, h)
          | (Crash, h) \<Rightarrow> (Crash, locks, h))
     | (Exit n, locks, h) \<Rightarrow> (Exit n, locks, h)
     | (Crash, locks, h) \<Rightarrow> (Crash, locks, h))"

text \<open>
  A command: its flags are set one after the other, its own and those of the root; then come the
  number of arguments, what precedes every command, the flags that are required, and the command.
\<close>

definition run_command ::
  "'w main_env \<Rightarrow> nat \<Rightarrow> 'w program \<Rightarrow> vars \<Rightarrow> 'w command \<Rightarrow> (string \<times> string) list \<Rightarrow> string list \<Rightarrow> locks \<Rightarrow> 'w host
   \<Rightarrow> (goerr option exit \<times> locks \<times> 'w host) option" where
  "run_command M pid p v c settings args locks h =
    (case set_flags (m_ReadCSV M) (cmd_Flags c @ p_root p) settings v of
       Inl err \<Rightarrow> Some (Go (Some err), locks, h)
     | Inr v \<Rightarrow>
         if \<not> ValidateArgs (cmd_Args c) args then Some (Go (Some (ErrorString ''invalid arguments'')), locks, h)
         else (case pre_run M pid v (last (cmd_Path c)) (cmd_Annotations c) locks h of
           (Go cfg, locks, h) \<Rightarrow>
             if \<not> list_all (\<lambda>n. n \<in> fst ` set settings) (cmd_Required c)
             then Some (Go (Some (ErrorString ''required flag(s) not set'')), locks, h)
             else (case cmd_Run c cfg v args h of
                 None \<Rightarrow> None
               | Some (Go _, h) \<Rightarrow> Some (Go None, locks, h)
               | Some (Exit n, h) \<Rightarrow> Some (Exit n, locks, h)
               | Some (Crash, h) \<Rightarrow> Some (Crash, locks, h))
         | (Exit n, locks, h) \<Rightarrow> Some (Exit n, locks, h)
         | (Crash, locks, h) \<Rightarrow> Some (Crash, locks, h)))"

definition Execute ::
  "'w main_env \<Rightarrow> nat \<Rightarrow> 'w program \<Rightarrow> string list \<Rightarrow> locks \<Rightarrow> 'w host
   \<Rightarrow> (goerr option exit \<times> locks \<times> 'w host) option" where
  "Execute M pid p args locks h =
    (case apply_overrides M (p_root p) overrides (ext h) (p_vars p) of
       Exit n \<Rightarrow> Some (Exit n, locks, h)
     | Crash \<Rightarrow> Some (Crash, locks, h)
     | Go v \<Rightarrow>
         if args = [] then Some (Crash, locks, h)
         else if has_suffix (hd args) ''docker-credential-fioup'' then
           (let (r, locks, h) = credential_helper M pid v args locks h
            in Some ((case r of Go _ \<Rightarrow> Go None | Exit n \<Rightarrow> Exit n | Crash \<Rightarrow> Crash), locks, h))
         else (case m_cobra M (tl args) of
             Refuse err \<Rightarrow> Some (Go (Some err), locks, h)
           | Help t \<Rightarrow> Some (Go None, locks, print (m_cli M) t h)
           | Invoke path settings pos \<Rightarrow>
               (case find (\<lambda>c. cmd_Path c = path) (p_commands p) of
                  None \<Rightarrow> Some (Go (Some (ErrorString ''unknown command'')), locks, h)
                | Some c \<Rightarrow> run_command M pid p v c settings pos locks h)))"

definition fioup_main ::
  "'w main_env \<Rightarrow> nat \<Rightarrow> string list \<Rightarrow> locks \<Rightarrow> 'w host \<Rightarrow> (unit exit \<times> locks \<times> 'w host) option" where
  "fioup_main M pid args locks h =
    (case init_program M of
       Exit n \<Rightarrow> Some (Exit n, locks, h)
     | Crash \<Rightarrow> Some (Crash, locks, h)
     | Go p \<Rightarrow>
         (case Execute M pid p args locks h of
            None \<Rightarrow> None
          | Some (Go None, locks, h) \<Rightarrow> Some (Go (), locks, h)
          | Some (Go (Some err), locks, h) \<Rightarrow> Some (Exit 1, locks, h)
          | Some (Exit n, locks, h) \<Rightarrow> Some (Exit n, locks, h)
          | Some (Crash, locks, h) \<Rightarrow> Some (Crash, locks, h)))"

text \<open>The tool that writes the manual pages and the completion for the shell; the writing is cobra's.\<close>

record 'w pack_env =
  k_Mkdir :: "string \<Rightarrow> 'w \<Rightarrow> goerr option \<times> 'w"
  k_GenManTree :: "string \<Rightarrow> 'w \<Rightarrow> goerr option \<times> 'w"
  k_GenBashCompletionFile :: "string \<Rightarrow> 'w \<Rightarrow> goerr option \<times> 'w"

definition packaging_main :: "'w cli_env \<Rightarrow> 'w pack_env \<Rightarrow> string list \<Rightarrow> 'w host \<Rightarrow> unit exit \<times> 'w host" where
  "packaging_main C K args h =
    (case args of
       [] \<Rightarrow> (Crash, h)
     | [_, tool, dst] \<Rightarrow>
         if tool = ''manpages'' then
           (let (e, w) = k_Mkdir K dst (ext h); h = h\<lparr>ext := w\<rparr>
            in if e \<noteq> None \<and> \<not> errors_is (the e) ErrExist then (CheckErr e, h)
               else (let (e, w) = k_GenManTree K dst (ext h) in (CheckErr e, h\<lparr>ext := w\<rparr>)))
         else if tool = ''bash-completion'' then
           (let (e, w) = k_GenBashCompletionFile K dst (ext h) in (CheckErr e, h\<lparr>ext := w\<rparr>))
         else (CheckErr (Some (ErrorString (''invalid tool name: '' @ tool))), h)
     | a # _ \<Rightarrow> (Go (), print C (line (''Usage: '' @ a @ '' manpages|bash-completion <path>'')) h))"

section \<open>The tree of commands\<close>

text \<open>What the \<open>init\<close> functions build: this is the program, whatever the environment.\<close>

lemma declare_flag_ok [simp]:
  "fl_name f \<notin> fl_name ` set flags \<Longrightarrow> fl_short f = None \<or> fl_short f \<notin> fl_short ` set flags
     \<Longrightarrow> declare_flag f def (flags, v) = Ret (flags @ [f], def v)"
  by (auto simp: declare_flag_def AddFlag_def)

lemmas program_defs =
  init_program_def init_command_def init_cancel_def init_check_def init_config_check_def init_config_extract_def
  init_daemon_def init_diff_def init_fetch_def init_http_def init_install_def init_register_def init_root_def
  init_run_and_report_def init_start_def init_status_def init_update_def init_version_def init_whoami_def
  fioconfig_ApplyToCmd_def runAndReport_ApplyToCmd_def addCommonOptions_def BoolVarP_def StringVar_def
  StringSliceVarP_def mark_def CheckErr_def Lookup_def AddCommand_def empty_program_def http_command_def

lemma init_program_ok: "\<exists>p. init_program M = Go p"
  by (simp add: program_defs)

text \<open>The variable of the search path belongs to one flag alone.\<close>

definition keeps_paths :: "flag \<Rightarrow> bool" where
  "keeps_paths f \<longleftrightarrow> (\<forall>csv val v v'. set_value csv (fl_kind f) val v = Inr v' \<longrightarrow> f_configPaths v' = f_configPaths v)"

lemma keeps_paths_BoolFlag [simp]: "keeps_paths \<lparr>fl_name = n, fl_short = s, fl_kind = BoolFlag p\<rparr>
    \<longleftrightarrow> (\<forall>b v. f_configPaths (p b v) = f_configPaths v)"
proof -
  have "ParseBool ''true'' = Some True" "ParseBool ''false'' = Some False" by (simp_all add: ParseBool_def)
  then show ?thesis unfolding keeps_paths_def
    by (auto split: option.splits) (metis (full_types) option.inject option.distinct(1))
qed

lemma keeps_paths_StringFlag [simp]: "keeps_paths \<lparr>fl_name = n, fl_short = s, fl_kind = StringFlag p\<rparr>
    \<longleftrightarrow> (\<forall>b v. f_configPaths (p b v) = f_configPaths v)"
  by (simp add: keeps_paths_def)

lemma keeps_paths_SliceFlag [simp]:
  "(\<And>g v. f_configPaths (p g v) = f_configPaths v)
     \<Longrightarrow> keeps_paths \<lparr>fl_name = n, fl_short = s, fl_kind = SliceFlag p\<rparr>"
  by (auto simp: keeps_paths_def split: sum.splits)

lemma program_paths:
  assumes "init_program M = Go p"
  shows "f_configPaths (p_vars p) = (False, m_DEF_CONFIG_ORDER M)"
    and "list_all (\<lambda>c. list_all (\<lambda>f. fl_name f \<noteq> ''cfg-dirs'' \<and> keeps_paths f) (cmd_Flags c)) (p_commands p)"
  using assms by (clarsimp simp: program_defs zero_vars_def)+

text \<open>The directories that settings of the flag name, read from the lines in order.\<close>

definition dirs_given :: "(string \<times> string) list \<Rightarrow> string list" where
  "dirs_given settings = map snd (filter (\<lambda>s. fst s = ''cfg-dirs'') settings)"

definition csv_dirs :: "'w main_env \<Rightarrow> string \<Rightarrow> string list" where
  "csv_dirs M val = (case m_ReadCSV M val of Inl err \<Rightarrow> [] | Inr dirs \<Rightarrow> dirs)"

definition add_dirs :: "'w main_env \<Rightarrow> string list \<Rightarrow> slice_var \<Rightarrow> slice_var" where
  "add_dirs M vals s =
    (if vals = [] then s else (True, (if fst s then snd s else []) @ concat (map (csv_dirs M) vals)))"

lemma add_dirs_Nil [simp]: "add_dirs M [] s = s"
  by (simp add: add_dirs_def)

lemma add_dirs_Cons: "add_dirs M (x # xs) s = add_dirs M xs (True, (if fst s then snd s else []) @ csv_dirs M x)"
  by (simp add: add_dirs_def)

definition paths_flags :: "flagset \<Rightarrow> bool" where
  "paths_flags flags \<longleftrightarrow> (\<exists>f. Lookup ''cfg-dirs'' flags = Some f \<and> fl_kind f = SliceFlag f_configPaths_update)
     \<and> (\<forall>n f. n \<noteq> ''cfg-dirs'' \<and> Lookup n flags = Some f \<longrightarrow> keeps_paths f)"

lemma Lookup_append: "Lookup n (xs @ ys) = (case Lookup n xs of None \<Rightarrow> Lookup n ys | r \<Rightarrow> r)"
  by (induction xs) (auto simp: Lookup_def)

lemma Lookup_None: "list_all (\<lambda>f. fl_name f \<noteq> n) xs \<Longrightarrow> Lookup n xs = None"
  by (induction xs) (auto simp: Lookup_def)

lemma Lookup_Some: "Lookup n xs = Some f \<Longrightarrow> f \<in> set xs \<and> fl_name f = n"
  unfolding Lookup_def by (drule find_Some_set) simp

lemma program_root:
  assumes "init_program M = Go p"
  shows "p_root p = [\<lparr>fl_name = ''verbose'', fl_short = Some (CHR ''v''), fl_kind = BoolFlag (\<lambda>x v. v\<lparr>f_verbose := x\<rparr>)\<rparr>,
    \<lparr>fl_name = ''cfg-dirs'', fl_short = Some (CHR ''c''), fl_kind = SliceFlag f_configPaths_update\<rparr>]"
  using assms by (clarsimp simp: program_defs)

lemma paths_flags_root:
  assumes "init_program M = Go p"
  shows "paths_flags (p_root p)"
  unfolding program_root [OF assms] by (auto simp: paths_flags_def Lookup_def)

lemma paths_flags_command:
  assumes "init_program M = Go p" and "c \<in> set (p_commands p)"
  shows "paths_flags (cmd_Flags c @ p_root p)"
proof -
  from program_paths(2) [OF assms(1)] assms(2)
  have c: "list_all (\<lambda>f. fl_name f \<noteq> ''cfg-dirs'' \<and> keeps_paths f) (cmd_Flags c)" by (simp add: list_all_iff)
  then have "Lookup ''cfg-dirs'' (cmd_Flags c) = None" by (intro Lookup_None) (simp add: list_all_iff)
  moreover have "keeps_paths f" if "Lookup n (cmd_Flags c) = Some f" for n f
    using Lookup_Some [OF that] c by (simp add: list_all_iff)
  ultimately show ?thesis using paths_flags_root [OF assms(1)]
    by (auto simp: paths_flags_def Lookup_append split: option.splits)
qed

lemma set_value_paths:
  assumes "paths_flags flags" and "Lookup n flags = Some f" and "set_value (m_ReadCSV M) (fl_kind f) val v = Inr v'"
  shows "f_configPaths v' = add_dirs M (dirs_given [(n, val)]) (f_configPaths v)"
  using assms
  by (cases "n = ''cfg-dirs''"; cases "f_configPaths v")
    (auto simp: paths_flags_def keeps_paths_def dirs_given_def add_dirs_def csv_dirs_def split: sum.splits)

lemma set_flags_paths:
  assumes "paths_flags flags" and "set_flags (m_ReadCSV M) flags settings v = Inr v'"
  shows "f_configPaths v' = add_dirs M (dirs_given settings) (f_configPaths v)"
  using assms(2)
proof (induction settings arbitrary: v)
  case Nil
  then show ?case by (simp add: dirs_given_def)
next
  case (Cons s rest)
  obtain n val where s: "s = (n, val)" by fastforce
  from Cons.prems s obtain f v1 where f: "Lookup n flags = Some f" "set_value (m_ReadCSV M) (fl_kind f) val v = Inr v1"
    and r: "set_flags (m_ReadCSV M) flags rest v1 = Inr v'" by (auto split: option.splits sum.splits)
  from set_value_paths [OF assms(1) f] Cons.IH [OF r] show ?case
    by (auto simp: s dirs_given_def add_dirs_Cons)
qed

lemma overrides_paths:
  assumes "init_program M = Go p" and "apply_overrides M (p_root p) overrides w (p_vars p) = Go v"
  shows "f_configPaths v =
    add_dirs M (filter (\<lambda>x. x \<noteq> '''') [x_getenv (m_env M) ''FIOUP_CFG_DIRS'' w]) (False, m_DEF_CONFIG_ORDER M)"
  using assms(2) program_paths(1) [OF assms(1)]
  by (auto simp: overrides_def program_root [OF assms(1)] Lookup_def Let_def add_dirs_def csv_dirs_def
      split: if_splits option.splits sum.splits)

section \<open>Commands without the lock\<close>

text \<open>
  What a process may do without the lock: leave the tables of the database alone, and of the files
  remove at most the four notes on what was last reported to the gateway.
\<close>

definition last_files :: "string \<Rightarrow> string set" where
  "last_files dir = {path_join [dir, ''.last-netinfo''], path_join [dir, ''.last-sota''],
     path_join [dir, ''.last-hwinfo''], path_join [dir, ''.last-app-states'']}"

definition keeps :: "'w host \<Rightarrow> 'w host \<Rightarrow> bool" where
  "keeps h h' \<longleftrightarrow> fs h' = fs h \<and> report_events h' = report_events h \<and> installed_versions h' = installed_versions h"

definition harmless :: "'w host \<Rightarrow> 'w host \<Rightarrow> bool" where
  "harmless h h' \<longleftrightarrow> report_events h' = report_events h \<and> installed_versions h' = installed_versions h
     \<and> (\<exists>dir. \<forall>p. fs h' p = fs h p \<or> (fs h' p = None \<and> p \<in> last_files dir))"

lemma keeps_refl [simp]: "keeps h h" "keeps h (h\<lparr>ext := w\<rparr>)" "keeps h (print C t h') \<longleftrightarrow> keeps h h'"
    "keeps h (h'\<lparr>ext := w\<rparr>) \<longleftrightarrow> keeps h h'"
  by (simp_all add: keeps_def)

lemma keeps_trans: "keeps h h1 \<Longrightarrow> keeps h1 h2 \<Longrightarrow> keeps h h2"
  by (simp add: keeps_def)

lemma keeps_harmless: "keeps h h' \<Longrightarrow> harmless h h'"
  by (simp add: keeps_def harmless_def)

lemma harmless_keeps: "harmless h h1 \<Longrightarrow> keeps h1 h2 \<Longrightarrow> harmless h h2"
  by (simp add: keeps_def harmless_def)

lemma keeps_then_harmless: "keeps h h1 \<Longrightarrow> harmless h1 h2 \<Longrightarrow> harmless h h2"
  by (simp add: keeps_def harmless_def)

lemma io_keeps: "io E p h = (e, h') \<Longrightarrow> keeps h h'"
  by (auto simp: keeps_def dest: io_frame)

lemma read_file_keeps: "read_file E p h = (r, h') \<Longrightarrow> keeps h h'"
  by (auto simp: keeps_def dest: read_file_frame)

lemma NewConfig_keeps: "NewConfig E paths h = (r, h') \<Longrightarrow> keeps h h'"
  by (auto simp: NewConfig_def newProxyProvider_def Let_def split: if_splits sum.splits bool.splits prod.splits
      dest!: read_file_keeps)

lemma http_keeps: "http E q h = (r, h') \<Longrightarrow> keeps h h'"
  by (auto simp: keeps_def dest: http_frame)

lemma Self_keeps: "Self E c h = (r, h') \<Longrightarrow> keeps h h'"
  by (auto simp: Self_def getJson_def Get_def split: prod.splits sum.splits dest!: http_keeps)

lemma LoadTargets_keeps: "LoadTargets E c False r h = (x, r', h') \<Longrightarrow> keeps h h'"
  by (cases r) (auto simp: plain_LoadTargets_def plain_readTargets_def tuf_LoadTargets_def Let_def
      split: prod.splits sum.splits option.splits dest!: read_file_keeps)

lemma initSota_keeps: "initSota E t c h = (c', h') \<Longrightarrow> keeps h h'"
  by (auto simp: initSota_def Let_def split: sum.splits prod.splits if_splits dest!: read_file_keeps)

lemma initHwinfo_keeps: "initHwinfo E c h = (r, c', h') \<Longrightarrow> keeps h h'"
  by (auto simp: initHwinfo_def Let_def split: sum.splits option.splits outcome.splits prod.splits if_splits
      dest!: read_file_keeps)

lemma initAppStateReporter_keeps: "initAppStateReporter E c h = (c', h') \<Longrightarrow> keeps h h'"
  by (auto simp: initAppStateReporter_def Let_def split: content.splits sum.splits option.splits prod.splits if_splits
      dest!: read_file_keeps)

lemma remove_files_only:
  "report_events (remove_files E ps h) = report_events h \<and> installed_versions (remove_files E ps h) = installed_versions h
    \<and> (\<forall>p. fs (remove_files E ps h) p = fs h p \<or> (fs (remove_files E ps h) p = None \<and> p \<in> set ps))"
proof (induction ps arbitrary: h)
  case (Cons q ps)
  obtain e h1 where r: "remove_file E q h = (e, h1)" by fastforce
  then have "report_events h1 = report_events h" "installed_versions h1 = installed_versions h"
    "\<forall>p. fs h1 p = fs h p \<or> (fs h1 p = None \<and> p = q)"
    by (auto simp: remove_file_def Let_def split: prod.splits option.splits if_splits dest!: io_frame)
  moreover from this(3) have "fs (remove_files E ps h1) p = fs h p \<or> (fs (remove_files E ps h1) p = None \<and> p \<in> set (q # ps))" for p
    using Cons.IH [of h1] by (metis list.set_intros)
  ultimately show ?case using Cons.IH [of h1] r by simp
qed simp

lemma cleanup_harmless:
  assumes "{lastNetInfoFile c, lastSotaFile c, lastHwinfoFile c, lastAppStatesFile c} = last_files dir"
  shows "harmless h (cleanupLastStateIfRequire E cfg c h)"
proof -
  let ?ps = "[lastNetInfoFile c, lastSotaFile c, lastHwinfoFile c, lastAppStatesFile c]"
  obtain e h1 where io: "io E (OpStat (GetDBPath cfg)) h = (e, h1)" by fastforce
  note k = io_keeps [OF io]
  have "harmless h1 (remove_files E ?ps h1)"
    using remove_files_only [of E ?ps h1] assms unfolding harmless_def by (intro conjI exI [of _ dir]) auto
  then have "harmless h (remove_files E ?ps h1)" by (rule keeps_then_harmless [OF k])
  then show ?thesis using io keeps_harmless [OF k]
    by (auto simp: cleanupLastStateIfRequire_def simp del: remove_files.simps split: option.splits)
qed

lemma client_harmless:
  assumes "initSota E t gw (cleanupLastStateIfRequire E cfg gw h) = (gw1, h1)" and "initHwinfo E gw1 h1 = (r2, gw2, h2)"
    and "keeps h2 h'" and "{lastNetInfoFile gw, lastSotaFile gw, lastHwinfoFile gw, lastAppStatesFile gw} = last_files dir"
  shows "harmless h h'"
  using cleanup_harmless [OF assms(4)] initSota_keeps [OF assms(1)] initHwinfo_keeps [OF assms(2)] assms(3)
  by (blast intro: harmless_keeps)

lemma NewGatewayClient_harmless:
  assumes "NewGatewayClient E cfg apps t h = (r, cfg', h')"
  shows "harmless h h'"
  using assms unfolding NewGatewayClient_def Let_def
  by (auto split: option.splits prod.splits outcome.splits
      intro: keeps_harmless elim!: client_harmless [where dir = "GetStorageDir cfg"]
      dest!: initAppStateReporter_keeps simp: last_files_def)

named_theorems unlocked_runs \<open>what the commands without the lock leave alone\<close>

lemma doStatus_harmless [unlocked_runs]: "doStatus E C format h = (r, h') \<Longrightarrow> harmless h h'"
  by (auto simp: doStatus_def split: if_splits sum.splits intro!: keeps_harmless)

lemma version_cmd_harmless [unlocked_runs]: "version_cmd C format short v h = (r, h') \<Longrightarrow> harmless h h'"
  by (auto simp: version_cmd_def split: sum.splits intro!: keeps_harmless)

lemma doRunAndReport_harmless [unlocked_runs]:
  "doRunAndReport C cfg opts name i dir args h = (r, h') \<Longrightarrow> harmless h h'"
  by (auto simp: doRunAndReport_def Let_def split: if_splits exit.splits prod.splits intro!: keeps_harmless)

lemma doRequest_harmless [unlocked_runs]: "doRequest E C cfg method a h = (r, h') \<Longrightarrow> harmless h h'"
  by (auto simp: doRequest_def processResponse_def Let_def split: if_splits exit.splits prod.splits option.splits sum.splits
      intro!: keeps_harmless)

lemma first_arg_harmless [unlocked_runs]:
  "(case args of [] \<Rightarrow> (Crash, h) | a # as \<Rightarrow> doRequest E C cfg method a h) = (r, h') \<Longrightarrow> harmless h h'"
  by (cases args) (auto simp: keeps_harmless dest: doRequest_harmless)

lemma runDockerCredsHelper_harmless: "runDockerCredsHelper E C cfg h = (r, h') \<Longrightarrow> harmless h h'"
  by (auto simp: runDockerCredsHelper_def Let_def split: if_splits prod.splits option.splits sum.splits intro!: keeps_harmless)

lemma api_Diff_harmless: "api_Diff E D cfg f t tuf h = (r, h') \<Longrightarrow> harmless h h'"
  by (auto simp: api_Diff_def Let_def split: outcome.splits sum.splits prod.splits
      dest!: NewGatewayClient_harmless LoadTargets_keeps intro: harmless_keeps)

lemma print_harmless [simp]: "harmless h (print C t h') \<longleftrightarrow> harmless h h'"
  by (simp add: harmless_def)

lemma harmless_refl [simp]: "harmless h h"
  by (simp add: harmless_def)

lemma diff_cmd_harmless [unlocked_runs]: "diff_cmd E C D cfg args tuf blobs h = (r, h') \<Longrightarrow> harmless h h'"
  by (auto simp: diff_cmd_def doDiff_def Let_def split: outcome.splits sum.splits prod.splits if_splits dest!: api_Diff_harmless)

lemma doWhoAmI_harmless [unlocked_runs]: "doWhoAmI M format cfg h = (r, h') \<Longrightarrow> harmless h h'"
  by (auto simp: doWhoAmI_def split: outcome.splits sum.splits prod.splits exit.splits
      dest!: NewGatewayClient_harmless Self_keeps intro: harmless_keeps)

text \<open>A command without the lock always ends, and does no harm.\<close>

definition harmless_run :: "'w command \<Rightarrow> bool" where
  "harmless_run c \<longleftrightarrow> (\<forall>cfg v args h. \<exists>r h'. cmd_Run c cfg v args h = Some (r, h') \<and> harmless h h')"

lemma ex_harmless: "(\<exists>r h'. f = (r, h') \<and> harmless h h') \<longleftrightarrow> harmless h (snd f)"
  by (cases f) auto

lemma with_cfg_Some: "(\<exists>r h'. with_cfg (\<lambda>cfg h. Some (f cfg h)) c h = Some (r, h') \<and> harmless h h')
    \<longleftrightarrow> (\<forall>cfg. c = Some cfg \<longrightarrow> harmless h (snd (f cfg h)))"
  by (cases c) (auto simp: with_cfg_def prod_eq_iff)

lemma unlocked_snd:
  assumes "\<And>r h'. f = (r, h') \<Longrightarrow> harmless h h'"
  shows "harmless h (snd f)"
  using assms [of "fst f" "snd f"] by simp

lemma program_unlocked:
  assumes "init_program M = Go p"
  shows "list_all (\<lambda>c. annotation (cmd_Annotations c) lockFlagKey = ''true'' \<or> harmless_run c) (p_commands p)"
  using assms
  by (clarsimp simp: program_defs locked_def annotation_def lockFlagKey_def)
    (auto simp: harmless_run_def with_cfg_Some ex_harmless split: if_splits intro!: unlocked_snd dest: unlocked_runs)

lemma pre_run_keeps:
  assumes "pre_run M pid v name annotations locks h = (r, locks', h')"
  shows "keeps h h' \<and> (annotation annotations lockFlagKey = ''true'' \<longrightarrow> locks' = locks \<longrightarrow> (\<forall>c. r \<noteq> Go c))"
  using assms
  by (auto simp: pre_run_def PersistentPreRun_def Let_def split: if_splits prod.splits exit.splits option.splits
      dest!: NewConfig_keeps acquireLock_ok) (metis fun_upd_same option.distinct(1))+

text \<open>
  The cases of a run: without the lock, or with it taken. The first says what is kept when the table
  of the locks is as it was.
\<close>

lemma credential_helper_harmless:
  assumes "credential_helper M pid v args locks h = (r, locks', h')"
  shows "harmless h h' \<and> locks' = locks"
proof (cases "length args \<noteq> 2 \<or> args ! 1 \<noteq> ''get''")
  case True
  then show ?thesis using assms by (auto simp: credential_helper_def)
next
  case False
  obtain r1 l1 h1 where 1: "pre_run M pid v ''fioup'' [] locks h = (r1, l1, h1)" by (metis prod_cases3)
  then have "l1 = locks"
    by (auto simp: pre_run_def PersistentPreRun_def annotation_def Let_def split: if_splits prod.splits exit.splits)
  moreover have "harmless h1 h'" "l1 = locks'"
    using assms False 1 by (auto simp: credential_helper_def split: exit.splits option.splits prod.splits
        dest!: runDockerCredsHelper_harmless)
  ultimately show ?thesis using pre_run_keeps [OF 1] by (auto intro: keeps_then_harmless)
qed

lemma run_command_harmless:
  assumes "annotation (cmd_Annotations c) lockFlagKey = ''true'' \<or> harmless_run c"
    and "run_command M pid p v c settings args locks h = Some (r, locks', h')" and "locks' = locks"
  shows "harmless h h'"
proof (cases "\<exists>v1. set_flags (m_ReadCSV M) (cmd_Flags c @ p_root p) settings v = Inr v1 \<and> ValidateArgs (cmd_Args c) args")
  case False
  then show ?thesis using assms(2) by (auto simp: run_command_def split: sum.splits)
next
  case True
  then obtain v1 where v1: "set_flags (m_ReadCSV M) (cmd_Flags c @ p_root p) settings v = Inr v1" "ValidateArgs (cmd_Args c) args"
    by blast
  obtain r1 l1 h1 where 1: "pre_run M pid v1 (last (cmd_Path c)) (cmd_Annotations c) locks h = (r1, l1, h1)"
    by (metis prod_cases3)
  have l1: "l1 = locks'" using assms(2) v1 1 by (auto simp: run_command_def split: exit.splits if_splits option.splits)
  note k = pre_run_keeps [OF 1]
  show ?thesis
  proof (cases r1)
    case (Go cfg)
    then have "harmless_run c" using k l1 assms(1,3) by blast
    then obtain r2 h2 where "cmd_Run c cfg v1 args h1 = Some (r2, h2)" "harmless h1 h2"
      unfolding harmless_run_def by blast
    then have "harmless h1 h'" using assms(2) v1 1 Go
      by (auto simp: run_command_def split: if_splits exit.splits)
    then show ?thesis using k by (blast intro: keeps_then_harmless)
  next
    case (Exit n)
    then show ?thesis using assms(2) v1 1 k by (auto simp: run_command_def intro: keeps_harmless)
  next
    case Crash
    then show ?thesis using assms(2) v1 1 k by (auto simp: run_command_def intro: keeps_harmless)
  qed
qed

lemma NewConfig_reqs: "NewConfig E paths h = (r, h') \<Longrightarrow> reqs h' = reqs h"
  by (auto simp: NewConfig_def newProxyProvider_def Let_def split: if_splits sum.splits bool.splits prod.splits
      dest!: read_file_frame)

lemma acquireLock_held: "locks (lockFilePath L) = Some q \<Longrightarrow> \<exists>err. acquireLock L pid locks = (Some err, locks)"
  by (auto simp: acquireLock_def split: option.splits)

lemma pre_run_held:
  assumes "locks (lockFilePath (m_lock M)) = Some q" and "pre_run M pid v name annotations locks h = (r, locks', h')"
  shows "locks' = locks \<and> reqs h' = reqs h \<and> (annotation annotations lockFlagKey = ''true'' \<longrightarrow> r = Exit 1)"
  using assms(2) acquireLock_held [where L = "m_lock M" and pid = pid and locks = locks, OF assms(1)]
  by (auto simp: pre_run_def PersistentPreRun_def with_config_def Let_def
      split: if_splits prod.splits exit.splits option.splits sum.splits dest!: NewConfig_reqs)

lemma run_command_held:
  assumes "locks (lockFilePath (m_lock M)) = Some q"
    and "annotation (cmd_Annotations c) lockFlagKey = ''true'' \<or> harmless_run c"
  shows "\<exists>r h'. run_command M pid p v c settings args locks h = Some (r, locks, h')
    \<and> (annotation (cmd_Annotations c) lockFlagKey = ''true'' \<longrightarrow> (r = Exit 1 \<or> (\<exists>err. r = Go (Some err))) \<and> keeps h h' \<and> reqs h' = reqs h)"
proof (cases "\<exists>v1. set_flags (m_ReadCSV M) (cmd_Flags c @ p_root p) settings v = Inr v1 \<and> ValidateArgs (cmd_Args c) args")
  case False
  then show ?thesis by (auto simp: run_command_def split: sum.splits)
next
  case True
  then obtain v1 where v1: "set_flags (m_ReadCSV M) (cmd_Flags c @ p_root p) settings v = Inr v1" "ValidateArgs (cmd_Args c) args"
    by blast
  obtain r1 l1 h1 where 1: "pre_run M pid v1 (last (cmd_Path c)) (cmd_Annotations c) locks h = (r1, l1, h1)"
    by (metis prod_cases3)
  note held = pre_run_held [OF assms(1) 1] and k = pre_run_keeps [OF 1]
  show ?thesis
  proof (cases "annotation (cmd_Annotations c) lockFlagKey = ''true''")
    case True
    then show ?thesis using v1 1 held k by (simp add: run_command_def)
  next
    case False
    then have R: "\<exists>r2 h2. cmd_Run c cfg v1 args h1 = Some (r2, h2)" for cfg
      using assms(2) unfolding harmless_run_def by blast
    show ?thesis
    proof (cases r1)
      case (Go cfg)
      from R [of cfg] obtain r2 h2 where "cmd_Run c cfg v1 args h1 = Some (r2, h2)" by blast
      then show ?thesis using False v1 1 held Go by (cases r2) (simp_all add: run_command_def)
    qed (use False v1 1 held in \<open>simp_all add: run_command_def\<close>)
  qed
qed

text \<open>The commands that change the state of the device.\<close>

definition locked_paths :: "string list list" where
  "locked_paths = [[''cancel''], [''check''], [''config-check''], [''config-extract''], [''daemon''], [''fetch''],
     [''install''], [''register''], [''start''], [''update'']]"

lemma program_locked:
  assumes "init_program M = Go p"
  shows "distinct (map cmd_Path (p_commands p))"
    and "map cmd_Path (filter (\<lambda>c. annotation (cmd_Annotations c) lockFlagKey = ''true'') (p_commands p)) = locked_paths"
  using assms by (clarsimp simp: program_defs locked_def annotation_def lockFlagKey_def locked_paths_def)+

lemma find_path: "find (\<lambda>c. cmd_Path c = path) cs = Some c \<Longrightarrow> c \<in> set cs \<and> cmd_Path c = path"
  by (drule find_Some_set) simp

text \<open>A run is harmless by itself, is that of the helper, or is that of a command.\<close>

lemma main_cases:
  assumes "init_program M = Go p"
  shows "(\<exists>r t. fioup_main M pid args locks h = Some (r, locks, if t = None then h else print (m_cli M) (the t) h))
    \<or> (\<exists>v r h'. credential_helper M pid v args locks h = (r, locks, h')
        \<and> (\<exists>r'. fioup_main M pid args locks h = Some (r', locks, h')))
    \<or> (\<exists>v path settings pos c. m_cobra M (tl args) = Invoke path settings pos \<and> c \<in> set (p_commands p) \<and> cmd_Path c = path
        \<and> fioup_main M pid args locks h =
          map_option (\<lambda>(r, l, h). ((case r of Go None \<Rightarrow> Go () | Go (Some e) \<Rightarrow> Exit 1 | Exit n \<Rightarrow> Exit n | Crash \<Rightarrow> Crash), l, h))
            (run_command M pid p v c settings pos locks h))"
proof (cases "apply_overrides M (p_root p) overrides (ext h) (p_vars p)")
  case (Go v)
  consider "args = []" | "args \<noteq> []" "has_suffix (hd args) ''docker-credential-fioup''"
    | err where "args \<noteq> []" "\<not> has_suffix (hd args) ''docker-credential-fioup''" "m_cobra M (tl args) = Refuse err"
    | t where "args \<noteq> []" "\<not> has_suffix (hd args) ''docker-credential-fioup''" "m_cobra M (tl args) = Help t"
    | path settings pos where "args \<noteq> []" "\<not> has_suffix (hd args) ''docker-credential-fioup''"
        "m_cobra M (tl args) = Invoke path settings pos"
    by (metis invocation.exhaust)
  then show ?thesis
  proof cases
    case 1
    then show ?thesis using assms Go by (auto simp: fioup_main_def Execute_def intro!: exI [of _ "None :: string option"])
  next
    case 2
    obtain r l h1 where c: "credential_helper M pid v args locks h = (r, l, h1)" by (metis prod_cases3)
    with credential_helper_harmless [OF c] show ?thesis using assms Go 2
      by (cases r) (auto simp: fioup_main_def Execute_def)
  next
    case 3
    then show ?thesis using assms Go by (auto simp: fioup_main_def Execute_def intro!: exI [of _ "None :: string option"])
  next
    case (4 t)
    then show ?thesis using assms Go by (auto simp: fioup_main_def Execute_def intro!: exI [of _ "Some t"])
  next
    case (5 path settings pos)
    show ?thesis
    proof (cases "find (\<lambda>c. cmd_Path c = path) (p_commands p)")
      case None
      then show ?thesis using assms Go 5
        by (auto simp: fioup_main_def Execute_def intro!: exI [of _ "None :: string option"])
    next
      case (Some c)
      have "fioup_main M pid args locks h =
          map_option (\<lambda>(r, l, h). ((case r of Go None \<Rightarrow> Go () | Go (Some e) \<Rightarrow> Exit 1 | Exit n \<Rightarrow> Exit n | Crash \<Rightarrow> Crash), l, h))
            (run_command M pid p v c settings pos locks h)"
        using assms Go 5 Some by (auto simp: fioup_main_def Execute_def split: option.splits exit.splits)
      with find_path [OF Some] 5(3) show ?thesis by blast
    qed
  qed
qed (use assms in \<open>auto simp: fioup_main_def Execute_def intro!: exI [of _ "None :: string option"]\<close>)

lemma overrides_end:
  assumes "init_program M = Go p"
  shows "(\<exists>v. apply_overrides M (p_root p) overrides w (p_vars p) = Go v)
    \<or> apply_overrides M (p_root p) overrides w (p_vars p) = Exit 1"
  by (simp add: overrides_def program_root [OF assms] Lookup_def Let_def split: option.split sum.split)

lemma find_locked:
  assumes "init_program M = Go p" and "path \<in> set locked_paths"
  shows "\<exists>c. find (\<lambda>c. cmd_Path c = path) (p_commands p) = Some c \<and> c \<in> set (p_commands p)
    \<and> annotation (cmd_Annotations c) lockFlagKey = ''true''"
proof -
  let ?P = "\<lambda>c. annotation (cmd_Annotations c) lockFlagKey = ''true''"
  have "path \<in> cmd_Path ` set (filter ?P (p_commands p))"
    using assms(2) program_locked(2) [OF assms(1)] by (metis list.set_map locked_paths_def)
  then obtain c where c: "c \<in> set (p_commands p)" "?P c" "cmd_Path c = path" by auto
  then obtain c' where f: "find (\<lambda>c. cmd_Path c = path) (p_commands p) = Some c'"
    by (metis (mono_tags, lifting) find_None_iff option.exhaust)
  from find_path [OF f] c program_locked(1) [OF assms(1)] have "c' = c" by (simp add: distinct_map inj_on_def)
  with f c show ?thesis by blast
qed

lemma main_locked:
  assumes "locks (lockFilePath (m_lock M)) = Some q" and "args \<noteq> []"
    and "\<not> has_suffix (hd args) ''docker-credential-fioup''" and "m_cobra M (tl args) = Invoke path settings pos"
    and "path \<in> set locked_paths"
  shows "\<exists>h'. fioup_main M pid args locks h = Some (Exit 1, locks, h') \<and> keeps h h' \<and> reqs h' = reqs h"
proof -
  obtain p where p: "init_program M = Go p" using init_program_ok by blast
  show ?thesis
  proof (cases "\<exists>v. apply_overrides M (p_root p) overrides (ext h) (p_vars p) = Go v")
    case False
    then show ?thesis using overrides_end [OF p, of "ext h"] p by (auto simp: fioup_main_def Execute_def)
  next
    case True
    then obtain v where v: "apply_overrides M (p_root p) overrides (ext h) (p_vars p) = Go v" by blast
    from find_locked [OF p assms(5)] obtain c where c: "find (\<lambda>c. cmd_Path c = path) (p_commands p) = Some c"
      "annotation (cmd_Annotations c) lockFlagKey = ''true''" by blast
    from run_command_held [where M = M and locks = locks and c = c and p = p and v = v and settings = settings
        and args = pos and pid = pid and h = h, OF assms(1)] c(2)
    obtain r h' where r: "run_command M pid p v c settings pos locks h = Some (r, locks, h')"
      "r = Exit 1 \<or> (\<exists>err. r = Go (Some err))" "keeps h h'" "reqs h' = reqs h" by blast
    then show ?thesis using p v c(1) assms(2-4) by (auto simp: fioup_main_def Execute_def)
  qed
qed

lemma main_harmless:
  assumes "fioup_main M pid args locks h = Some (r, locks, h')"
  shows "harmless h h'"
proof -
  obtain p where p: "init_program M = Go p" using init_program_ok by blast
  show ?thesis using main_cases [OF p, of pid args locks h]
  proof (elim disjE exE conjE)
    fix v path settings pos c
    assume c: "c \<in> set (p_commands p)" and m: "fioup_main M pid args locks h = map_option (\<lambda>(r, l, h).
        ((case r of Go None \<Rightarrow> Go () | Go (Some e) \<Rightarrow> Exit 1 | Exit n \<Rightarrow> Exit n | Crash \<Rightarrow> Crash), l, h))
      (run_command M pid p v c settings pos locks h)"
    then obtain r' where r': "run_command M pid p v c settings pos locks h = Some (r', locks, h')"
      using assms by (cases "run_command M pid p v c settings pos locks h") auto
    have "annotation (cmd_Annotations c) lockFlagKey = ''true'' \<or> harmless_run c"
      using program_unlocked [OF p] c by (simp add: list_all_iff)
    from run_command_harmless [OF this r' refl] show ?thesis .
  qed (use assms in \<open>auto split: if_splits dest: credential_helper_harmless\<close>)
qed

lemma main_held:
  assumes "locks (lockFilePath (m_lock M)) = Some q"
  shows "\<exists>r h'. fioup_main M pid args locks h = Some (r, locks, h')"
proof -
  obtain p where p: "init_program M = Go p" using init_program_ok by blast
  show ?thesis using main_cases [OF p, of pid args locks h]
  proof (elim disjE exE conjE)
    fix v path settings pos c
    assume c: "c \<in> set (p_commands p)" and m: "fioup_main M pid args locks h = map_option (\<lambda>(r, l, h).
        ((case r of Go None \<Rightarrow> Go () | Go (Some e) \<Rightarrow> Exit 1 | Exit n \<Rightarrow> Exit n | Crash \<Rightarrow> Crash), l, h))
      (run_command M pid p v c settings pos locks h)"
    have "annotation (cmd_Annotations c) lockFlagKey = ''true'' \<or> harmless_run c"
      using program_unlocked [OF p] c by (simp add: list_all_iff)
    from run_command_held [where M = M and locks = locks and c = c and p = p and v = v and settings = settings
        and args = pos and pid = pid and h = h, OF assms this] m show ?thesis by auto
  qed auto
qed

section \<open>Properties\<close>



text \<open>
  C9: a process that ends without having taken the lock has left both tables of the database alone and,
  of the files, removed at most the four notes on what was last reported. So whatever else is done to
  the state of the device is done under the lock.
\<close>

theorem no_lock_no_change:
  assumes "fioup_main M pid args locks h = Some (r, locks, h')"
  shows "report_events h' = report_events h \<and> installed_versions h' = installed_versions h
    \<and> (\<exists>dir. \<forall>p. fs h' p = fs h p \<or> (fs h' p = None \<and> p \<in> last_files dir))"
  using main_harmless [OF assms] by (simp add: harmless_def)

text \<open>
  C19: while another process holds the lock, every invocation ends, without having taken it; the ten
  commands that ask for it exit with code 1, and have changed no file and no table and sent no request.
\<close>

theorem held_lock_protects:
  assumes "locks (lockFilePath (m_lock M)) = Some q"
  shows "\<exists>r h'. fioup_main M pid args locks h = Some (r, locks, h')
    \<and> (\<forall>path settings pos. args \<noteq> [] \<and> \<not> has_suffix (hd args) ''docker-credential-fioup''
          \<and> m_cobra M (tl args) = Invoke path settings pos \<and> path \<in> set locked_paths
        \<longrightarrow> r = Exit 1 \<and> fs h' = fs h \<and> report_events h' = report_events h
          \<and> installed_versions h' = installed_versions h \<and> reqs h' = reqs h)"
proof -
  from main_held [where M = M and locks = locks, OF assms] obtain r h' where m: "fioup_main M pid args locks h = Some (r, locks, h')" by blast
  have "r = Exit 1 \<and> fs h' = fs h \<and> report_events h' = report_events h \<and> installed_versions h' = installed_versions h
      \<and> reqs h' = reqs h"
    if "args \<noteq> []" "\<not> has_suffix (hd args) ''docker-credential-fioup''"
      "m_cobra M (tl args) = Invoke path settings pos" "path \<in> set locked_paths" for path settings pos
    using main_locked [where M = M and locks = locks and pid = pid and h = h, OF assms that] m by (auto simp: keeps_def)
  with m show ?thesis by blast
qed

text \<open>A process that asks for the version, and one that wants to update while process 7 does.\<close>

definition shell :: "string list \<Rightarrow> unit main_env" where
  "shell path = (undefined :: unit main_env)
    \<lparr>m_env := (undefined :: unit env)\<lparr>x_getenv := \<lambda>k w. ''''\<rparr>, m_cobra := \<lambda>args. Invoke path [] [],
     m_lock := root_env, m_DEF_CONFIG_ORDER := []\<rparr>"

lemma no_lock_no_change_witness:
  "\<exists>r h'. fioup_main (shell [''version'']) 1 [''fioup'', ''version''] (\<lambda>p. None) (disk []) = Some (r, \<lambda>p. None, h')
    \<and> report_events h' = None \<and> (\<forall>p. fs h' p = None)"
proof -
  have "\<exists>r h'. fioup_main (shell [''version'']) 1 [''fioup'', ''version''] (\<lambda>p. None) (disk []) = Some (r, \<lambda>p. None, h')"
    by (simp add: fioup_main_def Execute_def program_defs shell_def overrides_def has_suffix_def run_command_def
        pre_run_def PersistentPreRun_def annotation_def version_cmd_def version_text_def zero_vars_def Let_def)
  then obtain r h' where m: "fioup_main (shell [''version'']) 1 [''fioup'', ''version''] (\<lambda>p. None) (disk []) = Some (r, \<lambda>p. None, h')"
    by blast
  from no_lock_no_change [OF m] m show ?thesis by (auto simp: disk_def)
qed

lemma held_lock_protects_witness:
  "\<exists>h'. fioup_main (shell [''update'']) 1 [''fioup'', ''update''] [''/run/fioup.lock'' \<mapsto> 7] (disk [(''f'', Raw ''x'')])
      = Some (Exit 1, [''/run/fioup.lock'' \<mapsto> 7], h') \<and> fs h' ''f'' = Some (Raw ''x'') \<and> reqs h' = []"
proof -
  have l: "[''/run/fioup.lock'' \<mapsto> 7] (lockFilePath (m_lock (shell [''update'']))) = Some (7::nat)"
    by (simp add: shell_def lock_paths)
  have "[''update''] \<in> set locked_paths" by (simp add: locked_paths_def)
  with held_lock_protects [where M = "shell [''update'']" and locks = "[''/run/fioup.lock'' \<mapsto> 7]" and pid = 1
      and args = "[''fioup'', ''update'']" and h = "disk [(''f'', Raw ''x'')]", OF l]
  show ?thesis by (auto simp: shell_def has_suffix_def disk_def)
qed


text \<open>
  What \<open>fioup whoami\<close> shows, and that it succeeds, depends on the body of the gateway's answer alone:
  with any status, an error too, a document that decodes is shown as the device, and the exit status is 0.
\<close>

theorem whoami_any_status:
  assumes "NewGatewayClient (m_env M) cfg None '''' h = (Ret (Inr c), cfg', h1)"
    and "Get (m_env M) c ''/device'' h1 = (Inr res, h2)"
    and "Body res = JsonDoc (JObj kvs)" and "dec_fields set_device_field kvs zero_device = (d, True)"
  shows "doWhoAmI M ''text'' cfg h = (Go (), print (m_cli M) (whoami_text M d) h2)"
  using assms by (simp add: doWhoAmI_def Self_def getJson_def res_Json_def die_def DieNotNil_def)

lemma whoami_any_status_witness:
  "\<exists>M :: unit main_env. \<exists>cfg h. (\<forall>q w. \<exists>b. x_http (m_env M) q w = (Inr \<lparr>StatusCode = 401, Body = b\<rparr>, w))
     \<and> (\<exists>h2. doWhoAmI M ''text'' cfg h = (Go (), print (m_cli M) (whoami_text M zero_device) h2))"
proof -
  let ?E = "(undefined :: unit env)\<lparr>x_CreateClient := \<lambda>t w. None, x_io := \<lambda>p w. (Some (ErrorString ''no''), w),
     x_CombinedToml := \<lambda>t w. Inl (ErrorString ''no''), x_Lshw := \<lambda>w. Inl (ErrorString ''no''),
     x_http := \<lambda>q w. (Inr \<lparr>StatusCode = 401, Body = JsonDoc (JObj [(''message'', JStr ''unauthorized'')])\<rparr>, w)\<rparr>"
  obtain M where M: "M = (undefined :: unit main_env)\<lparr>m_env := ?E\<rparr>" by blast
  have f: "x_CreateClient (m_env M) t w = None" "x_io (m_env M) p w = (Some (ErrorString ''no''), w)"
    "x_CombinedToml (m_env M) t w = Inl (ErrorString ''no'')" "x_Lshw (m_env M) w = Inl (ErrorString ''no'')"
    "x_http (m_env M) q w = (Inr \<lparr>StatusCode = 401, Body = JsonDoc (JObj [(''message'', JStr ''unauthorized'')])\<rparr>, w)" for w t p q
    by (simp_all add: M)
  let ?cfg = "undefined :: config" and ?h = "disk []"
  obtain c cfg' h1 where 1: "NewGatewayClient (m_env M) ?cfg None '''' ?h = (Ret (Inr c), cfg', h1)"
    by (simp add: NewGatewayClient_def cleanupLastStateIfRequire_def initSota_def initHwinfo_def initAppStateReporter_def
        read_file_def io_def f Let_def)
  obtain h2 where 2: "Get (m_env M) c ''/device'' h1
      = (Inr \<lparr>StatusCode = 401, Body = JsonDoc (JObj [(''message'', JStr ''unauthorized'')])\<rparr>, h2)"
    by (simp add: Get_def http_def f)
  have 3: "dec_fields set_device_field [(''message'', JStr ''unauthorized'')] zero_device = (zero_device, True)"
    by (simp add: set_device_field_def key_is_def lower_char_def Let_def)
  from whoami_any_status [OF 1 2 _ 3] f(5) show ?thesis by fastforce
qed

end
