(* ===== verification/LifeCycle.thy ===== *)
theory LifeCycle
  imports Runner
begin

text \<open>
  The life cycle of an update. The composeapp library keeps the state of an update on disk, so that an
  update that was interrupted can go on; the states of \<open>pkg/state\<close> each bring it on by one step, or
  find that step done. Here each of them is shown to refine one step of an abstract life cycle, and a
  run of them all to finish the update, wherever it stood.
\<close>

section \<open>The abstract life cycle\<close>

text \<open>\<open>ready s x\<close>: the action may meet an update in state \<open>x\<close>; \<open>advance s x\<close> is the state it leaves.\<close>

definition begun :: "upd_state set" where
  "begun = {StateCreated, StateInitializing}"

definition fetched :: "upd_state set" where
  "fetched = {StateFetched, StateInstalling} \<union> set installed_states"

definition cycle :: "upd_state set" where
  "cycle = begun \<union> {StateInitialized, StateFetching} \<union> fetched"

fun ready :: "action \<Rightarrow> upd_state \<Rightarrow> bool" where
  "ready (Checking s) x = (x \<in> cycle)"
| "ready (Initializing c) x = (x \<in> cycle)"
| "ready Fetching x = (x \<in> cycle - begun)"
| "ready Stopping x = (x \<in> fetched)"
| "ready Installing x = (x \<in> fetched)"
| "ready Starting x = (x \<in> set installed_states)"

fun advance :: "action \<Rightarrow> upd_state \<Rightarrow> upd_state" where
  "advance (Checking s) x = x"
| "advance (Initializing c) x = (if x \<in> begun then StateInitialized else x)"
| "advance Fetching x = (if x \<in> {StateInitialized, StateFetching} then StateFetched else x)"
| "advance Stopping x = x"
| "advance Installing x = (if x \<in> {StateFetched, StateInstalling} then StateInstalled else x)"
| "advance Starting x = StateCompleted"

lemmas cycle_defs = cycle_def begun_def fetched_def installed_states_def

section \<open>A library that works\<close>

text \<open>
  \<open>st\<close> reads the state of the update \<open>r\<close> off the world. The library does what it documents: a call that
  is made in the right state succeeds and moves the update on. Files, database, network and identifiers
  are something else than the update.
\<close>

definition library_works :: "'w env \<Rightarrow> runner \<Rightarrow> ('w \<Rightarrow> upd_state) \<Rightarrow> bool" where
  "library_works E r st \<longleftrightarrow>
     (\<forall>w. u_State (x_Status E r w) = st w)
   \<and> (\<forall>w apps c. st w \<in> begun \<longrightarrow> (\<exists>w'. x_Init E r apps True c w = (None, w') \<and> st w' = StateInitialized))
   \<and> (\<forall>w. st w \<in> {StateInitialized, StateFetching} \<longrightarrow> (\<exists>w'. x_Fetch E r w = (None, w') \<and> st w' = StateFetched))
   \<and> (\<forall>w uris. \<exists>w'. x_StopApps E uris w = (None, w') \<and> st w' = st w)
   \<and> (\<forall>w. st w \<in> {StateFetched, StateInstalling} \<longrightarrow> (\<exists>w'. x_Install E r w = (None, w') \<and> st w' = StateInstalled))
   \<and> (\<forall>w. st w \<in> {StateInstalled, StateStarting} \<longrightarrow> (\<exists>w'. x_Start E r w = (None, w') \<and> st w' = StateStarted))
   \<and> (\<forall>w os. st w \<in> {StateStarted, StateCompleting} \<longrightarrow> (\<exists>w'. x_Complete E r os w = (None, w') \<and> st w' = StateCompleted))"

definition separate :: "'w env \<Rightarrow> 'w runner_opts \<Rightarrow> ('w \<Rightarrow> 'a) \<Rightarrow> bool" where
  "separate E o' st \<longleftrightarrow>
     (\<forall>p w. st (snd (x_io E p w)) = st w) \<and> (\<forall>q w. st (snd (x_http E q w)) = st w) \<and> (\<forall>w. st (snd (x_uuid E w)) = st w)
   \<and> (\<forall>f. f = ro_PreStateHandler o' \<or> f = ro_PostStateHandler o' \<longrightarrow>
        (\<forall>g name u w. f = Some g \<longrightarrow> st (g name u w) = st w))"

definition enough_space :: "'w env \<Rightarrow> runner \<Rightarrow> bool" where
  "enough_space E r \<longleftrightarrow> (\<forall>w u. fst (space_check E r w u) = Ret None)"

section \<open>What is separate stays apart\<close>

lemma io_st: "io E p h = (e, h') \<Longrightarrow> separate E o' st \<Longrightarrow> st (ext h') = st (ext h)"
  by (auto simp: io_def separate_def split: prod.splits) (metis snd_conv)

lemma http_st: "http E q h = (r, h') \<Longrightarrow> separate E o' st \<Longrightarrow> st (ext h') = st (ext h)"
  by (auto simp: http_def separate_def split: prod.splits) (metis snd_conv)

lemma scan_st: "scan_events E rows evts i h = (r, h') \<Longrightarrow> separate E o' st \<Longrightarrow> st (ext h') = st (ext h)"
  by (induction E rows evts i h arbitrary: r h' rule: scan_events.induct)
    (auto split: prod.splits option.splits sum.splits dest: io_st)

lemma GetEvents_st: "GetEvents E h = (r, h') \<Longrightarrow> separate E o' st \<Longrightarrow> st (ext h') = st (ext h)"
  by (auto simp: GetEvents_def split: prod.splits option.splits dest!: io_st scan_st)

lemma DeleteEvents_st: "DeleteEvents E m h = (r, h') \<Longrightarrow> separate E o' st \<Longrightarrow> st (ext h') = st (ext h)"
  by (auto simp: DeleteEvents_def split: prod.splits option.splits dest!: io_st)

lemma SaveEvent_st: "SaveEvent E ev h = (r, h') \<Longrightarrow> separate E o' st \<Longrightarrow> st (ext h') = st (ext h)"
  by (auto simp: SaveEvent_def split: prod.splits option.splits dest!: io_st)

lemma FlushEvents_st: "FlushEvents E c h = (r, h') \<Longrightarrow> separate E o' st \<Longrightarrow> st (ext h') = st (ext h)"
  by (auto simp: FlushEvents_def sendEvent_def Post_def split: prod.splits option.splits sum.splits if_splits
      dest!: GetEvents_st http_st DeleteEvents_st)

lemma flushes_st: "separate E o' st \<Longrightarrow> st (ext (flushes E c n h)) = st (ext h)"
  by (induction n arbitrary: h) (auto dest: FlushEvents_st [OF surjective_pairing])

lemma uuid_st: "x_uuid E w = (i, w') \<Longrightarrow> separate E o' st \<Longrightarrow> st w' = st w"
  by (auto simp: separate_def) (metis snd_conv)

lemma EnqueueEvent_st:
  "EnqueueEvent E t i tgt opts h = (r, h') \<Longrightarrow> separate E o' st \<Longrightarrow> st (ext h') = st (ext h)"
  by (auto simp: EnqueueEvent_def Let_def split: prod.splits option.splits dest!: SaveEvent_st uuid_st)

lemma SendEvent_st: "separate E o' st \<Longrightarrow> st (ext (SendEvent E r t e u h)) = st (ext h)"
  by (auto simp: SendEvent_def Let_def split: prod.splits dest: EnqueueEvent_st)

lemma handler_st:
  "separate E o' st \<Longrightarrow> st (ext (call_handler (ro_PreStateHandler o') name u h)) = st (ext h)"
  "separate E o' st \<Longrightarrow> st (ext (call_handler (ro_PostStateHandler o') name u h)) = st (ext h)"
  by (auto simp: call_handler_def separate_def split: option.splits)

lemma before_state_st: "separate E o' st \<Longrightarrow> st (ext (before_state E o' sched s u h)) = st (ext h)"
  by (simp add: before_state_def flushes_st handler_st Let_def)

section \<open>Each state refines its step\<close>

definition performs ::
  "'w env \<Rightarrow> runner \<Rightarrow> ('w \<Rightarrow> upd_state) \<Rightarrow> action \<Rightarrow> update_ctx \<Rightarrow> 'w host \<Rightarrow> bool" where
  "performs E r st s u h \<longleftrightarrow> (\<exists>u' h'. Execute E s u h = (Ret None, u', h')
     \<and> st (ext h') = advance s (st (ext h)) \<and> UpdateRunner u' = Some r)"

lemma storage_runner: "getAndSetStorageUsageInfo E w u = (e, u') \<Longrightarrow> UpdateRunner u' = UpdateRunner u"
  by (auto simp: getAndSetStorageUsageInfo_def split: sum.splits)

lemma space_check_runner: "space_check E r w u = (e, u') \<Longrightarrow> UpdateRunner u' = UpdateRunner u"
  by (auto simp: space_check_def checkFreeSpace_def Let_def split: prod.splits option.splits outcome.splits if_splits
      dest!: storage_runner)

text \<open>What the library promises, call by call.\<close>

lemma works:
  assumes "library_works E r st"
  shows works_Status: "u_State (x_Status E r w) = st w"
    and works_Init: "st w \<in> begun \<Longrightarrow> \<exists>w'. x_Init E r apps True c w = (None, w') \<and> st w' = StateInitialized"
    and works_Fetch: "st w \<in> {StateInitialized, StateFetching} \<Longrightarrow> \<exists>w'. x_Fetch E r w = (None, w') \<and> st w' = StateFetched"
    and works_Stop: "\<exists>w'. x_StopApps E uris w = (None, w') \<and> st w' = st w"
    and works_Install: "st w \<in> {StateFetched, StateInstalling} \<Longrightarrow> \<exists>w'. x_Install E r w = (None, w') \<and> st w' = StateInstalled"
    and works_Start: "st w \<in> {StateInstalled, StateStarting} \<Longrightarrow> \<exists>w'. x_Start E r w = (None, w') \<and> st w' = StateStarted"
    and works_Complete: "st w \<in> {StateStarted, StateCompleting} \<Longrightarrow> \<exists>w'. x_Complete E r os w = (None, w') \<and> st w' = StateCompleted"
  using assms unfolding library_works_def by blast+

lemma Init_performs:
  assumes "library_works E r st" and "separate E o' st" and "st (ext h) \<in> cycle" and "UpdateRunner u = Some r"
  shows "performs E r st (Initializing c) u h"
proof (cases "st (ext h) \<in> begun")
  case True
  let ?h = "SendEvent E r UpdateInitStarted None u h"
  let ?apps = "if st (ext h) = StateCreated then AppURIs (ToTarget u) else []"
  have "st (ext ?h) \<in> begun" using True SendEvent_st [OF assms(2)] by simp
  from works_Init [OF assms(1) this, of ?apps c] obtain w where
    "x_Init E r ?apps True c (ext ?h) = (None, w)" "st w = StateInitialized" by blast
  with True assms(4) show ?thesis
    by (auto simp: performs_def Init_Execute_def with_new_runner_def works_Status [OF assms(1)] begun_def Let_def
        SendEvent_st [OF assms(2)])
next
  case False
  then show ?thesis using assms(4)
    by (simp add: performs_def Init_Execute_def with_new_runner_def works_Status [OF assms(1)] begun_def Let_def)
qed

lemma Fetch_performs:
  assumes "library_works E r st" and "separate E o' st" and "enough_space E r"
    and "st (ext h) \<in> cycle - begun" and "UpdateRunner u = Some r"
  shows "performs E r st Fetching u h"
proof (cases "st (ext h) \<in> {StateInitialized, StateFetching}")
  case True
  obtain u1 where sp: "space_check E r (ext h) u = (Ret None, u1)"
    using assms(3) unfolding enough_space_def by (metis prod.collapse)
  let ?h = "SendEvent E r DownloadStarted None u1 h"
  have "st (ext ?h) \<in> {StateInitialized, StateFetching}" using True SendEvent_st [OF assms(2)] by simp
  from works_Fetch [OF assms(1) this] obtain w where w: "x_Fetch E r (ext ?h) = (None, w)" "st w = StateFetched" by blast
  obtain e u2 where g: "getAndSetStorageUsageInfo E w u1 = (e, u2)" by fastforce
  have "UpdateRunner u2 = Some r" using storage_runner [OF g] space_check_runner [OF sp] assms(5) by simp
  with True assms(5) sp w g show ?thesis
    by (auto simp: performs_def Fetch_Execute_def works_Status [OF assms(1)] Let_def SendEvent_st [OF assms(2)])
next
  case False
  then show ?thesis using assms(4,5)
    by (auto simp: performs_def Fetch_Execute_def works_Status [OF assms(1)] cycle_defs)
qed

lemma Stop_performs:
  assumes "library_works E r st" and "separate E o' st" and "st (ext h) \<in> fetched" and "UpdateRunner u = Some r"
  shows "performs E r st Stopping u h"
proof (cases "st (ext h) \<in> set installed_states")
  case True
  then show ?thesis using assms(4)
    by (simp add: performs_def Stop_Execute_def works_Status [OF assms(1)] is_one_of_def)
next
  case False
  let ?h = "SendEvent E r InstallationStarted None u h"
  obtain w where "x_StopApps E (URIs (apps_to_stop u)) (ext ?h) = (None, w)" "st w = st (ext ?h)"
    using works_Stop [OF assms(1)] by blast
  with False assms(3,4) show ?thesis
    by (auto simp: performs_def Stop_Execute_def works_Status [OF assms(1)] is_one_of_def fetched_def Let_def
        SendEvent_st [OF assms(2)])
qed

lemma Install_performs:
  assumes "library_works E r st" and "separate E o' st" and "st (ext h) \<in> fetched" and "UpdateRunner u = Some r"
  shows "performs E r st Installing u h"
proof (cases "st (ext h) \<in> set installed_states")
  case True
  then show ?thesis using assms(4)
    by (auto simp: performs_def Install_Execute_def works_Status [OF assms(1)] is_one_of_def installed_states_def)
next
  case False
  then have "st (ext h) \<in> {StateFetched, StateInstalling}" using assms(3) by (auto simp: fetched_def)
  from works_Install [OF assms(1) this] False this assms(4) show ?thesis
    by (auto simp: performs_def Install_Execute_def works_Status [OF assms(1)] is_one_of_def SendEvent_st [OF assms(2)])
qed

lemma Start_performs:
  assumes "library_works E r st" and "separate E o' st" and "st (ext h) \<in> set installed_states" and "UpdateRunner u = Some r"
  shows "performs E r st Starting u h"
proof -
  obtain h1 where h1: "(if is_one_of (st (ext h)) [StateInstalled, StateStarting]
      then let (e, w) = x_Start E r (ext h) in (e, h\<lparr>ext := w\<rparr>) else (None, h)) = (None, h1)"
    and st1: "st (ext h1) \<in> {StateStarted, StateCompleting}"
  proof (cases "st (ext h) \<in> {StateInstalled, StateStarting}")
    case True
    from works_Start [OF assms(1) this] True that show ?thesis by (auto simp: is_one_of_def)
  next
    case False
    with assms(3) that [of h] show ?thesis by (auto simp: is_one_of_def installed_states_def)
  qed
  let ?u = "u\<lparr>Client := UpdateHeaders (AppNames (ToTarget u)) (tID (ToTarget u)) (Client u)\<rparr>"
  from works_Complete [OF assms(1) st1, of "[CompleteWithPruning (prune_mode u)]"] obtain w where
    w: "completeUpdate E r u (ext h1) = w" "st w = StateCompleted" by (auto simp: completeUpdate_def)
  obtain e u2 where g: "getAndSetStorageUsageInfo E w (refresh_status E w ?u) = (e, u2)" by fastforce
  have "UpdateRunner u2 = Some r" using storage_runner [OF g] assms(4) by simp
  with h1 w g assms(3,4) show ?thesis
    by (simp add: performs_def Start_Execute_def works_Status [OF assms(1)] is_one_of_def Let_def SendEvent_st [OF assms(2)]
        del: if_split)
qed

lemma Execute_performs:
  assumes "library_works E r st" and "separate E o' st" and "enough_space E r"
    and "ready s (st (ext h))" and "UpdateRunner u = Some r" and "\<forall>c. s \<noteq> Checking c"
  shows "performs E r st s u h"
  using assms(4-6) Init_performs [OF assms(1,2)] Fetch_performs [OF assms(1-3)] Stop_performs [OF assms(1,2)]
    Install_performs [OF assms(1,2)] Start_performs [OF assms(1,2)]
  by (cases s) auto

text \<open>A list of actions that an update in state \<open>x\<close> can go through, and the run of such a list.\<close>

fun able :: "action list \<Rightarrow> upd_state \<Rightarrow> bool" where
  "able [] x = True"
| "able (s # ss) x = (ready s x \<and> (\<forall>c. s \<noteq> Checking c) \<and> able ss (advance s x))"

lemma run_performs:
  assumes "library_works E r st" and "separate E o' st" and "enough_space E r"
    and "able ss (st (ext h))" and "UpdateRunner u = Some r"
  shows "\<exists>u' h'. run_states E o' sched ss u h = (Ret None, u', h') \<and> st (ext h') = fold advance ss (st (ext h))"
  using assms(4,5)
proof (induction ss arbitrary: u h)
  case (Cons s ss)
  let ?u = "u\<lparr>CurrentState := action_name s\<rparr>" and ?h = "before_state E o' sched s u h"
  have b: "st (ext ?h) = st (ext h)" by (rule before_state_st [OF assms(2)])
  then have "performs E r st s ?u ?h" using Cons.prems by (intro Execute_performs [OF assms(1-3)]) simp_all
  then obtain u1 h1 where e: "Execute E s ?u ?h = (Ret None, u1, h1)" "st (ext h1) = advance s (st (ext h))"
    "UpdateRunner u1 = Some r" by (auto simp: performs_def b)
  let ?h1 = "call_handler (ro_PostStateHandler o') (action_name s) u1 h1"
  have "st (ext ?h1) = advance s (st (ext h))" using handler_st(2) [OF assms(2)] e(2) by simp
  with Cons.IH [of ?h1 "u1\<lparr>CurrentStateNum := CurrentStateNum u1 + 1\<rparr>"] Cons.prems e show ?case
    by (auto simp: run_states_Cons)
qed simp

lemma Init_new_runner:
  assumes "UpdateRunner u = None" and "x_NewUpdate E (tID (ToTarget u)) (ext h) = (Inr r, w)"
  shows "Init_Execute E c u h = Init_Execute E c (u\<lparr>UpdateRunner := Some r\<rparr>) (h\<lparr>ext := w\<rparr>)"
  using assms by (simp add: Init_Execute_def with_new_runner_def)

text \<open>A new update, which the first state creates, goes the same way.\<close>

lemma run_performs_new:
  assumes "library_works E r st" and "separate E o' st" and "enough_space E r"
    and "able (Initializing c # ss) StateCreated" and "UpdateRunner u = None"
    and "\<forall>w. \<exists>w'. x_NewUpdate E (tID (ToTarget u)) w = (Inr r, w') \<and> st w' = StateCreated"
  shows "\<exists>u' h'. run_states E o' sched (Initializing c # ss) u h = (Ret None, u', h')
    \<and> st (ext h') = fold advance (Initializing c # ss) StateCreated"
proof -
  let ?s = "Initializing c"
  let ?u = "u\<lparr>CurrentState := action_name ?s\<rparr>" and ?h = "before_state E o' sched ?s u h"
  obtain w where w: "x_NewUpdate E (tID (ToTarget ?u)) (ext ?h) = (Inr r, w)" "st w = StateCreated"
    using assms(6) by fastforce
  have "performs E r st ?s (?u\<lparr>UpdateRunner := Some r\<rparr>) (?h\<lparr>ext := w\<rparr>)"
    using w(2) assms(4) by (intro Execute_performs [OF assms(1-3)]) simp_all
  then obtain u1 h1 where e: "Execute E ?s ?u ?h = (Ret None, u1, h1)" "st (ext h1) = advance ?s StateCreated"
    "UpdateRunner u1 = Some r" using Init_new_runner [of ?u E ?h r w c] w assms(5) by (auto simp: performs_def)
  let ?h1 = "call_handler (ro_PostStateHandler o') (action_name ?s) u1 h1"
  have "st (ext ?h1) = advance ?s StateCreated" using handler_st(2) [OF assms(2)] e(2) by simp
  with run_performs [OF assms(1-3), of ss ?h1 "u1\<lparr>CurrentStateNum := CurrentStateNum u1 + 1\<rparr>" sched] assms(4) e show ?thesis
    by (auto simp: run_states_Cons)
qed

section \<open>The operations reach their goals\<close>

definition goal :: "action list \<Rightarrow> upd_state set" where
  "goal ss = (if Starting \<in> set ss then {StateCompleted} else if Installing \<in> set ss then set installed_states else fetched)"

lemma tail_able:
  assumes "ss \<in> {tl (update_states v opts), tl (fetch_states v opts), tl (install_states opts), tl (start_states opts)}" and "x \<in> cycle"
  shows "able ss x \<and> fold advance ss x \<in> goal ss \<and> (\<exists>rest. ss = Initializing False # rest)"
  using assms
  by (auto simp: update_states_def fetch_states_def install_states_def start_states_def goal_def cycle_defs)

section \<open>The check of an interrupted update\<close>

text \<open>
  \<open>targets_file_ok\<close>: the file of the targets is absent, or is a document of targets; \<open>names_target\<close>: the
  record of the update names a target with its apps.
\<close>

definition targets_file_ok :: "'w env \<Rightarrow> config \<Rightarrow> 'w host \<Rightarrow> bool" where
  "targets_file_ok E cfg h \<longleftrightarrow>
     (\<forall>w. fst (x_io E (OpReadFile (GetTargetsFilepath cfg)) w) = None)
   \<and> (case fs h (GetTargetsFilepath cfg) of None \<Rightarrow> True | Some c \<Rightarrow> \<exists>f. unmarshal_file c = Inr f)"

definition names_target :: "'w env \<Rightarrow> runner \<Rightarrow> bool" where
  "names_target E r \<longleftrightarrow> (\<forall>w. \<exists>t. getTargetOutOfUpdate E (x_Status E r w) = Inr t)"

text \<open>\<open>under_way\<close>: an update in a state of the life cycle is the current one.\<close>

definition under_way :: "'w env \<Rightarrow> runner \<Rightarrow> ('w \<Rightarrow> upd_state) \<Rightarrow> bool" where
  "under_way E r st \<longleftrightarrow> (\<forall>w. st w \<in> cycle \<longrightarrow> x_GetCurrentUpdate E w = Inr r)"

lemma read_file_st: "read_file E p h = (r, h') \<Longrightarrow> separate E o' st \<Longrightarrow> st (ext h') = st (ext h)"
  by (auto simp: read_file_def split: prod.splits option.splits dest: io_st)

lemma load_for_resume:
  assumes "separate E o' st" and "targets_file_ok E cfg h" and "\<not> UpdateTargets s"
  shows "\<exists>err ts cur h'. load_targets E s c (PlainRepo (NewPlainRepo (GetTargetsFilepath cfg) hw)) h = ((None, err), ts, cur, -1, h')
    \<and> st (ext h') = st (ext h)"
proof -
  let ?p = "GetTargetsFilepath cfg"
  obtain r h1 where rf: "read_file E ?p h = (r, h1)" by fastforce
  obtain w where "x_io E (OpReadFile ?p) (ext h) = (None, w)" using assms(2) unfolding targets_file_ok_def
    by (metis prod.collapse)
  then have "case fs h ?p of None \<Rightarrow> \<exists>e. r = Inl e \<and> errors_is e ErrNotExist | Some c \<Rightarrow> r = Inr c"
    using rf by (auto simp: read_file_def io_def split: option.splits)
  with rf read_file_st [OF rf assms(1)] assms(2,3) show ?thesis
    by (auto simp: load_targets_def plain_LoadTargets_def plain_readTargets_def plain_loadTargets_def NewPlainRepo_def
        targets_file_ok_def errorf_def Let_def split: option.splits)
qed

lemma current_target_runner: "getAndSetCurrentTarget E w u = (e, u') \<Longrightarrow> UpdateRunner u' = UpdateRunner u \<and> Mode u' = Mode u"
  by (auto simp: getAndSetCurrentTarget_def Let_def split: sum.splits if_splits)

lemma ongoing_target: "names_target E r \<Longrightarrow> \<exists>t. getOngoingUpdateTarget E r w u = Inr t"
  by (auto simp: getOngoingUpdateTarget_def names_target_def Let_def split: sum.splits)
    (metis Inl_Inr_False)

lemma decide_for_resume:
  assumes "names_target E r" and "UpdateRunner u = Some r" and "Mode u = UpdateModeResume"
  shows "\<exists>u'. decide E (resume_check name states tuf) w u = (Ret None, None, u') \<and> UpdateRunner u' = Some r"
proof -
  obtain e u1 where 1: "getAndSetCurrentTarget E w u = (e, u1)" by fastforce
  note same = current_target_runner [OF 1]
  let ?u = "if e = None then u1\<lparr>Client := UpdateHeaders (AppNames (FromTarget u1)) (tID (FromTarget u1)) (Client u1)\<rparr> else u1"
  have r: "UpdateRunner ?u = Some r" "Mode ?u = UpdateModeResume" using same assms by simp_all
  obtain t where "getOngoingUpdateTarget E r w ?u = Inr t" using ongoing_target [OF assms(1)] by blast
  then have "selectToTarget E (resume_check name states tuf) w ?u = (Ret None, ?u\<lparr>ToTarget := t\<rparr>)"
    using r by (simp add: selectToTarget_def resume_check_def)
  with 1 r show ?thesis by (simp add: decide_def isUpdateRequired_def resume_check_def Let_def)
qed

lemma check_for_resume:
  assumes "separate E o' st" and "targets_file_ok E (Config u) h" and "names_target E r"
    and "x_GetCurrentUpdate E (ext h) = Inr r" and "u_State (x_Status E r (ext h)) \<in> set states"
  shows "\<exists>u' h'. Check_Execute E (resume_check name states False) u h = (Ret None, u', h')
    \<and> st (ext h') = st (ext h) \<and> UpdateRunner u' = Some r"
proof -
  let ?s = "resume_check name states False"
  let ?u = "u\<lparr>IsForcedUpdate := Force ?s, UpdateRunner := Some r, Mode := UpdateModeResume\<rparr>"
  have "\<not> UpdateTargets ?s" by (simp add: resume_check_def)
  from load_for_resume [OF assms(1,2) this, of "Client ?u" "GetHardwareID (Config ?u)"] obtain err ts cur h1 where
    l: "load_targets E ?s (Client ?u) (PlainRepo (NewPlainRepo (GetTargetsFilepath (Config u)) (GetHardwareID (Config ?u)))) h
      = ((None, err), ts, cur, -1, h1)" "st (ext h1) = st (ext h)" by blast
  obtain u2 where d: "decide E ?s (ext h1) (?u\<lparr>Targets := ts\<rparr>) = (Ret None, None, u2)" "UpdateRunner u2 = Some r"
    using decide_for_resume [OF assms(3), of "?u\<lparr>Targets := ts\<rparr>" name states False "ext h1"] by auto
  have "check_targets E ?s ?u h = (Ret None, u2, h1)" using l(1) d(1)
    by (simp add: check_targets_def new_repo_def deferred_def resume_check_def)
  then have "Check_Execute E ?s u h = (Ret None, u2, h1)" using assms(4,5)
    by (auto simp: Check_Execute_def is_one_of_def Let_def resume_check_def)
  with l(2) d(2) show ?thesis by blast
qed

lemma flushes_fs: "fs (flushes E c n h) = fs h"
  by (induction n arbitrary: h)
    (auto simp: FlushEvents_def split: prod.splits sum.splits option.splits if_splits
      dest!: GetEvents_frame sendEvent_frame DeleteEvents_cases)

lemma before_state_fs: "fs (before_state E o' sched s u h) = fs h"
  by (simp add: before_state_def flushes_fs call_handler_def Let_def split: option.split)

lemma resume_check_inject:
  "resume_check a s t = resume_check a' s' t' \<longleftrightarrow> a = a' \<and> s = s' \<and> t = t'"
  by (auto simp: resume_check_def)

lemma resume_list:
  assumes "\<not> uo_EnableTUF opts"
    and "ss = install_states opts \<and> x \<in> {StateFetched, StateInstalling} \<and> y = StateInstalled
      \<or> ss = start_states opts \<and> x \<in> set installed_states \<and> y = StateCompleted"
  shows "\<exists>name states rest. ss = Checking (resume_check name states False) # rest
    \<and> x \<in> set states \<and> able rest x \<and> fold advance rest x = y"
  using assms by (auto simp: install_states_def start_states_def cycle_defs resume_check_inject)

text \<open>
  C3: \<open>Install\<close> and \<open>Start\<close> with an update that was interrupted in one of the states they accept. With a
  library that works, and a targets file that is absent or sound, the whole list of states succeeds,
  the check included, and the update is installed, or completed.
\<close>

theorem resume_completes:
  assumes "library_works E r st" and "separate E o' st" and "enough_space E r" and "names_target E r"
    and "under_way E r st" and "targets_file_ok E (Config u) h" and "\<not> uo_EnableTUF opts"
    and "ss = install_states opts \<and> st (ext h) \<in> {StateFetched, StateInstalling} \<and> goal_state = StateInstalled
      \<or> ss = start_states opts \<and> st (ext h) \<in> set installed_states \<and> goal_state = StateCompleted"
  shows "\<exists>u' h'. run_states E o' sched ss u h = (Ret None, u', h') \<and> st (ext h') = goal_state"
proof -
  from resume_list [OF assms(7,8)] obtain name states rest where ss: "ss = Checking (resume_check name states False) # rest"
    and x: "st (ext h) \<in> set states" "able rest (st (ext h))" "fold advance rest (st (ext h)) = goal_state" by blast
  let ?s = "Checking (resume_check name states False)"
  let ?u = "u\<lparr>CurrentState := action_name ?s\<rparr>" and ?h = "before_state E o' sched ?s u h"
  have b: "st (ext ?h) = st (ext h)" by (rule before_state_st [OF assms(2)])
  have 1: "targets_file_ok E (Config ?u) ?h" using assms(6) by (simp add: targets_file_ok_def before_state_fs)
  have 2: "u_State (x_Status E r (ext ?h)) \<in> set states" using x(1) b works_Status [OF assms(1)] by simp
  have "st (ext h) \<in> cycle" using assms(8) by (auto simp: cycle_defs)
  then have 3: "x_GetCurrentUpdate E (ext ?h) = Inr r" using assms(5) b by (simp add: under_way_def)
  from check_for_resume [OF assms(2) 1 assms(4) 3 2, where name = name] obtain u1 h1 where
    c: "Check_Execute E (resume_check name states False) ?u ?h = (Ret None, u1, h1)"
      "st (ext h1) = st (ext ?h)" "UpdateRunner u1 = Some r" by blast
  let ?h1 = "call_handler (ro_PostStateHandler o') (action_name ?s) u1 h1"
  have h1: "st (ext ?h1) = st (ext h)" using handler_st(2) [OF assms(2)] c(2) b by simp
  have "Runner.Execute E ?s ?u ?h = (Ret None, u1, h1)" using c(1) by simp
  then have "run_states E o' sched ss u h = run_states E o' sched rest (u1\<lparr>CurrentStateNum := CurrentStateNum u1 + 1\<rparr>) ?h1"
    unfolding ss run_states_Cons by simp
  with run_performs [OF assms(1-3), of rest ?h1 "u1\<lparr>CurrentStateNum := CurrentStateNum u1 + 1\<rparr>" sched] x c(3) h1
  show ?thesis by simp
qed

section \<open>Properties\<close>

text \<open>
  C6: what the states of an operation do after the check. With a library that works, and space, the run
  succeeds and brings the update to the operation's goal, from whatever state it was in: a new update
  from its creation, an interrupted one from where it stopped. \<open>Fetch\<close> reaches a fetched update, \<open>Install\<close>
  an installed one, \<open>Start\<close> and \<open>Update\<close> a completed one; steps that were done are not done again, for
  the library accepts each call in its own states only. The update ends in the state of the abstract
  life cycle.
\<close>

theorem resume_reaches_goal:
  assumes "library_works E r st" and "separate E o' st" and "enough_space E r"
    and "ss \<in> {tl (update_states v opts), tl (fetch_states v opts), tl (install_states opts), tl (start_states opts)}"
    and "(UpdateRunner u = Some r \<and> x = st (ext h) \<and> x \<in> cycle)
      \<or> (UpdateRunner u = None \<and> x = StateCreated
          \<and> (\<forall>w. \<exists>w'. x_NewUpdate E (tID (ToTarget u)) w = (Inr r, w') \<and> st w' = StateCreated))"
  shows "\<exists>u' h'. run_states E o' sched ss u h = (Ret None, u', h')
    \<and> st (ext h') = fold advance ss x \<and> st (ext h') \<in> goal ss"
proof -
  have x: "x \<in> cycle" using assms(5) by (auto simp: cycle_defs)
  from tail_able [OF assms(4) x] obtain rest where a: "able ss x" "fold advance ss x \<in> goal ss"
    "ss = Initializing False # rest" by blast
  from assms(5) show ?thesis
  proof (elim disjE conjE)
    assume "UpdateRunner u = Some r" "x = st (ext h)"
    with run_performs [OF assms(1-3), of ss h u sched] a show ?thesis by auto
  next
    assume "UpdateRunner u = None" "x = StateCreated"
      and "\<forall>w. \<exists>w'. x_NewUpdate E (tID (ToTarget u)) w = (Inr r, w') \<and> st w' = StateCreated"
    with run_performs_new [OF assms(1-3), where c = False and ss = rest and u = u and h = h and sched = sched] a show ?thesis by auto
  qed
qed

text \<open>The smallest library: the world is the state of one update.\<close>

definition small_library :: "upd_state env" where
  "small_library = (undefined :: upd_state env)
    \<lparr>x_Status := \<lambda>r w. (undefined :: update_rec)\<lparr>u_State := w\<rparr>, x_Init := \<lambda>r apps a b w. (None, StateInitialized),
     x_Fetch := \<lambda>r w. (None, StateFetched), x_StopApps := \<lambda>us w. (None, w), x_Install := \<lambda>r w. (None, StateInstalled),
     x_Start := \<lambda>r w. (None, StateStarted), x_Complete := \<lambda>r os w. (None, StateCompleted),
     x_GetUsageInfo := \<lambda>p n w. Inl (ErrorString ''unknown''), x_io := \<lambda>p w. (None, w),
     x_http := \<lambda>q w. (Inl (ErrorString ''offline''), w), x_uuid := \<lambda>w. (''id'', w)\<rparr>"

theorem resume_reaches_goal_witness:
  "\<exists>u' h'. run_states small_library (quiet_opts undefined) (\<lambda>n. 1) (tl (update_states 7 (zero_opts :: upd_state update_opts)))
      ((initial_ctx undefined undefined 6)\<lparr>UpdateRunner := Some 1\<rparr>)
      \<lparr>ext = StateInstalling, fs = Map.empty, report_events = Some [], installed_versions = None, reqs = []\<rparr> = (Ret None, u', h')
    \<and> ext h' = StateCompleted"
proof -
  let ?E = small_library and ?o = "quiet_opts undefined :: upd_state runner_opts"
  have "library_works ?E 1 (\<lambda>w. w)" by (simp add: library_works_def small_library_def)
  moreover have "separate ?E ?o (\<lambda>w. w)" by (simp add: separate_def small_library_def quiet_opts_def)
  moreover have "enough_space ?E 1"
    by (simp add: enough_space_def space_check_def getAndSetStorageUsageInfo_def small_library_def)
  ultimately have "\<exists>u' h'. run_states ?E ?o (\<lambda>n. 1) (tl (update_states 7 (zero_opts :: upd_state update_opts)))
      ((initial_ctx undefined undefined 6)\<lparr>UpdateRunner := Some 1\<rparr>)
      \<lparr>ext = StateInstalling, fs = Map.empty, report_events = Some [], installed_versions = None, reqs = []\<rparr> = (Ret None, u', h')
    \<and> ext h' = fold advance (tl (update_states 7 (zero_opts :: upd_state update_opts))) StateInstalling
    \<and> ext h' \<in> goal (tl (update_states 7 (zero_opts :: upd_state update_opts)))"
    by (rule resume_reaches_goal [where v = 7 and opts = "zero_opts :: upd_state update_opts"]) (simp_all add: cycle_defs)
  then show ?thesis by (auto simp: update_states_def goal_def)
qed

text \<open>The smallest library, asked about its update \<open>app-7\<close>.\<close>

definition asked_library :: "upd_state env" where
  "asked_library = small_library
    \<lparr>x_Status := \<lambda>r w. (undefined :: update_rec)\<lparr>u_State := w, u_ClientRef := ''app-7'', u_URIs := None\<rparr>,
     x_GetCurrentUpdate := \<lambda>w. Inr 1\<rparr>"

lemma asked_library_facts:
  "library_works asked_library 1 (\<lambda>w. w)"
  "separate asked_library (quiet_opts undefined :: upd_state runner_opts) (\<lambda>w. w)"
  "enough_space asked_library 1"
  "names_target asked_library 1"
  "under_way asked_library 1 (\<lambda>w. w)"
  by (simp_all add: library_works_def separate_def enough_space_def names_target_def under_way_def asked_library_def
      small_library_def quiet_opts_def space_check_def getAndSetStorageUsageInfo_def getTargetOutOfUpdate_def
      uri_list_def extractTargetVersion_def atoi_seven)

theorem resume_completes_witness:
  "\<exists>u' h'. run_states asked_library (quiet_opts undefined) (\<lambda>n. 1) (start_states (zero_opts :: upd_state update_opts))
      (initial_ctx undefined undefined 6)
      \<lparr>ext = StateStarting, fs = Map.empty, report_events = Some [], installed_versions = None, reqs = []\<rparr> = (Ret None, u', h')
    \<and> ext h' = StateCompleted"
proof -
  let ?E = asked_library and ?o = "quiet_opts undefined :: upd_state runner_opts"
  let ?h = "\<lparr>ext = StateStarting, fs = Map.empty, report_events = Some [], installed_versions = None, reqs = []\<rparr> :: upd_state host"
  have 6: "targets_file_ok ?E (Config (initial_ctx undefined undefined 6)) ?h"
    by (simp add: targets_file_ok_def asked_library_def small_library_def)
  from resume_completes [OF asked_library_facts 6, where opts = "zero_opts :: upd_state update_opts"
      and ss = "start_states (zero_opts :: upd_state update_opts)" and goal_state = StateCompleted and sched = "\<lambda>n. 1"]
  show ?thesis by (simp add: zero_opts_def installed_states_def)
qed

end
