(* ===== verification/Recovery.thy ===== *)
theory Recovery
  imports LifeCycle
begin

text \<open>
  Runs in a world in which everything may fail: the network, the files, the library, the process itself,
  which may be killed between two states. A failing call of the library may leave the update anywhere
  between the state it was in and the one it was to reach. The program makes these calls in the states
  they are meant for only, so that no attempt loses what was achieved, and a later one can finish.
\<close>

section \<open>The order of the states\<close>

fun upd_rank :: "upd_state \<Rightarrow> nat" where
  "upd_rank StateCreated = 0"
| "upd_rank StateInitializing = 1"
| "upd_rank StateInitialized = 2"
| "upd_rank StateFetching = 3"
| "upd_rank StateFetched = 4"
| "upd_rank StateInstalling = 5"
| "upd_rank StateInstalled = 6"
| "upd_rank StateStarting = 7"
| "upd_rank StateStarted = 8"
| "upd_rank StateCompleting = 9"
| "upd_rank StateCompleted = 10"
| "upd_rank StateCanceled = 11"
| "upd_rank StateFailed = 12"

lemma upd_rank_eq: "upd_rank x = upd_rank y \<Longrightarrow> x = y"
  by (cases x; cases y) simp_all

instantiation upd_state :: linorder
begin

definition less_eq_upd_state :: "upd_state \<Rightarrow> upd_state \<Rightarrow> bool" where
  "less_eq_upd_state x y \<longleftrightarrow> upd_rank x \<le> upd_rank y"

definition less_upd_state :: "upd_state \<Rightarrow> upd_state \<Rightarrow> bool" where
  "less_upd_state x y \<longleftrightarrow> upd_rank x < upd_rank y"

instance
  by standard (auto simp: less_eq_upd_state_def less_upd_state_def intro: upd_rank_eq)

end

lemmas order_defs = less_eq_upd_state_def less_upd_state_def

text \<open>The sets of states of the life cycle are intervals.\<close>

lemma intervals:
  "x \<in> cycle \<longleftrightarrow> x < StateCompleted"
  "x \<in> begun \<longleftrightarrow> x \<le> StateInitializing"
  "x \<in> fetched \<longleftrightarrow> StateFetched \<le> x \<and> x < StateCompleted"
  "x \<in> set installed_states \<longleftrightarrow> StateInstalled \<le> x \<and> x < StateCompleted"
  by (cases x; simp add: cycle_defs order_defs)+

section \<open>A library that may fail\<close>

text \<open>
  A call that is to bring the update to the state \<open>t\<close> does so when it succeeds; when it fails the update is
  not behind where it was, and before \<open>t\<close>. Nothing is said of calls in other states: to initialize an
  update that is fetched, say, may destroy it.
\<close>

definition moved :: "('w \<Rightarrow> upd_state) \<Rightarrow> 'w \<Rightarrow> goerr option \<times> 'w \<Rightarrow> upd_state \<Rightarrow> bool" where
  "moved st w res t \<longleftrightarrow>
     st w \<le> st (snd res) \<and> (if fst res = None then st (snd res) = t else st (snd res) < t)"

definition library_careful :: "'w env \<Rightarrow> runner \<Rightarrow> ('w \<Rightarrow> upd_state) \<Rightarrow> bool" where
  "library_careful E r st \<longleftrightarrow>
     (\<forall>w. u_State (x_Status E r w) = st w)
   \<and> (\<forall>w apps c. st w \<in> begun \<longrightarrow> moved st w (x_Init E r apps True c w) StateInitialized)
   \<and> (\<forall>w. st w \<in> {StateInitialized, StateFetching} \<longrightarrow> moved st w (x_Fetch E r w) StateFetched)
   \<and> (\<forall>w uris. st (snd (x_StopApps E uris w)) = st w)
   \<and> (\<forall>w. st w \<in> {StateFetched, StateInstalling} \<longrightarrow> moved st w (x_Install E r w) StateInstalled)
   \<and> (\<forall>w. st w \<in> {StateInstalled, StateStarting} \<longrightarrow> moved st w (x_Start E r w) StateStarted)
   \<and> (\<forall>w os. st w \<in> {StateStarted, StateCompleting} \<longrightarrow> moved st w (x_Complete E r os w) StateCompleted)"

text \<open>Making an identifier and writing a file do not touch the update.\<close>

definition untouched :: "'w env \<Rightarrow> ('w \<Rightarrow> upd_state) \<Rightarrow> bool" where
  "untouched E st \<longleftrightarrow> (\<forall>w. st (snd (x_ulid E w)) = st w) \<and> (\<forall>p c w. st (snd (x_write E p c w)) = st w)"

lemma careful:
  assumes "library_careful E r st"
  shows careful_Status: "u_State (x_Status E r w) = st w"
    and careful_Init: "x_Init E r apps True c w = (e, w') \<Longrightarrow> st w \<in> begun \<Longrightarrow> moved st w (e, w') StateInitialized"
    and careful_Fetch: "x_Fetch E r w = (e, w') \<Longrightarrow> st w \<in> {StateInitialized, StateFetching} \<Longrightarrow> moved st w (e, w') StateFetched"
    and careful_Stop: "x_StopApps E uris w = (e, w') \<Longrightarrow> st w' = st w"
    and careful_Install: "x_Install E r w = (e, w') \<Longrightarrow> st w \<in> {StateFetched, StateInstalling} \<Longrightarrow> moved st w (e, w') StateInstalled"
    and careful_Start: "x_Start E r w = (e, w') \<Longrightarrow> st w \<in> {StateInstalled, StateStarting} \<Longrightarrow> moved st w (e, w') StateStarted"
    and careful_Complete: "x_Complete E r os w = (e, w') \<Longrightarrow> st w \<in> {StateStarted, StateCompleting} \<Longrightarrow> moved st w (e, w') StateCompleted"
  using assms unfolding library_careful_def by (metis snd_conv)+

section \<open>No state loses what was achieved\<close>

text \<open>What an action leaves: the update is not behind; it is completed only by a successful start.\<close>

definition kept :: "('w \<Rightarrow> upd_state) \<Rightarrow> 'w host \<Rightarrow> goerr option outcome \<Rightarrow> 'w host \<Rightarrow> bool" where
  "kept st h out h' \<longleftrightarrow> st (ext h) \<le> st (ext h') \<and> st (ext h') \<le> StateCompleted
     \<and> (st (ext h') = StateCompleted \<longrightarrow> out = Ret None)"

lemma Init_kept:
  assumes "library_careful E r st" and "separate E o' st" and "st (ext h) \<in> cycle" and "UpdateRunner u = Some r"
    and "Init_Execute E c u h = (out, u', h')"
  shows "kept st h out h' \<and> st (ext h') \<in> cycle \<and> UpdateRunner u' = Some r"
proof (cases "st (ext h) \<in> begun")
  case True
  let ?apps = "if st (ext h) = StateCreated then AppURIs (ToTarget u) else []"
  obtain e w where i: "x_Init E r ?apps True c (ext (SendEvent E r UpdateInitStarted None u h)) = (e, w)" by fastforce
  have "moved st (ext (SendEvent E r UpdateInitStarted None u h)) (e, w) StateInitialized"
    by (rule careful_Init [OF assms(1) i]) (simp add: SendEvent_st [OF assms(2)] True)
  then have m: "st (ext h) \<le> st w" "st w \<le> StateInitialized"
    by (auto simp: moved_def SendEvent_st [OF assms(2)] split: if_splits)
  have "st (ext h') = st w \<and> UpdateRunner u' = Some r"
    using assms(4,5) True i
    by (auto simp: Init_Execute_def with_new_runner_def careful_Status [OF assms(1)] begun_def Let_def
        SendEvent_st [OF assms(2)])
  with m show ?thesis by (auto simp: kept_def intervals order_defs)
next
  case False
  then have "h' = h \<and> UpdateRunner u' = Some r" using assms(4,5)
    by (auto simp: Init_Execute_def with_new_runner_def careful_Status [OF assms(1)] begun_def Let_def)
  with assms(3) show ?thesis by (auto simp: kept_def intervals)
qed

lemma Fetch_kept:
  assumes "library_careful E r st" and "separate E o' st" and "st (ext h) \<in> cycle" and "UpdateRunner u = Some r"
    and "Fetch_Execute E u h = (out, u', h')"
  shows "kept st h out h' \<and> st (ext h') \<in> cycle \<and> UpdateRunner u' = Some r"
proof (cases "st (ext h) \<in> {StateInitialized, StateFetching}")
  case True
  obtain o1 u1 where sp: "space_check E r (ext h) u = (o1, u1)" by fastforce
  note r1 = space_check_runner [OF sp]
  let ?h = "SendEvent E r DownloadStarted None u1 h"
  obtain e w where f: "x_Fetch E r (ext ?h) = (e, w)" by fastforce
  obtain e2 u2 where g: "getAndSetStorageUsageInfo E w u1 = (e2, u2)" by fastforce
  note r2 = storage_runner [OF g]
  have "moved st (ext ?h) (e, w) StateFetched"
    by (rule careful_Fetch [OF assms(1) f]) (use True in \<open>simp add: SendEvent_st [OF assms(2)]\<close>)
  then have m: "st (ext h) \<le> st w" "st w \<le> StateFetched"
    by (auto simp: moved_def SendEvent_st [OF assms(2)] split: if_splits)
  have not_early: "\<not> (st (ext h) = StateCreated \<or> st (ext h) = StateInitializing)" using True by auto
  have "(st (ext h') = st w \<or> st (ext h') = st (ext h)) \<and> UpdateRunner u' = Some r"
  proof (cases "o1 = Ret None")
    case ok: True
    have "Fetch_Execute E u h = (Ret (map_option (errorf2 ErrFetchFailed) e), u2,
        SendEvent E r DownloadCompleted (Some (map_option (errorf2 ErrFetchFailed) e)) u2 ((?h)\<lparr>ext := w\<rparr>))"
      using assms(4) True not_early sp ok f g by (auto simp: Fetch_Execute_def careful_Status [OF assms(1)])
    with assms(4,5) r1 r2 show ?thesis by (auto simp: SendEvent_st [OF assms(2)])
  next
    case False
    then have "UpdateRunner u' = Some r \<and> (h' = h \<or> (\<exists>x. h' = SendEvent E r DownloadCompleted x u1 ?h))"
      using assms(4,5) True not_early sp r1
      by (cases o1) (auto simp: Fetch_Execute_def careful_Status [OF assms(1)] Let_def)
    then show ?thesis by (auto simp: SendEvent_st [OF assms(2)])
  qed
  with m assms(3) show ?thesis by (auto simp: kept_def intervals order_defs)
next
  case False
  then have "h' = h \<and> UpdateRunner u' = Some r" using assms(4,5)
    by (auto simp: Fetch_Execute_def careful_Status [OF assms(1)] Let_def split: if_splits)
  with assms(3) show ?thesis by (auto simp: kept_def intervals)
qed

lemma Stop_kept:
  assumes "library_careful E r st" and "separate E o' st" and "st (ext h) \<in> cycle" and "UpdateRunner u = Some r"
    and "Stop_Execute E u h = (out, u', h')"
  shows "kept st h out h' \<and> st (ext h') \<in> cycle \<and> UpdateRunner u' = Some r \<and> (out = Ret None \<longrightarrow> st (ext h') \<in> fetched)"
proof (cases "st (ext h) \<in> {StateFetched, StateInstalling}")
  case True
  then have other: "st (ext h) \<notin> set installed_states" by (auto simp: installed_states_def)
  let ?h = "SendEvent E r InstallationStarted None u h"
  obtain e w where x: "x_StopApps E (URIs (apps_to_stop u)) (ext ?h) = (e, w)" by fastforce
  have w: "st w = st (ext h)" using careful_Stop [OF assms(1) x] by (simp add: SendEvent_st [OF assms(2)])
  have "st (ext h') = st (ext h) \<and> UpdateRunner u' = Some r"
    using assms(4,5) True other x w
    by (auto simp: Stop_Execute_def careful_Status [OF assms(1)] is_one_of_def Let_def SendEvent_st [OF assms(2)]
        split: if_splits option.splits)
  with True assms(3) show ?thesis by (auto simp: kept_def fetched_def intervals(1))
next
  case False
  then have "h' = h \<and> UpdateRunner u' = Some r \<and> (out = Ret None \<longrightarrow> st (ext h) \<in> set installed_states)" using assms(4,5)
    by (auto simp: Stop_Execute_def careful_Status [OF assms(1)] is_one_of_def Let_def split: if_splits)
  with assms(3) show ?thesis by (auto simp: kept_def intervals(1) fetched_def)
qed

lemma Install_kept:
  assumes "library_careful E r st" and "separate E o' st" and "st (ext h) \<in> fetched" and "UpdateRunner u = Some r"
    and "Install_Execute E u h = (out, u', h')"
  shows "kept st h out h' \<and> st (ext h') \<in> cycle \<and> UpdateRunner u' = Some r \<and> (out = Ret None \<longrightarrow> st (ext h') \<in> set installed_states)"
proof (cases "st (ext h) \<in> set installed_states")
  case True
  then have "h' = h \<and> u' = u" using assms(4,5)
    by (auto simp: Install_Execute_def careful_Status [OF assms(1)] is_one_of_def)
  with True assms(4) show ?thesis by (auto simp: kept_def intervals)
next
  case False
  then have x: "st (ext h) \<in> {StateFetched, StateInstalling}" using assms(3) by (auto simp: fetched_def)
  obtain e w where i: "x_Install E r (ext h) = (e, w)" by fastforce
  note m = careful_Install [OF assms(1) i x]
  have "st (ext h') = st w \<and> UpdateRunner u' = Some r \<and> (out = Ret None \<longrightarrow> e = None)"
    using assms(4,5) False i
    by (cases e) (auto simp: Install_Execute_def careful_Status [OF assms(1)] is_one_of_def Let_def SendEvent_st [OF assms(2)])
  with m show ?thesis by (auto simp: kept_def moved_def intervals order_defs split: if_splits)
qed

lemma complete_kept:
  assumes "library_careful E r st" and "st w \<in> {StateStarted, StateCompleting}"
  shows "st w \<le> st (completeUpdate E r u w) \<and> st (completeUpdate E r u w) \<le> StateCompleted"
proof -
  have step: "st w1 \<le> st w2 \<and> (if e = None then st w2 = StateCompleted else st w2 \<in> {StateStarted, StateCompleting})"
    if "x_Complete E r os w1 = (e, w2)" "st w1 \<in> {StateStarted, StateCompleting}" for os e w1 w2
  proof -
    have "moved st w1 (e, w2) StateCompleted" by (rule careful_Complete [OF assms(1) that])
    then show ?thesis using that(2) by (cases "st w2") (auto simp: moved_def order_defs split: if_splits)
  qed
  let ?p = "[CompleteWithPruning (prune_mode u)]"
  obtain e1 w1 where 1: "x_Complete E r ?p w = (e1, w1)" by fastforce
  obtain e2 w2 where 2: "x_Complete E r ?p w1 = (e2, w2)" by fastforce
  obtain e3 w3 where 3: "x_Complete E r [] w2 = (e3, w3)" by fastforce
  obtain e4 w4 where 4: "x_Complete E r [CompleteWithForce] w3 = (e4, w4)" by fastforce
  note steps = step [OF 1 assms(2)] step [OF 2] step [OF 3] step [OF 4]
  show ?thesis using steps 1 2 3 4
    by (auto simp: completeUpdate_def order_defs split: option.splits if_splits)
qed

lemma Start_kept:
  assumes "library_careful E r st" and "separate E o' st" and "st (ext h) \<in> cycle" and "UpdateRunner u = Some r"
    and "Start_Execute E u h = (out, u', h')"
  shows "kept st h out h' \<and> UpdateRunner u' = Some r"
proof (cases "st (ext h) \<in> set installed_states")
  case False
  then have "h' = h \<and> u' = u" using assms(4,5)
    by (auto simp: Start_Execute_def careful_Status [OF assms(1)] is_one_of_def)
  with assms(3,4) show ?thesis by (auto simp: kept_def intervals)
next
  case True
  obtain e h1 where s: "(if is_one_of (st (ext h)) [StateInstalled, StateStarting]
      then let (e, w) = x_Start E r (ext h) in (e, h\<lparr>ext := w\<rparr>) else (None, h)) = (e, h1)" by fastforce
  have h1: "st (ext h) \<le> st (ext h1)
    \<and> (if e = None then st (ext h1) \<in> {StateStarted, StateCompleting} else st (ext h1) < StateStarted)"
  proof (cases "st (ext h) \<in> {StateInstalled, StateStarting}")
    case early: True
    obtain e' w where x: "x_Start E r (ext h) = (e', w)" by fastforce
    from s x early careful_Start [OF assms(1) x early] show ?thesis
      by (auto simp: is_one_of_def moved_def split: if_splits)
  next
    case False
    with s True show ?thesis by (auto simp: is_one_of_def installed_states_def)
  qed
  have "UpdateRunner u' = Some r \<and> (if e = None then out = Ret None \<and> st (ext h') = st (completeUpdate E r u (ext h1))
      else st (ext h') = st (ext h1))"
    using assms(4,5) True s
    by (auto simp: Start_Execute_def careful_Status [OF assms(1)] is_one_of_def Let_def SendEvent_st [OF assms(2)]
        dest!: storage_runner split: prod.splits option.splits if_splits)
  with h1 complete_kept [OF assms(1), of "ext h1" u] show ?thesis
    by (auto simp: kept_def order_defs split: if_splits)
qed

section \<open>The check keeps off the update\<close>

lemma write_file_st: "write_file E p c h = (e, h') \<Longrightarrow> untouched E st \<Longrightarrow> st (ext h') = st (ext h)"
  by (auto simp: write_file_def untouched_def split: prod.splits option.splits) (metis snd_conv)+

lemma LoadTargets_st:
  assumes "LoadTargets E c update (PlainRepo r) h = (res, r', h')" and "separate E o' st" and "untouched E st"
  shows "st (ext h') = st (ext h) \<and> (\<exists>r. r' = PlainRepo r)"
  using assms(1)
  by (auto simp: plain_LoadTargets_def plain_update_def plain_readTargets_def Get_def Let_def
      split: prod.splits sum.splits option.splits if_splits
      dest!: http_st [OF _ assms(2)] read_file_st [OF _ assms(2)] write_file_st [OF _ assms(3)])

lemma load_targets_st:
  assumes "load_targets E s c (PlainRepo r) h = (x, ts, cur, new, h')" and "separate E o' st" and "untouched E st"
  shows "st (ext h') = st (ext h)"
proof -
  obtain res r1 h1 where 1: "LoadTargets E c False (PlainRepo r) h = (res, PlainRepo r1, h1)" "st (ext h1) = st (ext h)"
    using LoadTargets_st [OF _ assms(2,3)] by (metis prod_cases3)
  obtain res2 r2 h2 where 2: "LoadTargets E c True (PlainRepo r1) h1 = (res2, r2, h2)" "st (ext h2) = st (ext h1)"
    using LoadTargets_st [OF _ assms(2,3)] by (metis prod_cases3)
  have "h' = h1 \<or> h' = h2" using assms(1) unfolding load_targets_def Let_def 1(1)
    by (auto simp: 2(1) simp del: LoadTargets.simps split: sum.splits option.splits if_splits)
  with 1 2 show ?thesis by auto
qed

lemma deferred_st: "separate E o' st \<Longrightarrow> untouched E st \<Longrightarrow> st (ext (deferred E cur new e u h)) = st (ext h)"
proof -
  assume a: "separate E o' st" "untouched E st"
  have "st (ext (snd (EnqueueEvent E t i tgt opts (h\<lparr>ext := w\<rparr>)))) = st w" for t i tgt opts w
    using EnqueueEvent_st [OF surjective_pairing a(1), of t i tgt opts "h\<lparr>ext := w\<rparr>"] by simp
  moreover have "st w = st (ext h)" if "x_ulid E (ext h) = (x, w)" for x w
    using a(2) that unfolding untouched_def by (metis snd_conv)
  ultimately show ?thesis
    by (auto simp: deferred_def sendMetadataUpdateCompletedEvent_def split: prod.splits sum.splits)
qed

lemma decide_runner: "decide E s w u = (out, err, u') \<Longrightarrow> UpdateRunner u' = UpdateRunner u"
  by (auto simp: decide_def Let_def split: prod.splits outcome.splits option.splits if_splits
      dest!: getAndSetCurrentTarget_sel selectToTarget_sel isUpdateRequired_sel)

lemma check_targets_kept:
  assumes "check_targets E s u h = (out, u', h')" and "separate E o' st" and "untouched E st" and "\<not> EnableTUF s"
  shows "st (ext h') = st (ext h) \<and> UpdateRunner u' = UpdateRunner u"
proof -
  obtain repo where r: "new_repo E s u (ext h) = Inr (PlainRepo repo)" using assms(4) by (simp add: new_repo_def)
  obtain early err ts cur new h1 where l: "load_targets E s (Client u) (PlainRepo repo) h = ((early, err), ts, cur, new, h1)"
    by (metis prod_cases5 prod.collapse)
  obtain o1 e1 u1 where d: "decide E s (ext h1) (u\<lparr>Targets := ts\<rparr>) = (o1, e1, u1)" by (metis prod_cases3)
  have "(h' = deferred E cur new err u h1 \<and> u' = u) \<or> (h' = deferred E cur new e1 u1 h1 \<and> u' = u1)"
    using assms(1) r l d by (auto simp: check_targets_def split: option.splits)
  with load_targets_st [OF l assms(2,3)] deferred_st [OF assms(2,3)] decide_runner [OF d] show ?thesis by auto
qed

lemma Check_kept:
  assumes "Check_Execute E s u h = (out, u', h')" and "separate E o' st" and "untouched E st" and "\<not> EnableTUF s"
    and "x_GetCurrentUpdate E (ext h) = Inr r"
  shows "st (ext h') = st (ext h) \<and> UpdateRunner u' = Some r"
  using assms(1,5)
  by (auto simp: Check_Execute_def Let_def split: if_splits dest!: check_targets_kept [OF _ assms(2-4)])

section \<open>Runs that may be cut off\<close>

text \<open>Installing comes right after Stopping, Starting comes last, and the check comes first.\<close>

fun guarded :: "bool \<Rightarrow> action list \<Rightarrow> bool" where
  "guarded p [] = True"
| "guarded p (s # ss) = ((s = Installing \<longrightarrow> p) \<and> (s = Starting \<longrightarrow> ss = [])
     \<and> (\<forall>c. s = Checking c \<longrightarrow> \<not> EnableTUF c) \<and> guarded (s = Stopping) ss)"

lemma guarded_take: "guarded p ss \<Longrightarrow> guarded p (take n ss)"
  by (induction ss arbitrary: p n) (auto simp: take_Cons')

lemma guarded_ops:
  "\<not> uo_EnableTUF opts \<Longrightarrow> ss \<in> {update_states v opts, fetch_states v opts, install_states opts, start_states opts} \<Longrightarrow> guarded p ss"
  by (auto simp: update_states_def fetch_states_def install_states_def start_states_def resume_check_def)

lemma Execute_kept:
  assumes "library_careful E r st" and "separate E o' st" and "under_way E r st" and "untouched E st"
    and "st (ext h) \<in> cycle" and "s = Installing \<longrightarrow> st (ext h) \<in> fetched"
    and "\<forall>c. s = Checking c \<longrightarrow> \<not> EnableTUF c"
    and "(\<exists>c. s = Checking c) \<or> UpdateRunner u = Some r" and "Execute E s u h = (out, u', h')"
  shows "kept st h out h' \<and> UpdateRunner u' = Some r \<and> (s \<noteq> Starting \<longrightarrow> st (ext h') \<in> cycle)
    \<and> (s = Stopping \<and> out = Ret None \<longrightarrow> st (ext h') \<in> fetched)"
proof (cases s)
  case (Checking c)
  have "x_GetCurrentUpdate E (ext h) = Inr r" using assms(3,5) by (simp add: under_way_def)
  with Check_kept [OF _ assms(2,4), of c u h out u' h' r] assms(5,7,9) Checking show ?thesis
    by (auto simp: kept_def intervals(1))
next
  case (Initializing c)
  with Init_kept [OF assms(1,2,5), of u c out u' h'] assms(8,9) show ?thesis by simp
next
  case Fetching
  with Fetch_kept [OF assms(1,2,5), of u out u' h'] assms(8,9) show ?thesis by simp
next
  case Stopping
  with Stop_kept [OF assms(1,2,5), of u out u' h'] assms(8,9) show ?thesis by simp
next
  case Installing
  with Install_kept [OF assms(1,2), of h u out u' h'] assms(6,8,9) show ?thesis by simp
next
  case Starting
  with Start_kept [OF assms(1,2,5), of u out u' h'] assms(8,9) show ?thesis by simp
qed

lemma run_kept:
  assumes "library_careful E r st" and "separate E o' st" and "under_way E r st" and "untouched E st"
    and "guarded p ss" and "p \<longrightarrow> st (ext h) \<in> fetched" and "st (ext h) \<in> cycle"
    and "(\<exists>c rest. ss = Checking c # rest) \<or> UpdateRunner u = Some r \<or> ss = []"
    and "run_states E o' sched ss u h = (out, u', h')"
  shows "kept st h out h'"
  using assms(5-9)
proof (induction ss arbitrary: p u h)
  case Nil
  then show ?case by (auto simp: kept_def intervals(1))
next
  case (Cons s ss)
  let ?u = "u\<lparr>CurrentState := action_name s\<rparr>" and ?h = "before_state E o' sched s u h"
  have b: "st (ext ?h) = st (ext h)" by (rule before_state_st [OF assms(2)])
  obtain o1 u1 h1 where e: "Execute E s ?u ?h = (o1, u1, h1)" by (metis prod_cases3)
  have k: "kept st ?h o1 h1 \<and> UpdateRunner u1 = Some r \<and> (s \<noteq> Starting \<longrightarrow> st (ext h1) \<in> cycle)
    \<and> (s = Stopping \<and> o1 = Ret None \<longrightarrow> st (ext h1) \<in> fetched)"
    by (rule Execute_kept [OF assms(1-4) _ _ _ _ e]) (use Cons.prems b in auto)
  show ?case
  proof (cases "o1 = Ret None")
    case False
    then have "h' = h1 \<and> out \<noteq> Ret None" using Cons.prems(5) e
      by (auto simp: run_states_Cons split: outcome.splits option.splits)
    with k b False show ?thesis by (auto simp: kept_def)
  next
    case True
    let ?h1 = "call_handler (ro_PostStateHandler o') (action_name s) u1 h1"
    let ?u1 = "u1\<lparr>CurrentStateNum := CurrentStateNum u1 + 1\<rparr>"
    have h1: "st (ext ?h1) = st (ext h1)" by (rule handler_st(2) [OF assms(2)])
    have r: "run_states E o' sched ss ?u1 ?h1 = (out, u', h')" using Cons.prems(5) e True by (simp add: run_states_Cons)
    show ?thesis
    proof (cases "s = Starting")
      case True
      with Cons.prems(1) r h1 k b \<open>o1 = Ret None\<close> show ?thesis by (auto simp: kept_def)
    next
      case False
      have "kept st ?h1 out h'"
        by (rule Cons.IH [OF _ _ _ _ r, of "s = Stopping"]) (use Cons.prems(1) k h1 True False in auto)
      with k h1 b show ?thesis by (auto simp: kept_def intro: order_trans)
    qed
  qed
qed

section \<open>Files stay as they are\<close>

text \<open>Without an update of the targets, a run does not write a file.\<close>

lemma read_file_fs: "read_file E p h = (r, h') \<Longrightarrow> fs h' = fs h"
  by (auto simp: read_file_def io_def split: prod.splits option.splits)

lemma check_targets_fs:
  assumes "check_targets E s u h = (out, u', h')" and "\<not> UpdateTargets s" and "\<not> EnableTUF s"
  shows "fs h' = fs h"
proof -
  obtain repo where r: "new_repo E s u (ext h) = Inr (PlainRepo repo)" using assms(3) by (simp add: new_repo_def)
  obtain early err ts cur new h1 where l: "load_targets E s (Client u) (PlainRepo repo) h = ((early, err), ts, cur, new, h1)"
    by (metis prod_cases5 prod.collapse)
  then have 1: "fs h1 = fs h" using assms(2)
    by (auto simp: load_targets_def plain_LoadTargets_def plain_readTargets_def Let_def
        split: prod.splits sum.splits option.splits if_splits dest!: read_file_fs)
  have enqueue: "fs (snd (EnqueueEvent E t i tgt opts x)) = fs x" for t i tgt opts x
    using EnqueueEvent_sends [OF surjective_pairing, where E = E and t = t and i = i and tgt = tgt and opts = opts and h = x] by blast
  have d: "fs (deferred E c n e v h1) = fs h1" for c n e v
    by (auto simp: deferred_def sendMetadataUpdateCompletedEvent_def enqueue split: prod.splits sum.splits)
  obtain o1 e1 u1 where "decide E s (ext h1) (u\<lparr>Targets := ts\<rparr>) = (o1, e1, u1)" by (metis prod_cases3)
  with assms(1) r l 1 d show ?thesis by (auto simp: check_targets_def split: option.splits)
qed

fun reads_only :: "action \<Rightarrow> bool" where
  "reads_only (Checking c) = (\<not> UpdateTargets c \<and> \<not> EnableTUF c)"
| "reads_only _ = True"

lemma Execute_fs:
  assumes "Execute E s u h = (out, u', h')" and "reads_only s"
  shows "fs h' = fs h"
proof (cases s)
  case (Checking c)
  with assms show ?thesis by (auto simp: Check_Execute_def Let_def split: sum.splits if_splits dest!: check_targets_fs)
next
  case (Initializing c)
  with assms show ?thesis
    by (auto simp: Init_Execute_def Let_def SendEvent_in_order(2) split: prod.splits option.splits if_splits dest!: with_new_runner_same)
next
  case Fetching
  with assms show ?thesis
    by (auto simp: Fetch_Execute_def Let_def SendEvent_in_order(2) split: prod.splits option.splits outcome.splits if_splits)
next
  case Stopping
  with assms show ?thesis
    by (auto simp: Stop_Execute_def Let_def SendEvent_in_order(2) split: prod.splits option.splits if_splits)
next
  case Installing
  with assms show ?thesis
    by (auto simp: Install_Execute_def Let_def SendEvent_in_order(2) split: prod.splits option.splits if_splits)
next
  case Starting
  with assms show ?thesis
    by (auto simp: Start_Execute_def Let_def SendEvent_in_order(2) split: prod.splits option.splits if_splits)
qed

lemma run_fs:
  "run_states E o' sched ss u h = (out, u', h') \<Longrightarrow> list_all reads_only ss \<Longrightarrow> fs h' = fs h"
proof (induction ss arbitrary: u h)
  case (Cons s ss)
  obtain o1 u1 h1 where e: "Execute E s (u\<lparr>CurrentState := action_name s\<rparr>) (before_state E o' sched s u h) = (o1, u1, h1)"
    by (metis prod_cases3)
  have 1: "fs h1 = fs h" using Execute_fs [OF e] Cons.prems(2) by (simp add: before_state_fs)
  have c: "fs (call_handler f n v h1) = fs h1" for f n v by (simp add: call_handler_def split: option.split)
  from Cons.prems e 1 c Cons.IH show ?case
    by (auto simp: run_states_Cons split: outcome.splits option.splits)
qed simp

section \<open>Attempts\<close>

text \<open>
  From one host to another by attempts that did not complete the update. Each is in a world of its own,
  and cut off after some number of states; between them the world may change but for the update.
\<close>

definition may_fail :: "'w env \<Rightarrow> 'w runner_opts \<Rightarrow> runner \<Rightarrow> ('w \<Rightarrow> upd_state) \<Rightarrow> bool" where
  "may_fail E o' r st \<longleftrightarrow> library_careful E r st \<and> separate E o' st \<and> under_way E r st \<and> untouched E st"

inductive retried :: "runner \<Rightarrow> ('w \<Rightarrow> upd_state) \<Rightarrow> 'w host \<Rightarrow> 'w host \<Rightarrow> bool" for r st where
  Begin: "retried r st h h"
| Attempt: "retried r st h h1 \<Longrightarrow> may_fail E o' r st \<Longrightarrow> \<not> uo_EnableTUF (opts :: 'w update_opts)
    \<Longrightarrow> ss \<in> {fetch_states v opts, install_states opts, start_states opts}
    \<Longrightarrow> run_states E o' sched (take n ss) u h1 = (out, u', h2) \<Longrightarrow> st (ext h2) \<noteq> StateCompleted
    \<Longrightarrow> retried r st h h2"
| World: "retried r st h h1 \<Longrightarrow> st w = st (ext h1) \<Longrightarrow> retried r st h (h1\<lparr>ext := w\<rparr>)"

lemma ops_kept:
  assumes "may_fail E o' r st" and "\<not> uo_EnableTUF opts"
    and "ss \<in> {update_states v opts, fetch_states v opts, install_states opts, start_states opts}"
    and "st (ext h) \<in> cycle" and "run_states E o' sched (take n ss) u h = (out, u', h')"
  shows "kept st h out h'"
proof -
  have c: "(\<exists>c rest. take n ss = Checking c # rest) \<or> UpdateRunner u = Some r \<or> take n ss = []" using assms(3)
    by (cases n) (auto simp: update_states_def fetch_states_def install_states_def start_states_def)
  show ?thesis
    using run_kept [where st = st and p = False, OF _ _ _ _ guarded_take [OF guarded_ops [OF assms(2,3)]] _ assms(4) c assms(5)] assms(1)
    by (simp add: may_fail_def)
qed

lemma ops_read_only:
  "\<not> uo_EnableTUF opts \<Longrightarrow> ss \<in> {fetch_states v opts, install_states opts, start_states opts} \<Longrightarrow> list_all reads_only (take n ss)"
  by (auto simp: fetch_states_def install_states_def start_states_def resume_check_def list_all_iff dest!: in_set_takeD)

lemma retried_keeps:
  assumes "retried r st h0 h" and "st (ext h0) \<in> set installed_states"
  shows "st (ext h) \<in> set installed_states \<and> fs h = fs h0"
  using assms
proof (induction rule: retried.induct)
  case (Attempt h h1 E o' opts ss v sched n u out u' h2)
  then have "st (ext h1) \<in> cycle" by (simp add: intervals)
  with Attempt have "kept st h1 out h2" by (intro ops_kept [where v = v]) auto
  moreover have "fs h2 = fs h1" using run_fs [OF Attempt.hyps(5) ops_read_only [OF Attempt.hyps(3,4)]] .
  ultimately show ?case using Attempt by (auto simp: kept_def intervals(4))
qed simp_all

section \<open>Properties\<close>


text \<open>A library whose start fails.\<close>

definition flaky_library :: "upd_state env" where
  "flaky_library = asked_library
    \<lparr>x_Start := \<lambda>r w. (Some (ErrorString ''no memory''), StateStarting),
     x_ulid := \<lambda>w. (Inl (ErrorString ''no entropy''), w), x_write := \<lambda>p c w. (None, w)\<rparr>"

lemma flaky_may_fail: "may_fail flaky_library (quiet_opts undefined) 1 (\<lambda>w. w)"
proof -
  have "library_careful flaky_library 1 (\<lambda>w. w)"
    by (auto simp: library_careful_def moved_def flaky_library_def asked_library_def small_library_def intervals order_defs)
  moreover have "separate flaky_library (quiet_opts undefined) (\<lambda>w. w)"
    by (simp add: separate_def flaky_library_def asked_library_def small_library_def quiet_opts_def)
  moreover have "under_way flaky_library 1 (\<lambda>w. w)" by (simp add: under_way_def flaky_library_def asked_library_def)
  moreover have "untouched flaky_library (\<lambda>w. w)" by (simp add: untouched_def flaky_library_def)
  ultimately show ?thesis by (simp add: may_fail_def)
qed

definition started_host :: "upd_state host" where
  "started_host = \<lparr>ext = StateStarting, fs = Map.empty, report_events = Some [], installed_versions = None, reqs = []\<rparr>"




end
