(* ===== verification/EndToEnd.thy ===== *)
theory EndToEnd
  imports Program Recovery
begin

text \<open>
  From the command line to the completed update: the process \<open>fioup start\<close> as a whole, through the
  configuration, the lock, the gateway client, the database, the reports to the gateway and the states.
  Only what must work is assumed to: the gateway may be out of reach and reports may fail, for
  \<open>Start\<close> needs neither.
\<close>

section \<open>What is beside the update\<close>

text \<open>\<open>aside st P h h'\<close>: the update is where it was, and of the files only those of \<open>P\<close> have changed.\<close>

definition aside :: "('w \<Rightarrow> upd_state) \<Rightarrow> string set \<Rightarrow> 'w host \<Rightarrow> 'w host \<Rightarrow> bool" where
  "aside st P h h' \<longleftrightarrow> st (ext h') = st (ext h) \<and> (\<forall>p. p \<notin> P \<longrightarrow> fs h' p = fs h p)"

lemma aside_refl [simp]: "aside st P h h"
  by (simp add: aside_def)

lemma aside_trans: "aside st P h h1 \<Longrightarrow> aside st P h1 h2 \<Longrightarrow> aside st P h h2"
  by (simp add: aside_def)

text \<open>The world leaves the update alone, except for the calls of the library that are for it.\<close>

definition world_apart :: "'w env \<Rightarrow> 'w cli_env \<Rightarrow> ('w \<Rightarrow> upd_state) \<Rightarrow> bool" where
  "world_apart E C st \<longleftrightarrow> untouched E st
     \<and> (\<forall>p w. st (snd (x_io E p w)) = st w) \<and> (\<forall>q w. st (snd (x_http E q w)) = st w)
     \<and> (\<forall>w. st (snd (x_uuid E w)) = st w) \<and> (\<forall>t w. st (c_print C t w) = st w)"

abbreviation command_opts :: "'w cli_env \<Rightarrow> 'w update_opts" where
  "command_opts C \<equiv> getUpdateOpts (updateHandlers C)"

lemma command_separate: "world_apart E C st \<Longrightarrow> separate E (updateOptsToRunnerOpt (command_opts C)) st"
  by (auto simp: world_apart_def separate_def updateHandlers_def getUpdateOpts_def zero_opts_def
      WithPreStateHandler_def WithPostStateHandler_def updateOptsToRunnerOpt_def runner_opts.truncate_def)

lemma command_plain: "\<not> uo_EnableTUF (command_opts C)"
  by (simp add: updateHandlers_def getUpdateOpts_def zero_opts_def WithPreStateHandler_def WithPostStateHandler_def)

lemma io_aside:
  assumes "io E p h = (e, h')" and "world_apart E C st"
  shows "aside st P h h'"
  using io_st [OF assms(1) command_separate [OF assms(2)]] io_frame [OF assms(1)] by (simp add: aside_def)

lemma http_aside:
  assumes "http E q h = (r, h')" and "world_apart E C st"
  shows "aside st P h h'"
  using http_st [OF assms(1) command_separate [OF assms(2)]] http_frame [OF assms(1)] by (simp add: aside_def)

lemma read_file_aside:
  assumes "read_file E p h = (r, h')" and "world_apart E C st"
  shows "aside st P h h'"
  using read_file_st [OF assms(1) command_separate [OF assms(2)]] read_file_fs [OF assms(1)] by (simp add: aside_def)

lemma write_file_aside:
  assumes "write_file E p c h = (e, h')" and "world_apart E C st" and "p \<in> P"
  shows "aside st P h h'"
  using assms(1,3) write_file_st [OF assms(1), of st] assms(2)
  by (auto simp: aside_def world_apart_def write_file_def split: prod.splits option.splits)

lemma remove_file_aside:
  assumes "remove_file E p h = (e, h')" and "world_apart E C st" and "p \<in> P"
  shows "aside st P h h'"
proof -
  obtain e1 h1 where i: "io E (OpRemove p) h = (e1, h1)" by fastforce
  with assms(1,3) io_aside [OF i assms(2), of P] show ?thesis
    by (auto simp: remove_file_def aside_def split: option.splits)
qed

section \<open>The client\<close>

text \<open>The notes of the client on what was last reported.\<close>

definition own_files :: "gw_client \<Rightarrow> string set" where
  "own_files c = {lastNetInfoFile c, lastSotaFile c, lastHwinfoFile c, lastAppStatesFile c}"

lemma own_files_sel [simp]:
  "own_files (c\<lparr>sotaToReport := x\<rparr>) = own_files c" "own_files (c\<lparr>hwinfoToReport := x\<rparr>) = own_files c"
  "own_files (c\<lparr>lastAppStates := y\<rparr>) = own_files c"
  "lastNetInfoFile c \<in> own_files c" "lastSotaFile c \<in> own_files c" "lastHwinfoFile c \<in> own_files c"
  "lastAppStatesFile c \<in> own_files c"
  by (simp_all add: own_files_def)

lemma remove_files_aside: "world_apart E C st \<Longrightarrow> set ps \<subseteq> P \<Longrightarrow> aside st P h (remove_files E ps h)"
proof (induction E ps h rule: remove_files.induct)
  case (2 E f rest h)
  obtain e h1 where r: "remove_file E f h = (e, h1)" by fastforce
  have "aside st P h h1" using remove_file_aside [OF r 2(2)] 2(3) by simp
  with 2 r show ?case by (auto intro: aside_trans)
qed simp

lemma cleanup_aside:
  assumes "world_apart E C st" and "own_files c \<subseteq> P"
  shows "aside st P h (cleanupLastStateIfRequire E cfg c h)"
proof -
  obtain e h1 where i: "io E (OpStat (GetDBPath cfg)) h = (e, h1)" by fastforce
  have "set [lastNetInfoFile c, lastSotaFile c, lastHwinfoFile c, lastAppStatesFile c] \<subseteq> P"
    using assms(2) by (simp add: own_files_def)
  note rm = aside_trans [OF io_aside [OF i assms(1)] remove_files_aside [OF assms(1) this]]
  show ?thesis using i io_aside [OF i assms(1)] rm
    by (simp add: cleanupLastStateIfRequire_def split: option.split)
qed

lemma Put_aside: "Put E c p b h = (r, h') \<Longrightarrow> world_apart E C st \<Longrightarrow> aside st P h h'"
  by (auto simp: Put_def dest: http_aside)

lemma Post_aside: "Post E c p b h = (r, h') \<Longrightarrow> world_apart E C st \<Longrightarrow> aside st P h h'"
  by (auto simp: Post_def dest: http_aside)

text \<open>An upload: a request, and a note of it when the gateway has accepted it.\<close>

lemma uploadNetInfo_aside:
  assumes "uploadNetInfo E c h = (r, h')" and "world_apart E C st" and "own_files c \<subseteq> P"
  shows "aside st P h h'"
proof -
  have p: "lastNetInfoFile c \<in> P" using assms(3) by auto
  note parts = read_file_aside [OF _ assms(2), of _ _ _ _ P] Put_aside [OF _ assms(2), of _ _ _ _ _ _ P]
    write_file_aside [OF _ assms(2) p]
  show ?thesis using assms(1)
    by (auto simp: uploadNetInfo_def Let_def aside_def split: sum.splits outcome.splits prod.splits if_splits
        dest!: parts [unfolded aside_def])
qed

lemma uploadSotaToml_aside:
  assumes "uploadSotaToml E c h = (r, c', h')" and "world_apart E C st" and "own_files c \<subseteq> P"
  shows "aside st P h h' \<and> own_files c' = own_files c"
proof -
  have p: "lastSotaFile c \<in> P" using assms(3) by auto
  note parts = Put_aside [OF _ assms(2), of _ _ _ _ _ _ P] write_file_aside [OF _ assms(2) p]
  show ?thesis using assms(1)
    by (auto simp: uploadSotaToml_def Let_def aside_def split: option.splits sum.splits prod.splits if_splits
        dest!: parts [unfolded aside_def])
qed

lemma uploadHwinfo_aside:
  assumes "uploadHwinfo E c h = (r, c', h')" and "world_apart E C st" and "own_files c \<subseteq> P"
  shows "aside st P h h' \<and> own_files c' = own_files c"
proof -
  have p: "lastHwinfoFile c \<in> P" using assms(3) by auto
  note parts = http_aside [OF _ assms(2), of _ _ _ _ P] write_file_aside [OF _ assms(2) p]
  show ?thesis using assms(1)
    by (auto simp: uploadHwinfo_def Let_def aside_def split: option.splits sum.splits prod.splits if_splits
        dest!: parts [unfolded aside_def])
qed

lemma PutSysInfo_aside:
  assumes "PutSysInfo E c h = (r, c', h')" and "world_apart E C st" and "own_files c \<subseteq> P"
  shows "aside st P h h' \<and> own_files c' = own_files c"
proof -
  obtain r1 h1 where 1: "uploadNetInfo E c h = (r1, h1)" by fastforce
  obtain r2 c2 h2 where 2: "uploadSotaToml E c h1 = (r2, c2, h2)" by (metis prod_cases3)
  obtain r3 c3 h3 where 3: "uploadHwinfo E c2 h2 = (r3, c3, h3)" by (metis prod_cases3)
  note a1 = uploadNetInfo_aside [OF 1 assms(2,3)]
  note a2 = uploadSotaToml_aside [OF 2 assms(2,3)]
  then have "own_files c2 \<subseteq> P" using assms(3) by simp
  note a3 = uploadHwinfo_aside [OF 3 assms(2) this]
  show ?thesis using assms(1) 1 2 3 a1 a2 a3 by (auto simp: PutSysInfo_def aside_def split: outcome.splits)
qed

lemma ReportAppStates_aside:
  assumes "ReportAppStates E c h = (e, c', h')" and "world_apart E C st" and "own_files c \<subseteq> P"
  shows "aside st P h h' \<and> own_files c' = own_files c"
proof -
  have p: "lastAppStatesFile c \<in> P" using assms(3) by auto
  note parts = Post_aside [OF _ assms(2), of _ _ _ _ _ _ P] write_file_aside [OF _ assms(2) p]
  show ?thesis using assms(1)
    by (auto simp: ReportAppStates_def Let_def aside_def split: sum.splits prod.splits if_splits
        dest!: parts [unfolded aside_def])
qed

section \<open>The set-up\<close>

text \<open>
  What has to work before the states: the transport can be set up, \<open>lshw\<close> prints a tree with its
  \<open>core\<close>, if it runs, the interface of the default route has an address, if there is one, and the
  database can be opened and its tables created.
\<close>

definition set_up_works :: "'w env \<Rightarrow> config \<Rightarrow> bool" where
  "set_up_works E cfg \<longleftrightarrow> (\<forall>w. x_CreateClient E (tomlConfig cfg) w = None)
     \<and> (\<forall>w out. x_Lshw E w = Inr out \<longrightarrow> scrubHwinfo out \<noteq> None)
     \<and> (\<forall>w. ipInfo E w \<noteq> Panicked)
     \<and> (\<forall>w. fst (x_io E OpSqlOpen w) = None) \<and> (\<forall>q w. fst (x_io E (OpSqlExec q) w) = None)"

text \<open>The files of the client are beside the file of the targets.\<close>

lemma clean_comps_last:
  assumes "c \<noteq> ''''" and "c \<noteq> ''.''" and "c \<noteq> ''..''"
  shows "\<exists>ds. clean_comps rooted acc (cs @ [c]) = ds @ [c]"
  using assms by (induction rooted acc cs rule: clean_comps.induct) (auto split: list.splits)

lemma join_last: "\<exists>t. join sep (ds @ [c]) = t @ c"
proof (induction ds)
  case (Cons d ds)
  then obtain t where "join sep (ds @ [c]) = t @ c" by blast
  then show ?case by (cases ds) auto
qed simp

lemma path_clean_last:
  assumes "c \<noteq> ''''" and "c \<noteq> ''.''" and "c \<noteq> ''..''" and "split_on (CHR ''/'') p = cs @ [c]"
  shows "\<exists>t. path_clean p = t @ c"
proof -
  have "\<exists>t. join ''/'' (clean_comps r [] (cs @ [c])) = t @ c" for r
    using clean_comps_last [OF assms(1-3), of r "[]" cs] join_last by metis
  then obtain t where "join ''/'' (clean_comps (p \<noteq> [] \<and> hd p = CHR ''/'') [] (split_on (CHR ''/'') p)) = t @ c"
    unfolding assms(4) by blast
  then show ?thesis using assms(1) by (auto simp: path_clean_def Let_def)
qed

lemma path_join_last:
  assumes "c \<noteq> ''''" and "c \<noteq> ''.''" and "c \<noteq> ''..''" and "CHR ''/'' \<notin> set c"
  shows "\<exists>t. path_join [d, c] = t @ c"
proof (cases "d = ''''")
  case True
  have "split_on (CHR ''/'') c = [] @ [c]" using assms(4) by (simp add: split_on_no_sep)
  from path_clean_last [OF assms(1-3) this] True assms(1) show ?thesis by (simp add: path_join_def Let_def)
next
  case False
  have "split_on (CHR ''/'') (d @ CHR ''/'' # c) = split_on (CHR ''/'') d @ [c]" using assms(4)
    by (simp add: split_on_append_sep split_on_no_sep)
  from path_clean_last [OF assms(1-3) this] False assms(1) show ?thesis by (simp add: path_join_def Let_def)
qed

lemma targets_not_own:
  "GetTargetsFilepath cfg \<notin> {path_join [d, ''.last-netinfo''], path_join [d, ''.last-sota''],
     path_join [d, ''.last-hwinfo''], path_join [d, ''.last-app-states'']}"
proof -
  have ends: "last (path_join [x, c]) = last c"
    if "c \<in> {''targets.json'', ''.last-netinfo'', ''.last-sota'', ''.last-hwinfo'', ''.last-app-states''}" for x c
  proof -
    from that obtain t where "path_join [x, c] = t @ c" using path_join_last [of c x] by auto
    then show ?thesis using that by auto
  qed
  have "last (GetTargetsFilepath cfg) = CHR ''n''" by (simp add: GetTargetsFilepath_def ends)
  then have neq: "GetTargetsFilepath cfg \<noteq> path_join [d, c]" if "last (path_join [d, c]) \<noteq> CHR ''n''" for c
    using that by auto
  show ?thesis using neq [of "''.last-netinfo''"] neq [of "''.last-sota''"] neq [of "''.last-hwinfo''"]
      neq [of "''.last-app-states''"] by (simp add: ends)
qed

lemma initSota_aside:
  "initSota E t c h = (c', h') \<Longrightarrow> world_apart E C st \<Longrightarrow> aside st P h h' \<and> own_files c' = own_files c"
  by (auto simp: initSota_def Let_def split: sum.splits prod.splits if_splits dest: read_file_aside)

lemma initHwinfo_aside:
  "initHwinfo E c h = (r, c', h') \<Longrightarrow> world_apart E C st \<Longrightarrow> aside st P h h' \<and> own_files c' = own_files c"
  by (auto simp: initHwinfo_def Let_def split: sum.splits option.splits prod.splits if_splits dest: read_file_aside)

lemma initHwinfo_works:
  "initHwinfo E c h = (r, c', h') \<Longrightarrow> set_up_works E cfg \<Longrightarrow> r = Ret ()"
  by (auto simp: initHwinfo_def set_up_works_def Let_def split: sum.splits option.splits prod.splits if_splits)
    (metis option.distinct(1))

lemma initAppStateReporter_aside:
  "initAppStateReporter E c h = (c', h') \<Longrightarrow> world_apart E C st \<Longrightarrow> aside st P h h' \<and> own_files c' = own_files c"
  by (auto simp: initAppStateReporter_def split: sum.splits prod.splits content.splits dest: read_file_aside)

lemma NewGatewayClient_works:
  assumes "set_up_works E cfg" and "world_apart E C st"
  shows "\<exists>c cfg' h'. NewGatewayClient E cfg None '''' h = (Ret (Inr c), cfg', h') \<and> aside st (own_files c) h h'
    \<and> cfg' = SetClientForProxy cfg \<and> GetTargetsFilepath cfg \<notin> own_files c"
proof -
  let ?gw = "\<lparr>BaseURL = url_text (GetServerBaseURL cfg), Headers = [''user-agent'' \<mapsto> ''fioup/'' @ ''/1.0.0'', HeaderKeyTag \<mapsto> GetTag cfg],
     lastNetInfoFile = path_join [GetStorageDir cfg, ''.last-netinfo''],
     lastSotaFile = path_join [GetStorageDir cfg, ''.last-sota''], sotaToReport = None,
     lastHwinfoFile = path_join [GetStorageDir cfg, ''.last-hwinfo''], hwinfoToReport = None,
     lastAppStatesFile = path_join [GetStorageDir cfg, ''.last-app-states''], lastAppStates = []\<rparr>"
  let ?P = "own_files ?gw"
  let ?h = "cleanupLastStateIfRequire E cfg ?gw h"
  have 1: "aside st ?P h ?h" by (rule cleanup_aside [OF assms(2)]) simp
  obtain c2 h2 where s: "initSota E (tomlConfig cfg) ?gw ?h = (c2, h2)" by fastforce
  note 2 = initSota_aside [OF s assms(2), of ?P]
  obtain r3 c3 h3 where w: "initHwinfo E c2 h2 = (r3, c3, h3)" by (metis prod_cases3)
  note 3 = initHwinfo_aside [OF w assms(2), of ?P] initHwinfo_works [OF w assms(1)]
  obtain c4 h4 where a: "initAppStateReporter E c3 h3 = (c4, h4)" by fastforce
  note 4 = initAppStateReporter_aside [OF a assms(2), of ?P]
  have "aside st ?P h h4" using 1 2 3 4 by (simp add: aside_def)
  moreover have "NewGatewayClient E cfg None '''' h = (Ret (Inr c4), SetClientForProxy cfg, h4)"
    using assms(1) s w a 3 by (simp add: NewGatewayClient_def set_up_works_def Let_def)
  moreover have "GetTargetsFilepath cfg \<notin> ?P" using targets_not_own [of cfg "GetStorageDir cfg"] by (simp add: own_files_def)
  ultimately show ?thesis using 2 3 4 by auto
qed

lemma InitializeDatabase_works:
  assumes "set_up_works E cfg" and "world_apart E C st"
  shows "\<exists>h'. InitializeDatabase E h = (None, h') \<and> aside st P h h'"
proof -
  have io: "\<exists>y. io E p x = (None, y) \<and> aside st P x y"
    if "p = OpSqlOpen \<or> (\<exists>q. p = OpSqlExec q)" for p x
  proof -
    obtain e y where i: "io E p x = (e, y)" by fastforce
    then have "e = fst (x_io E p (ext x))" by (auto simp: io_def split: prod.splits)
    with that assms(1) have "e = None" by (auto simp: set_up_works_def)
    with i io_aside [OF i assms(2), of P] show ?thesis by simp
  qed
  have t: "\<exists>y. CreateTargetsTable E x = (None, y) \<and> aside st P x y" for x
  proof -
    obtain y where y: "io E OpSqlOpen x = (None, y)" "aside st P x y" using io by blast
    obtain z where z: "io E (OpSqlExec ''CREATE TABLE installed_versions'') y = (None, z)" "aside st P y z" using io by blast
    from y z show ?thesis by (simp add: CreateTargetsTable_def aside_def)
  qed
  have e: "\<exists>y. CreateEventsTable E x = (None, y) \<and> aside st P x y" for x
  proof -
    obtain y where y: "io E OpSqlOpen x = (None, y)" "aside st P x y" using io by blast
    obtain z where z: "io E (OpSqlExec ''CREATE TABLE report_events'') y = (None, z)" "aside st P y z" using io by blast
    from y z show ?thesis by (simp add: CreateEventsTable_def aside_def)
  qed
  obtain h1 where h1: "CreateTargetsTable E h = (None, h1)" "aside st P h h1" using t by blast
  obtain h2 where h2: "CreateEventsTable E h1 = (None, h2)" "aside st P h1 h2" using e by blast
  from h1 h2 show ?thesis by (simp add: InitializeDatabase_def aside_def)
qed

section \<open>A run with its set-up\<close>

lemma PutSysInfo_works: "set_up_works E cfg \<Longrightarrow> \<exists>e c' h'. PutSysInfo E c h = (Ret e, c', h')"
  by (auto simp: PutSysInfo_def uploadNetInfo_def set_up_works_def Let_def split: sum.splits outcome.splits prod.splits)

lemma proxy_targets [simp]: "GetTargetsFilepath (SetClientForProxy cfg) = GetTargetsFilepath cfg"
  by (simp add: GetTargetsFilepath_def GetStorageDir_def SetClientForProxy_def split: option.split)

lemma targets_file_ok_aside:
  "targets_file_ok E cfg h \<Longrightarrow> aside st P h h' \<Longrightarrow> GetTargetsFilepath cfg \<notin> P \<Longrightarrow> targets_file_ok E (SetClientForProxy cfg) h'"
  by (simp add: targets_file_ok_def aside_def)

text \<open>
  What precedes the states leaves the update and the file of the targets as they are, and what comes
  after them the update; whether the reports reach the gateway does not matter.
\<close>

lemma Run_reaches:
  assumes "set_up_works E cfg" and "world_apart E C st" and "targets_file_ok E cfg h"
    and "ro = updateOptsToRunnerOpt (command_opts C)"
    and states: "\<And>u h1. targets_file_ok E (Config u) h1 \<Longrightarrow> st (ext h1) = st (ext h)
      \<Longrightarrow> \<exists>u' h'. run_states E ro sched ss u h1 = (Ret None, u', h') \<and> st (ext h') = y"
  shows "\<exists>u' h'. Run E sched (newUpdateRunner ss ro) cfg h = (Ret None, Some u', h') \<and> st (ext h') = y"
proof -
  obtain c h1 where c: "NewGatewayClient E cfg None '''' h = (Ret (Inr c), SetClientForProxy cfg, h1)"
    and 1: "aside st (own_files c) h h1" and t: "GetTargetsFilepath cfg \<notin> own_files c"
    using NewGatewayClient_works [OF assms(1,2), of h] by blast
  obtain h2 where d: "InitializeDatabase E h1 = (None, h2)" and 2: "aside st (own_files c) h1 h2"
    using InitializeDatabase_works [OF assms(1,2)] by blast
  obtain e3 c3 h3 where p: "PutSysInfo E c h2 = (Ret e3, c3, h3)" using PutSysInfo_works [OF assms(1)] by blast
  note 3 = PutSysInfo_aside [OF p assms(2) subset_refl]
  obtain e4 c4 h4 where r: "ReportAppStates E c3 h3 = (e4, c4, h4)" by (metis prod_cases3)
  have 4: "aside st (own_files c) h3 h4" using ReportAppStates_aside [OF r assms(2)] 3 by simp
  have a: "aside st (own_files c) h h4" using 1 2 3 4 by (simp add: aside_def)
  let ?u = "(initial_ctx (SetClientForProxy cfg) c (length ss))\<lparr>Client := c4\<rparr>"
  have "targets_file_ok E (Config ?u) h4" using targets_file_ok_aside [OF assms(3) a t] by (simp add: initial_ctx_def)
  then obtain u5 h5 where s: "run_states E ro sched ss ?u h4 = (Ret None, u5, h5)" and y: "st (ext h5) = y"
    using states a unfolding aside_def by blast
  obtain e6 c6 h6 where q: "ReportAppStates E (Client u5) h5 = (e6, c6, h6)" by (metis prod_cases3)
  have 6: "st (ext h6) = y" using ReportAppStates_aside [OF q assms(2) subset_UNIV] y by (simp add: aside_def)
  have "run_session E sched (newUpdateRunner ss ro) (SetClientForProxy cfg) c (initial_ctx (SetClientForProxy cfg) c (length ss)) h2
      = (Ret None, u5\<lparr>Client := c6\<rparr>, h6)"
    using p r s q by (simp add: run_session_def newUpdateRunner_def)
  moreover have "ro_GatewayClient ro = None" using handlers_opts assms(4) by simp
  ultimately have "Run E sched (newUpdateRunner ss ro) cfg h
      = (Ret None, Some (u5\<lparr>Client := c6\<rparr>), if ro_EventSender ro then h6 else flushes E c6 (sched 0) h6)"
    using c d by (simp add: Run_def newUpdateRunner_def)
  then show ?thesis using 6 flushes_st [OF command_separate [OF assms(2)]] by auto
qed

lemma leave_ok: "leave C (Ret None, u, h) = (Go (), h)"
  by (simp add: leave_def die_def DieNotNil_def)

lemma resume_command:
  assumes "library_works E r st" and "world_apart E C st" and "enough_space E r" and "names_target E r" and "under_way E r st"
    and "set_up_works E cfg" and "targets_file_ok E cfg h"
    and "ss = install_states (command_opts C) \<and> st (ext h) \<in> {StateFetched, StateInstalling} \<and> y = StateInstalled
      \<or> ss = start_states (command_opts C) \<and> st (ext h) \<in> set installed_states \<and> y = StateCompleted"
  shows "\<exists>h'. leave C (Run E sched (newUpdateRunner ss (updateOptsToRunnerOpt (command_opts C))) cfg h) = (Go (), h') \<and> st (ext h') = y"
proof -
  have "\<exists>u' h'. run_states E (updateOptsToRunnerOpt (command_opts C)) sched ss u h1 = (Ret None, u', h') \<and> st (ext h') = y"
    if "targets_file_ok E (Config u) h1" "st (ext h1) = st (ext h)" for u h1
    using resume_completes [OF assms(1) command_separate [OF assms(2)] assms(3-5) that(1) command_plain] assms(8)
    unfolding that(2) by blast
  from Run_reaches [where C = C and sched = sched and ss = ss and y = y, OF assms(6,2,7) refl this] show ?thesis
    using leave_ok by metis
qed

section \<open>From the command line\<close>

lemma NewConfig_aside:
  assumes "NewConfig E paths h = (r, h')" and "world_apart E C st"
  shows "aside st {} h h'"
  using assms(1)
  by (auto simp: NewConfig_def newProxyProvider_def Let_def split: if_splits sum.splits bool.splits prod.splits
      dest!: read_file_aside [OF _ assms(2), where P = "{}"])

text \<open>The two commands that go on with an update that is there.\<close>

definition resume_run :: "'w main_env \<Rightarrow> string \<Rightarrow> config \<Rightarrow> 'w host \<Rightarrow> unit exit \<times> 'w host" where
  "resume_run M name =
    (if name = ''install'' then doInstall (m_env M) (m_cli M) else doStart (m_env M) (m_cli M))"

lemma find_resume:
  assumes "init_program M = Go p" and "name = ''install'' \<or> name = ''start''"
  shows "\<exists>c. find (\<lambda>c. cmd_Path c = [name]) (p_commands p) = Some c \<and> cmd_Path c = [name] \<and> cmd_Args c = NoArgs
    \<and> cmd_Required c = [] \<and> annotation (cmd_Annotations c) lockFlagKey = ''true''
    \<and> cmd_Run c = (\<lambda>c v args. with_cfg (\<lambda>cfg h. Some (resume_run M name cfg h)) c)"
  using assms by (elim disjE) (clarsimp simp: program_defs resume_run_def locked_def annotation_def lockFlagKey_def)+

lemma main_resume:
  assumes "name = ''install'' \<or> name = ''start''"
    and "args \<noteq> []" and "\<not> has_suffix (hd args) ''docker-credential-fioup''" and "m_cobra M (tl args) = Invoke [name] [] []"
    and "\<forall>k. x_getenv (m_env M) k (ext h) = ''''" and "NewConfig (m_env M) (m_DEF_CONFIG_ORDER M) h = (Inr cfg, h1)"
    and "acquireLock (m_lock M) pid locks = (None, locks')" and "resume_run M name cfg h1 = (Go (), h')"
  shows "fioup_main M pid args locks h = Some (Go (), locks', h')"
proof -
  obtain p where p: "init_program M = Go p" using init_program_ok by blast
  have o: "apply_overrides M (p_root p) overrides (ext h) (p_vars p) = Go (p_vars p)"
    using assms(5) by (simp add: overrides_def Let_def)
  obtain c where c: "find (\<lambda>c. cmd_Path c = [name]) (p_commands p) = Some c" "cmd_Path c = [name]" "cmd_Args c = NoArgs"
    "cmd_Required c = []" "annotation (cmd_Annotations c) lockFlagKey = ''true''"
    "cmd_Run c = (\<lambda>c v args. with_cfg (\<lambda>cfg h. Some (resume_run M name cfg h)) c)"
    using find_resume [OF p assms(1)] by blast
  have "pre_run M pid (p_vars p) name (cmd_Annotations c) locks h = (Go (Some cfg), locks', h1)"
    using assms(1,6,7) c(5) program_paths(1) [OF p]
    by (auto simp: pre_run_def PersistentPreRun_def with_config_def Let_def)
  then have "run_command M pid p (p_vars p) c [] [] locks h = Some (Go None, locks', h')"
    using c assms(8) by (simp add: run_command_def with_cfg_def)
  then show ?thesis using p o c(1) assms(2-4) by (simp add: fioup_main_def Execute_def)
qed

section \<open>Properties\<close>


text \<open>A device without a gateway: requests fail, and the update is to be started.\<close>

definition offline :: "upd_state env" where
  "offline = asked_library
    \<lparr>x_Stat := \<lambda>p w. Inr (False, ''sota.toml''),
     x_NewAppConfig := \<lambda>ps w. Inr \<lparr>t_Has = \<lambda>k. k = ''tls.server'', t_Get = \<lambda>k. ''https://gw'', t_GetDefault = \<lambda>k d. d\<rparr>,
     x_UrlParse := \<lambda>s. Inr \<lparr>url_Scheme = ''https'', url_Host = ''gw'', url_text = s\<rparr>,
     x_NewComposeConfig := \<lambda>a b c d w. Inr \<lparr>cc_StoreRoot = a, cc_BlockSize = 4096\<rparr>,
     x_CreateClient := \<lambda>t w. None, x_Lshw := \<lambda>w. Inl (ErrorString ''no lshw''), x_Route := \<lambda>w. Inl (ErrorString ''no route''),
     x_getenv := \<lambda>k w. '''', x_ulid := \<lambda>w. (Inr ''id'', w), x_write := \<lambda>p c w. (None, w)\<rparr>"

definition offline_shell :: "upd_state main_env" where
  "offline_shell = (undefined :: upd_state main_env)
    \<lparr>m_env := offline, m_cli := (undefined :: upd_state cli_env)\<lparr>c_print := \<lambda>t w. w\<rparr>,
     m_lock := root_env, m_cobra := \<lambda>args. Invoke [''start''] [] [], m_DEF_CONFIG_ORDER := [''/var/sota/sota.toml'']\<rparr>"


end
